(* ===== verification/ESR_Prelude.thy ===== *)
theory ESR_Prelude
  imports Main "HOL-Library.List_Lexorder" "HOL-Library.Char_ord" "HOL-Library.Countable"
begin

text \<open>
  Shared vocabulary of the development: Python values and exceptions, the string and
  dictionary operations of the standard library that the sources use, and the generic lemmas
  the component theories rest on.

  A Python \<open>str\<close> is a \<^typ>\<open>string\<close>, read as the bytes of its UTF-8 encoding: operations that
  look only at ASCII characters (splitting at \<open>/\<close>, percent-encoding, prefix tests) are exact.
  Case mapping, \<open>isdigit\<close> and white space are those of ASCII. A Python \<open>dict\<close> is an association
  list with distinct keys in insertion order, since iteration order is observable.
\<close>

named_theorems py_simps \<open>evaluation rules of the Python operations\<close>
named_theorems inv_simps \<open>definitions of component invariants\<close>


section \<open>Python values\<close>

text \<open>
  The values that cross process boundaries (JSON and YAML documents) and the containers that
  handler states use. A float is carried as its \<open>repr\<close>.
\<close>

datatype py_val =
    PyNone
  | PyBool bool
  | PyInt int
  | PyFloat string
  | PyStr string
  | PyList "py_val list"
  | PyTuple "py_val list"
  | PySet "py_val list"
  | PyDict "(py_val \<times> py_val) list"

type_synonym py_kvs = "(py_val \<times> py_val) list"

text \<open>An exception is its class name and its message; a fallible operation returns a sum.\<close>

datatype py_exc = Exc (exc_type: string) (exc_msg: string)

type_synonym 'a res = "py_exc + 'a"

definition rbind :: "'a res \<Rightarrow> ('a \<Rightarrow> 'b res) \<Rightarrow> 'b res" where
  "rbind r f = (case r of Inl e \<Rightarrow> Inl e | Inr x \<Rightarrow> f x)"

definition is_ok :: "'a res \<Rightarrow> bool" where
  "is_ok r = (case r of Inl _ \<Rightarrow> False | Inr _ \<Rightarrow> True)"

lemma rbind_simps [simp]: "rbind (Inl e) f = Inl e" "rbind (Inr x) f = f x"
  by (simp_all add: rbind_def)

lemma rbind_Inr_iff: "rbind r f = Inr y \<longleftrightarrow> (\<exists>x. r = Inr x \<and> f x = Inr y)"
  by (cases r) auto

lemma is_ok_simps [simp]: "\<not> is_ok (Inl e)" "is_ok (Inr x)"
  by (simp_all add: is_ok_def)

lemma is_ok_iff: "is_ok r \<longleftrightarrow> (\<exists>x. r = Inr x)"
  by (cases r) auto

text \<open>\<open>[f(x) for x in xs]\<close> where \<open>f\<close> may raise: the first exception propagates.\<close>

fun mapM :: "('a \<Rightarrow> 'b res) \<Rightarrow> 'a list \<Rightarrow> 'b list res" where
  "mapM f [] = Inr []"
| "mapM f (x # xs) = rbind (f x) (\<lambda>y. rbind (mapM f xs) (\<lambda>ys. Inr (y # ys)))"

lemma mapM_Inr: "(\<And>x. x \<in> set xs \<Longrightarrow> f x = Inr (g x)) \<Longrightarrow> mapM f xs = Inr (map g xs)"
  by (induction xs) auto

lemma mapM_length: "mapM f xs = Inr ys \<Longrightarrow> length ys = length xs"
  by (induction xs arbitrary: ys) (auto simp: rbind_Inr_iff)


section \<open>Strings\<close>

subsection \<open>Prefixes and separators\<close>

definition startswith :: "string \<Rightarrow> string \<Rightarrow> bool" where
  "startswith s p = (take (length p) s = p)"

text \<open>\<open>p in s\<close> for strings.\<close>

fun contains :: "string \<Rightarrow> string \<Rightarrow> bool" where
  "contains [] p = (p = [])"
| "contains (c # s) p = (startswith (c # s) p \<or> contains s p)"

definition removeprefix :: "string \<Rightarrow> string \<Rightarrow> string" where
  "removeprefix s p = (if startswith s p then drop (length p) s else s)"

lemma startswith_append [simp]: "startswith (p @ s) p"
  by (simp add: startswith_def)

lemma startswith_iff: "startswith s p \<longleftrightarrow> (\<exists>t. s = p @ t)"
  unfolding startswith_def by (metis append_eq_conv_conj append_take_drop_id)

lemma startswith_Cons [simp]: "startswith (x # xs) (y # ys) \<longleftrightarrow> x = y \<and> startswith xs ys"
  by (auto simp: startswith_def)

lemma startswith_Nil [simp]: "startswith s []" "startswith [] (y # ys) = False"
  by (simp_all add: startswith_def)

text \<open>
  \<open>s.partition(c)\<close> for a one-character separator: \<open>before\<close> is its first component and \<open>after\<close>
  its last; where \<open>c\<close> does not occur they are \<open>s\<close> and the empty string. \<open>s.split(c, 1)\<close> has the
  same two parts when \<open>c\<close> occurs. \<open>rbefore\<close> and \<open>rafter\<close> split at the last occurrence.
\<close>

definition before :: "char \<Rightarrow> string \<Rightarrow> string" where
  "before c s = takeWhile (\<lambda>x. x \<noteq> c) s"

definition after :: "char \<Rightarrow> string \<Rightarrow> string" where
  "after c s = drop 1 (dropWhile (\<lambda>x. x \<noteq> c) s)"

definition rbefore :: "char \<Rightarrow> string \<Rightarrow> string" where
  "rbefore c s = rev (after c (rev s))"

definition rafter :: "char \<Rightarrow> string \<Rightarrow> string" where
  "rafter c s = rev (before c (rev s))"

lemma before_notin [simp]: "c \<notin> set (before c s)"
  by (induction s) (auto simp: before_def)

lemma before_absent: "c \<notin> set s \<Longrightarrow> before c s = s"
  by (induction s) (auto simp: before_def)

lemma after_absent: "c \<notin> set s \<Longrightarrow> after c s = []"
  by (induction s) (auto simp: after_def)

lemma before_append [simp]: "c \<notin> set s \<Longrightarrow> before c (s @ c # t) = s"
  by (induction s) (auto simp: before_def)

lemma after_append [simp]: "c \<notin> set s \<Longrightarrow> after c (s @ c # t) = t"
  by (induction s) (auto simp: after_def)

lemma before_after: "c \<in> set s \<Longrightarrow> s = before c s @ c # after c s"
  by (induction s) (auto simp: before_def after_def)

lemma rbefore_append [simp]: "c \<notin> set t \<Longrightarrow> rbefore c (s @ c # t) = s"
  by (simp add: rbefore_def)

lemma rafter_append [simp]: "c \<notin> set t \<Longrightarrow> rafter c (s @ c # t) = t"
  by (simp add: rafter_def)

lemma rbefore_rafter: "c \<in> set s \<Longrightarrow> s = rbefore c s @ c # rafter c s"
proof -
  assume "c \<in> set s"
  then have "rev s = before c (rev s) @ c # after c (rev s)"
    by (intro before_after) simp
  then have "rev (rev s) = rev (before c (rev s) @ c # after c (rev s))" by simp
  then show ?thesis by (simp add: rbefore_def rafter_def)
qed

lemma set_before: "set (before c s) \<subseteq> set s"
  by (auto simp: before_def dest: set_takeWhileD)

lemma set_after: "set (after c s) \<subseteq> set s"
  by (auto simp: after_def dest!: in_set_dropD set_dropWhileD)

text \<open>\<open>s.split(c)\<close> and \<open>c.join(xs)\<close>.\<close>

fun split_on :: "char \<Rightarrow> string \<Rightarrow> string list" where
  "split_on c [] = [[]]"
| "split_on c (x # xs) =
     (if x = c then [] # split_on c xs
      else (case split_on c xs of [] \<Rightarrow> [[x]] | y # ys \<Rightarrow> (x # y) # ys))"

fun join :: "string \<Rightarrow> string list \<Rightarrow> string" where
  "join sep [] = []"
| "join sep [x] = x"
| "join sep (x # y # ys) = x @ sep @ join sep (y # ys)"

lemma split_on_not_Nil [simp]: "split_on c s \<noteq> []"
  by (cases s) (auto split: list.split)

lemma split_on_no_sep: "x \<in> set (split_on c s) \<Longrightarrow> c \<notin> set x"
  by (induction s arbitrary: x) (fastforce split: list.splits if_splits)+

lemma split_on_set: "x \<in> set (split_on c s) \<Longrightarrow> set x \<subseteq> set s"
proof (induction s arbitrary: x)
  case (Cons a s)
  obtain y ys where "split_on c s = y # ys"
    by (cases "split_on c s") auto
  with Cons show ?case by (fastforce split: if_splits)
qed simp

lemma join_Cons: "xs \<noteq> [] \<Longrightarrow> join sep (x # xs) = x @ sep @ join sep xs"
  by (cases xs) auto

lemma join_split_on: "join [c] (split_on c s) = s"
proof (induction s)
  case (Cons x s)
  obtain y ys where "split_on c s = y # ys"
    by (cases "split_on c s") auto
  with Cons show ?case by (cases ys) auto
qed simp

lemma split_on_absent: "c \<notin> set s \<Longrightarrow> split_on c s = [s]"
  by (induction s) auto

lemma split_on_append: "c \<notin> set s \<Longrightarrow> split_on c (s @ c # t) = s # split_on c t"
  by (induction s) auto

lemma split_on_join:
  assumes "xs \<noteq> []" "\<And>x. x \<in> set xs \<Longrightarrow> c \<notin> set x"
  shows "split_on c (join [c] xs) = xs"
  using assms
proof (induction xs)
  case (Cons x xs)
  then show ?case
    by (cases xs) (auto simp: split_on_absent split_on_append)
qed simp

lemma set_join: "set (join sep xs) \<subseteq> set sep \<union> (\<Union>x\<in>set xs. set x)"
  by (induction sep xs rule: join.induct) auto


subsection \<open>Characters and white space\<close>

definition is_ws :: "char \<Rightarrow> bool" where
  "is_ws c = (let n = of_char c :: nat in n = 32 \<or> (9 \<le> n \<and> n \<le> 13) \<or> (28 \<le> n \<and> n \<le> 31))"

definition lstrip_ws :: "string \<Rightarrow> string" where
  "lstrip_ws s = dropWhile is_ws s"

definition strip :: "string \<Rightarrow> string" where
  "strip s = rev (lstrip_ws (rev (lstrip_ws s)))"

definition lstrip_char :: "char \<Rightarrow> string \<Rightarrow> string" where
  "lstrip_char c s = dropWhile (\<lambda>x. x = c) s"

definition rstrip_char :: "char \<Rightarrow> string \<Rightarrow> string" where
  "rstrip_char c s = rev (lstrip_char c (rev s))"

text \<open>\<open>s.split()\<close>: maximal runs of characters that are not white space.\<close>

fun words_acc :: "string \<Rightarrow> string \<Rightarrow> string list" where
  "words_acc acc [] = (if acc = [] then [] else [rev acc])"
| "words_acc acc (c # cs) =
     (if is_ws c then (if acc = [] then words_acc [] cs else rev acc # words_acc [] cs)
      else words_acc (c # acc) cs)"

definition split_ws :: "string \<Rightarrow> string list" where
  "split_ws s = words_acc [] s"

lemma words_acc_not_empty: "w \<in> set (words_acc acc s) \<Longrightarrow> w \<noteq> []"
  by (induction acc s rule: words_acc.induct) (auto split: if_splits)

lemma split_ws_not_empty: "w \<in> set (split_ws s) \<Longrightarrow> w \<noteq> []"
  by (auto simp: split_ws_def dest: words_acc_not_empty)

lemma words_acc_acc: "acc \<noteq> [] \<Longrightarrow> words_acc acc s \<noteq> []"
  by (induction acc s rule: words_acc.induct) auto

lemma split_ws_eq_Nil: "split_ws s = [] \<longleftrightarrow> (\<forall>c\<in>set s. is_ws c)"
  unfolding split_ws_def by (induction s) (auto simp: words_acc_acc)

lemma strip_eq_Nil: "strip s = [] \<longleftrightarrow> (\<forall>c\<in>set s. is_ws c)"
proof
  assume "strip s = []"
  then have "\<forall>c\<in>set (lstrip_ws s). is_ws c"
    by (simp add: strip_def lstrip_ws_def)
  then show "\<forall>c\<in>set s. is_ws c"
    unfolding lstrip_ws_def by (metis dropWhile_eq_Nil_conv list.set_sel(1) hd_dropWhile)
next
  assume "\<forall>c\<in>set s. is_ws c"
  then have "dropWhile is_ws s = []" by simp
  then show "strip s = []"
    by (simp add: strip_def lstrip_ws_def del: dropWhile_eq_Nil_conv)
qed

definition lower_char :: "char \<Rightarrow> char" where
  "lower_char c = (let n = of_char c :: nat in if 65 \<le> n \<and> n \<le> 90 then char_of (n + 32) else c)"

definition lower :: "string \<Rightarrow> string" where
  "lower s = map lower_char s"

definition digit_val :: "char \<Rightarrow> nat option" where
  "digit_val c = (let n = of_char c :: nat in if 48 \<le> n \<and> n \<le> 57 then Some (n - 48) else None)"

definition is_digit :: "char \<Rightarrow> bool" where
  "is_digit c = (digit_val c \<noteq> None)"

definition isdigit_str :: "string \<Rightarrow> bool" where
  "isdigit_str s = (s \<noteq> [] \<and> list_all is_digit s)"



subsection \<open>Integers: \<open>str(i)\<close> and \<open>int(s)\<close>\<close>

fun show_nat :: "nat \<Rightarrow> string" where
  "show_nat n = (if n < 10 then [char_of (48 + n)] else show_nat (n div 10) @ [char_of (48 + n mod 10)])"

declare show_nat.simps [simp del]

definition show_int :: "int \<Rightarrow> string" where
  "show_int i = (if i < 0 then CHR ''-'' # show_nat (nat (- i)) else show_nat (nat i))"

text \<open>
  \<open>int(s)\<close> in base 10: surrounding white space is dropped, one sign is accepted, and single
  underscores may separate digits. \<^const>\<open>None\<close> is \<open>ValueError\<close>. (The interpreter's limit on the
  number of digits is not modelled.)
\<close>

fun int_digits :: "nat \<Rightarrow> string \<Rightarrow> nat option" where
  "int_digits acc [] = Some acc"
| "int_digits acc (c # cs) =
     (case digit_val c of
        Some d \<Rightarrow> int_digits (10 * acc + d) cs
      | None \<Rightarrow>
          if c = CHR ''_'' then
            (case cs of
               [] \<Rightarrow> None
             | e # es \<Rightarrow> (case digit_val e of Some d \<Rightarrow> int_digits (10 * acc + d) es | None \<Rightarrow> None))
          else None)"

definition int_magnitude :: "string \<Rightarrow> nat option" where
  "int_magnitude s =
     (case s of [] \<Rightarrow> None
      | c # cs \<Rightarrow> (case digit_val c of None \<Rightarrow> None | Some d \<Rightarrow> int_digits d cs))"

definition py_int :: "string \<Rightarrow> int option" where
  "py_int s =
     (case strip s of
        [] \<Rightarrow> None
      | c # cs \<Rightarrow>
          if c = CHR ''-'' then map_option (\<lambda>n. - int n) (int_magnitude cs)
          else if c = CHR ''+'' then map_option int (int_magnitude cs)
          else map_option int (int_magnitude (c # cs)))"

lemma digit_char_props:
  assumes "n < 10"
  shows "digit_val (char_of (48 + n)) = Some n" "\<not> is_ws (char_of (48 + n))"
  using assms by (auto simp: digit_val_def is_ws_def)

lemma show_nat_digits: "c \<in> set (show_nat n) \<Longrightarrow> is_digit c"
proof (induction n rule: show_nat.induct)
  case (1 n)
  then show ?case
    by (subst (asm) (2) show_nat.simps) (auto simp: is_digit_def digit_char_props split: if_splits)
qed

lemma digit_not_ws: "is_digit c \<Longrightarrow> \<not> is_ws c"
  by (auto simp: is_digit_def digit_val_def is_ws_def Let_def split: if_splits)

lemma show_nat_not_Nil [simp]: "show_nat n \<noteq> []"
  by (subst show_nat.simps) simp

lemma int_digits_snoc:
  assumes "list_all is_digit s" "int_digits acc s = Some m" "digit_val c = Some d"
  shows "int_digits acc (s @ [c]) = Some (10 * m + d)"
  using assms by (induction s arbitrary: acc) (auto simp: is_digit_def split: option.splits)

lemma int_magnitude_show_nat: "int_magnitude (show_nat n) = Some n"
proof (induction n rule: show_nat.induct)
  case (1 n)
  show ?case
  proof (cases "n < 10")
    case True
    then show ?thesis
      by (simp add: show_nat.simps [of n] int_magnitude_def digit_char_props)
  next
    case False
    obtain c cs where s: "show_nat (n div 10) = c # cs"
      by (cases "show_nat (n div 10)") auto
    obtain d where d: "digit_val c = Some d" "int_digits d cs = Some (n div 10)"
      using 1 False s by (auto simp: int_magnitude_def split: option.splits)
    have "list_all is_digit cs"
      using show_nat_digits [of _ "n div 10"] s by (auto simp: list_all_iff)
    then have "int_digits d (cs @ [char_of (48 + n mod 10)]) = Some (10 * (n div 10) + n mod 10)"
      using d by (intro int_digits_snoc) (simp_all add: digit_char_props)
    with False s d show ?thesis
      by (simp add: show_nat.simps [of n] int_magnitude_def)
  qed
qed

lemma strip_id: "(\<And>c. c \<in> set s \<Longrightarrow> \<not> is_ws c) \<Longrightarrow> strip s = s"
proof -
  assume *: "\<And>c. c \<in> set s \<Longrightarrow> \<not> is_ws c"
  have "dropWhile is_ws t = t" if "\<And>c. c \<in> set t \<Longrightarrow> \<not> is_ws c" for t
    using that by (cases t) auto
  from this [of s] this [of "rev s"] show ?thesis
    using * by (simp add: strip_def lstrip_ws_def)
qed

lemma minus_not_ws: "\<not> is_ws CHR ''-''"
  by (simp add: is_ws_def)

lemma show_int_no_ws: "c \<in> set (show_int i) \<Longrightarrow> \<not> is_ws c"
  using digit_not_ws [of c] show_nat_digits [of c]
  by (auto simp: show_int_def minus_not_ws split: if_splits)

lemma show_nat_hd: "show_nat n = c # cs \<Longrightarrow> c \<noteq> CHR ''-'' \<and> c \<noteq> CHR ''+''"
  using show_nat_digits [of c n] by (auto simp: is_digit_def digit_val_def)

lemma py_int_show_int [simp]: "py_int (show_int i) = Some i"
proof -
  have strip: "strip (show_int i) = show_int i"
    by (rule strip_id) (rule show_int_no_ws)
  show ?thesis
  proof (cases "i < 0")
    case True
    then show ?thesis
      unfolding py_int_def strip by (simp add: show_int_def int_magnitude_show_nat)
  next
    case False
    obtain c cs where s: "show_nat (nat i) = c # cs"
      by (cases "show_nat (nat i)") auto
    from False show ?thesis
      unfolding py_int_def strip using show_nat_hd [OF s] int_magnitude_show_nat [of "nat i"]
      by (simp add: show_int_def s)
  qed
qed

lemma show_int_not_Nil [simp]: "show_int i \<noteq> []"
  by (simp add: show_int_def)

lemma show_int_chars: "c \<in> set (show_int i) \<Longrightarrow> is_digit c \<or> c = CHR ''-''"
  by (auto simp: show_int_def show_nat_digits split: if_splits)


section \<open>Dictionaries\<close>

text \<open>
  \<open>d[k] = v\<close> keeps the position of an existing key and appends a new one; \<open>d.pop(k, None)\<close> and
  \<open>del d[k]\<close> remove it. Lookup is \<^const>\<open>map_of\<close>.
\<close>

fun dset :: "'k \<Rightarrow> 'v \<Rightarrow> ('k \<times> 'v) list \<Rightarrow> ('k \<times> 'v) list" where
  "dset k v [] = [(k, v)]"
| "dset k v ((k', v') # d) = (if k = k' then (k, v) # d else (k', v') # dset k v d)"

definition ddel :: "'k \<Rightarrow> ('k \<times> 'v) list \<Rightarrow> ('k \<times> 'v) list" where
  "ddel k d = filter (\<lambda>(k', _). k' \<noteq> k) d"

abbreviation has_key :: "'k \<Rightarrow> ('k \<times> 'v) list \<Rightarrow> bool" where
  "has_key k d \<equiv> map_of d k \<noteq> None"

text \<open>\<open>dict(pairs)\<close>: later pairs overwrite the value of earlier ones.\<close>

definition dict_of :: "('k \<times> 'v) list \<Rightarrow> ('k \<times> 'v) list" where
  "dict_of kvs = fold (\<lambda>(k, v) d. dset k v d) kvs []"

lemma map_of_dset [simp]: "map_of (dset k v d) = (map_of d)(k \<mapsto> v)"
  by (induction k v d rule: dset.induct) auto

lemma dset_fresh: "k \<notin> fst ` set d \<Longrightarrow> dset k v d = d @ [(k, v)]"
  by (induction k v d rule: dset.induct) auto

lemma keys_dset [simp]: "fst ` set (dset k v d) = insert k (fst ` set d)"
  by (induction k v d rule: dset.induct) auto

lemma distinct_dset [simp]: "distinct (map fst d) \<Longrightarrow> distinct (map fst (dset k v d))"
  by (induction k v d rule: dset.induct) auto

lemma map_of_ddel: "map_of (ddel k d) = (map_of d)(k := None)"
  by (induction d) (auto simp: ddel_def fun_eq_iff)

lemma distinct_ddel [simp]: "distinct (map fst d) \<Longrightarrow> distinct (map fst (ddel k d))"
  by (induction d) (auto simp: ddel_def)

lemma mem_has_key: "k \<in> fst ` set d \<Longrightarrow> has_key k d"
  by (simp only: map_of_eq_None_iff not_not)

lemma ddel_absent: "map_of d k = None \<Longrightarrow> ddel k d = d"
  by (induction d) (auto simp: ddel_def split: if_splits)

lemma fold_dset_distinct:
  "distinct (map fst (d @ kvs)) \<Longrightarrow> fold (\<lambda>(k, v) d. dset k v d) kvs d = d @ kvs"
proof (induction kvs arbitrary: d)
  case (Cons kv kvs)
  obtain k v where kv: "kv = (k, v)" by (cases kv)
  with Cons.prems have "k \<notin> fst ` set d" by auto
  with Cons.prems kv show ?case
    using Cons.IH [of "d @ [(k, v)]"] by (simp add: dset_fresh)
qed simp

lemma dict_of_distinct: "distinct (map fst kvs) \<Longrightarrow> dict_of kvs = kvs"
  by (simp add: dict_of_def fold_dset_distinct)

lemma map_of_dict_of: "map_of (dict_of kvs) k = map_of (rev kvs) k"
proof -
  have "map_of (fold (\<lambda>(k, v) d. dset k v d) kvs d) k =
        (case map_of (rev kvs) k of None \<Rightarrow> map_of d k | Some v \<Rightarrow> Some v)" for d
    by (induction kvs arbitrary: d) (auto simp: map_add_def split: option.splits prod.splits)
  from this [of "[]"] show ?thesis
    by (simp add: dict_of_def split: option.splits)
qed

lemma distinct_dict_of [simp]: "distinct (map fst (dict_of kvs))"
proof -
  have "distinct (map fst d) \<Longrightarrow> distinct (map fst (fold (\<lambda>(k, v) d. dset k v d) kvs d))" for d
    by (induction kvs arbitrary: d) auto
  then show ?thesis by (simp add: dict_of_def)
qed


section \<open>Operations on Python values\<close>

text \<open>\<open>repr\<close> of a string: single quotes unless only those occur inside, and escapes.\<close>

definition hex_digit :: "nat \<Rightarrow> char" where
  "hex_digit n = (if n < 10 then char_of (48 + n) else char_of (87 + n))"

definition repr_char :: "char \<Rightarrow> char \<Rightarrow> string" where
  "repr_char q c =
     (let n = of_char c :: nat in
      if c = q \<or> n = 92 then [char_of (92 :: nat), c]
      else if n = 10 then [char_of (92 :: nat), CHR ''n'']
      else if n = 13 then [char_of (92 :: nat), CHR ''r'']
      else if n = 9 then [char_of (92 :: nat), CHR ''t'']
      else if n < 32 \<or> n = 127 then [char_of (92 :: nat), CHR ''x'', hex_digit (n div 16), hex_digit (n mod 16)]
      else [c])"

definition repr_str :: "string \<Rightarrow> string" where
  "repr_str s =
     (let sq = char_of (39 :: nat); dq = char_of (34 :: nat);
          q = (if sq \<in> set s \<and> dq \<notin> set s then dq else sq)
      in q # concat (map (repr_char q) s) @ [q])"

fun py_repr :: "py_val \<Rightarrow> string" where
  "py_repr PyNone = ''None''"
| "py_repr (PyBool b) = (if b then ''True'' else ''False'')"
| "py_repr (PyInt i) = show_int i"
| "py_repr (PyFloat r) = r"
| "py_repr (PyStr s) = repr_str s"
| "py_repr (PyList xs) = ''['' @ join '', '' (map py_repr xs) @ '']''"
| "py_repr (PyTuple xs) =
     (case xs of [x] \<Rightarrow> ''('' @ py_repr x @ '',)'' | _ \<Rightarrow> ''('' @ join '', '' (map py_repr xs) @ '')'')"
| "py_repr (PySet xs) = (if xs = [] then ''frozenset()'' else ''frozenset({'' @ join '', '' (map py_repr xs) @ ''})'')"
| "py_repr (PyDict kvs) = ''{'' @ join '', '' (map (\<lambda>(k, v). py_repr k @ '': '' @ py_repr v) kvs) @ ''}''"

definition py_str :: "py_val \<Rightarrow> string" where
  "py_str v = (case v of PyStr s \<Rightarrow> s | _ \<Rightarrow> py_repr v)"

fun py_truthy :: "py_val \<Rightarrow> bool" where
  "py_truthy PyNone = False"
| "py_truthy (PyBool b) = b"
| "py_truthy (PyInt i) = (i \<noteq> 0)"
| "py_truthy (PyFloat r) = (r \<noteq> ''0.0'' \<and> r \<noteq> ''-0.0'')"
| "py_truthy (PyStr s) = (s \<noteq> [])"
| "py_truthy (PyList xs) = (xs \<noteq> [])"
| "py_truthy (PyTuple xs) = (xs \<noteq> [])"
| "py_truthy (PySet xs) = (xs \<noteq> [])"
| "py_truthy (PyDict kvs) = (kvs \<noteq> [])"

text \<open>\<open>a or b\<close>.\<close>

definition py_or :: "py_val \<Rightarrow> py_val \<Rightarrow> py_val" where
  "py_or a b = (if py_truthy a then a else b)"

fun type_name :: "py_val \<Rightarrow> string" where
  "type_name PyNone = ''NoneType''"
| "type_name (PyBool _) = ''bool''"
| "type_name (PyInt _) = ''int''"
| "type_name (PyFloat _) = ''float''"
| "type_name (PyStr _) = ''str''"
| "type_name (PyList _) = ''list''"
| "type_name (PyTuple _) = ''tuple''"
| "type_name (PySet _) = ''frozenset''"
| "type_name (PyDict _) = ''dict''"

text \<open>Lists, sets and dictionaries cannot be dictionary keys; a tuple can when its items can.\<close>

fun hashable :: "py_val \<Rightarrow> bool" where
  "hashable (PyList _) = False"
| "hashable (PyDict _) = False"
| "hashable (PyTuple xs) = (\<forall>x\<in>set xs. hashable x)"
| "hashable _ = True"

text \<open>
  \<open>==\<close> on scalars: booleans and integral floats compare as the number they stand for.
\<close>

definition py_num :: "py_val \<Rightarrow> int option" where
  "py_num v =
     (case v of
        PyBool b \<Rightarrow> Some (if b then 1 else 0)
      | PyInt i \<Rightarrow> Some i
      | PyFloat r \<Rightarrow> if rafter CHR ''.'' r = ''0'' then py_int (rbefore CHR ''.'' r) else None
      | _ \<Rightarrow> None)"

definition py_eq :: "py_val \<Rightarrow> py_val \<Rightarrow> bool" where
  "py_eq a b =
     (case (py_num a, py_num b) of (Some i, Some j) \<Rightarrow> i = j | _ \<Rightarrow> a = b)"

text \<open>A dictionary literal with string keys, and lookup of a string key.\<close>

definition mkdict :: "(string \<times> py_val) list \<Rightarrow> py_kvs" where
  "mkdict kvs = map (\<lambda>(k, v). (PyStr k, v)) kvs"

definition dget :: "string \<Rightarrow> py_kvs \<Rightarrow> py_val option" where
  "dget k d = map_of d (PyStr k)"

definition dget_or :: "string \<Rightarrow> py_val \<Rightarrow> py_kvs \<Rightarrow> py_val" where
  "dget_or k v d = (case dget k d of None \<Rightarrow> v | Some x \<Rightarrow> x)"

lemma dget_mkdict [simp]: "dget k (mkdict kvs) = map_of kvs k"
  by (induction kvs) (auto simp: dget_def mkdict_def)

lemma dget_dset [simp]: "dget k (dset (PyStr k') v d) = (if k = k' then Some v else dget k d)"
  by (simp add: dget_def)

lemma dget_Nil [simp]: "dget k [] = None"
  by (simp add: dget_def)

lemma dget_Cons [simp]: "dget k ((k', v) # d) = (if k' = PyStr k then Some v else dget k d)"
  by (auto simp: dget_def)

text \<open>Exceptions raised by attribute access and subscription on a value of the wrong kind.\<close>

definition attr_error :: "py_val \<Rightarrow> string \<Rightarrow> py_exc" where
  "attr_error v a =
     Exc ''AttributeError'' (repr_str (type_name v) @ '' object has no attribute '' @ repr_str a)"

definition type_error :: "string \<Rightarrow> py_exc" where
  "type_error m = Exc ''TypeError'' m"

definition value_error :: "string \<Rightarrow> py_exc" where
  "value_error m = Exc ''ValueError'' m"

definition key_error :: "string \<Rightarrow> py_exc" where
  "key_error k = Exc ''KeyError'' (repr_str k)"

text \<open>\<open>v.get(k, default)\<close> on a value that should be a dictionary.\<close>

definition py_get :: "py_val \<Rightarrow> string \<Rightarrow> py_val \<Rightarrow> py_val res" where
  "py_get v k dflt = (case v of PyDict kvs \<Rightarrow> Inr (dget_or k dflt kvs) | _ \<Rightarrow> Inl (attr_error v ''get''))"

text \<open>\<open>v[k]\<close> with a string key.\<close>

definition py_index :: "py_val \<Rightarrow> string \<Rightarrow> py_val res" where
  "py_index v k =
     (case v of
        PyDict kvs \<Rightarrow> (case dget k kvs of Some x \<Rightarrow> Inr x | None \<Rightarrow> Inl (key_error k))
      | PyStr _ \<Rightarrow> Inl (type_error (''string indices must be integers, not '' @ repr_str ''str''))
      | PyList _ \<Rightarrow> Inl (type_error ''list indices must be integers or slices, not str'')
      | PyTuple _ \<Rightarrow> Inl (type_error ''tuple indices must be integers or slices, not str'')
      | _ \<Rightarrow> Inl (type_error (repr_str (type_name v) @ '' object is not subscriptable'')))"

text \<open>\<open>x in v\<close>.\<close>

definition py_in :: "py_val \<Rightarrow> py_val \<Rightarrow> bool res" where
  "py_in x v =
     (case v of
        PyDict kvs \<Rightarrow>
          if hashable x then Inr (has_key x kvs)
          else Inl (type_error (''unhashable type: '' @ repr_str (type_name x)))
      | PyList xs \<Rightarrow> Inr (x \<in> set xs)
      | PyTuple xs \<Rightarrow> Inr (x \<in> set xs)
      | PySet xs \<Rightarrow> Inr (x \<in> set xs)
      | PyStr s \<Rightarrow> (case x of PyStr p \<Rightarrow> Inr (contains s p)
          | _ \<Rightarrow> Inl (type_error (repr_str ''in <string>'' @ '' requires string as left operand, not '' @ type_name x)))
      | _ \<Rightarrow> Inl (type_error (''argument of type '' @ repr_str (type_name v) @ '' is not iterable'')))"

text \<open>Iteration over a value: \<open>for x in v\<close>, \<open>list(v)\<close>.\<close>

definition py_iter :: "py_val \<Rightarrow> py_val list res" where
  "py_iter v =
     (case v of
        PyList xs \<Rightarrow> Inr xs
      | PyTuple xs \<Rightarrow> Inr xs
      | PySet xs \<Rightarrow> Inr xs
      | PyStr s \<Rightarrow> Inr (map (\<lambda>c. PyStr [c]) s)
      | PyDict kvs \<Rightarrow> Inr (map fst kvs)
      | _ \<Rightarrow> Inl (type_error (repr_str (type_name v) @ '' object is not iterable'')))"

text \<open>\<open>dict(v)\<close>: a dictionary is copied, any other iterable must yield pairs with hashable keys.\<close>

fun dict_pairs :: "nat \<Rightarrow> py_val list \<Rightarrow> py_kvs \<Rightarrow> py_kvs res" where
  "dict_pairs n [] d = Inr d"
| "dict_pairs n (x # xs) d =
     (case py_iter x of
        Inl _ \<Rightarrow> Inl (type_error
          (''cannot convert dictionary update sequence element #'' @ show_nat n @ '' to a sequence''))
      | Inr [k, v] \<Rightarrow>
          if hashable k then dict_pairs (Suc n) xs (dset k v d)
          else Inl (type_error (''unhashable type: '' @ repr_str (type_name k)))
      | Inr ys \<Rightarrow> Inl (value_error
          (''dictionary update sequence element #'' @ show_nat n @ '' has length ''
            @ show_nat (length ys) @ ''; 2 is required'')))"

definition py_dict :: "py_val \<Rightarrow> py_kvs res" where
  "py_dict v =
     (case v of PyDict kvs \<Rightarrow> Inr kvs | _ \<Rightarrow> rbind (py_iter v) (\<lambda>xs. dict_pairs 0 xs []))"

lemma py_dict_PyDict [simp]: "py_dict (PyDict kvs) = Inr kvs"
  by (simp add: py_dict_def)

lemma py_iter_simps [simp]:
  "py_iter (PyList xs) = Inr xs" "py_iter (PyTuple xs) = Inr xs" "py_iter (PySet xs) = Inr xs"
  "py_iter (PyDict kvs) = Inr (map fst kvs)"
  by (simp_all add: py_iter_def)

lemma py_get_simps [simp]: "py_get (PyDict kvs) k v = Inr (dget_or k v kvs)"
  by (simp add: py_get_def)

lemma py_get_ok: "py_get v k x = Inr y \<longleftrightarrow> (\<exists>kvs. v = PyDict kvs \<and> y = dget_or k x kvs)"
  by (cases v) (auto simp: py_get_def)

lemma py_index_ok: "py_index v k = Inr y \<longleftrightarrow> (\<exists>kvs. v = PyDict kvs \<and> dget k kvs = Some y)"
  by (cases v) (auto simp: py_index_def split: option.splits)

lemma py_str_PyStr [simp]: "py_str (PyStr s) = s"
  by (simp add: py_str_def)

lemma py_or_simps [simp]: "py_truthy a \<Longrightarrow> py_or a b = a" "\<not> py_truthy a \<Longrightarrow> py_or a b = b"
  by (simp_all add: py_or_def)

lemma mkdict_simps [simp]: "mkdict [] = []" "mkdict ((k, v) # kvs) = (PyStr k, v) # mkdict kvs"
  by (simp_all add: mkdict_def)

subsection \<open>Documents and their texts\<close>

text \<open>
  The serialisers (YAML and JSON) are parameters of the components that use them. This encoding of
  documents as texts, by a numbering of all values, is the concrete pair of functions on which the
  hypotheses about them are shown to hold.
\<close>

instance py_val :: countable
  by countable_datatype

definition encode_val :: "py_val \<Rightarrow> string" where
  "encode_val v = show_nat (to_nat v)"

definition decode_val :: "string \<Rightarrow> py_val" where
  "decode_val t = from_nat (the (int_magnitude t))"

lemma decode_encode_val [simp]: "decode_val (encode_val v) = v"
  by (simp add: decode_val_def encode_val_def int_magnitude_show_nat)

text \<open>
  The documents that both formats carry faithfully: no floats, no tuples or sets, and dictionaries
  with string keys. \<open>sort_doc\<close> sorts every dictionary by key, as \<open>safe_dump(sort_keys=True)\<close> does.
\<close>

fun plain_doc :: "py_val \<Rightarrow> bool" where
  "plain_doc (PyFloat _) = False"
| "plain_doc (PyTuple _) = False"
| "plain_doc (PySet _) = False"
| "plain_doc (PyList xs) = (\<forall>x\<in>set xs. plain_doc x)"
| "plain_doc (PyDict kvs) =
     (distinct (map fst kvs) \<and> (\<forall>kv\<in>set kvs. (\<exists>s. fst kv = PyStr s) \<and> plain_doc (snd kv)))"
| "plain_doc _ = True"

definition key_str :: "py_val \<Rightarrow> string" where
  "key_str k = (case k of PyStr s \<Rightarrow> s | _ \<Rightarrow> [])"

fun sort_doc :: "py_val \<Rightarrow> py_val" where
  "sort_doc (PyList xs) = PyList (map sort_doc xs)"
| "sort_doc (PyDict kvs) = PyDict (sort_key (\<lambda>kv. key_str (fst kv)) (map (\<lambda>kv. (fst kv, sort_doc (snd kv))) kvs))"
| "sort_doc v = v"

definition sort_kvs :: "py_kvs \<Rightarrow> py_kvs" where
  "sort_kvs kvs = sort_key (\<lambda>kv. key_str (fst kv)) (map (\<lambda>kv. (fst kv, sort_doc (snd kv))) kvs)"

lemma sort_doc_PyDict [simp]: "sort_doc (PyDict kvs) = PyDict (sort_kvs kvs)"
  by (simp add: sort_kvs_def)

declare sort_doc.simps(2) [simp del]

lemma sort_doc_truthy [simp]: "py_truthy (sort_doc v) = py_truthy v"
proof (cases v)
  case (PyDict kvs)
  have "sort_kvs kvs = [] \<longleftrightarrow> kvs = []"
    by (metis length_0_conv length_map length_sort sort_kvs_def)
  with PyDict show ?thesis by simp
qed simp_all

lemma sort_doc_or: "sort_doc (py_or a b) = py_or (sort_doc a) (sort_doc b)"
  by (simp add: py_or_def)

lemma distinct_sort_kvs: "distinct (map fst kvs) \<Longrightarrow> distinct (map fst (sort_kvs kvs))"
proof -
  assume *: "distinct (map fst kvs)"
  define kvs' where "kvs' = map (\<lambda>kv. (fst kv, sort_doc (snd kv))) kvs"
  have "distinct (map fst kvs')" using * by (simp add: kvs'_def o_def)
  moreover have "set (sort_kvs kvs) = set kvs'" "sort_kvs kvs = sort_key (\<lambda>kv. key_str (fst kv)) kvs'"
    by (simp_all add: sort_kvs_def kvs'_def)
  ultimately show ?thesis by (simp add: distinct_map)
qed

lemma map_of_sort_kvs:
  assumes "distinct (map fst kvs)"
  shows "map_of (sort_kvs kvs) k = map_option sort_doc (map_of kvs k)"
proof -
  define kvs' where "kvs' = map (\<lambda>kv. (fst kv, sort_doc (snd kv))) kvs"
  have "map fst kvs' = map fst kvs" by (simp add: kvs'_def)
  moreover have "set (sort_kvs kvs) = set kvs'"
    by (simp add: sort_kvs_def kvs'_def)
  ultimately have "map_of (sort_kvs kvs) = map_of kvs'"
    using assms distinct_sort_kvs [OF assms] by (simp add: map_of_inject_set)
  moreover have "map_of kvs' k = map_option sort_doc (map_of kvs k)"
    unfolding kvs'_def by (induction kvs) auto
  ultimately show ?thesis by simp
qed

lemma dget_sort_kvs: "distinct (map fst kvs) \<Longrightarrow> dget k (sort_kvs kvs) = map_option sort_doc (dget k kvs)"
  by (simp add: dget_def map_of_sort_kvs)

lemma keys_sort_kvs: "fst ` set (sort_kvs kvs) = fst ` set kvs"
  by (simp add: sort_kvs_def image_image)

lemmas [py_simps] = dget_or_def py_get_def py_index_def startswith_def


section \<open>Shared contracts\<close>

text \<open>
  A keyed table that refuses to overwrite: the contract of the handler, state-model and adapter
  registries. \<open>reg\<close> raises exactly when the key is taken and otherwise adds one entry.
\<close>

locale write_once_table =
  fixes lkp :: "'t \<Rightarrow> 'k \<Rightarrow> 'e option"
    and reg :: "'k \<Rightarrow> 'e \<Rightarrow> 't \<Rightarrow> 't res"
  assumes reg_fresh: "lkp t k = None \<Longrightarrow> \<exists>t'. reg k e t = Inr t' \<and> lkp t' = (lkp t)(k \<mapsto> e)"
    and reg_taken: "lkp t k \<noteq> None \<Longrightarrow> \<not> is_ok (reg k e t)"
begin

text \<open>Registrations made one after another, as the decorators of a module run on import.\<close>

definition reg_all :: "('k \<times> 'e) list \<Rightarrow> 't \<Rightarrow> 't res" where
  "reg_all kes t = foldl (\<lambda>r (k, e). rbind r (reg k e)) (Inr t) kes"

lemma reg_ok_iff: "is_ok (reg k e t) \<longleftrightarrow> lkp t k = None"
  using reg_fresh [of t k e] reg_taken [of t k e] by (cases "lkp t k") auto

lemma reg_lookup: "reg k e t = Inr t' \<Longrightarrow> lkp t' = (lkp t)(k \<mapsto> e)"
  using reg_fresh [of t k e] reg_taken [of t k e] by (cases "lkp t k") auto

lemma reg_keeps: "reg k e t = Inr t' \<Longrightarrow> lkp t k' = Some e' \<Longrightarrow> lkp t' k' = Some e'"
  using reg_lookup [of k e t t'] reg_ok_iff [of k e t] by auto

lemma foldl_reg_Inl: "foldl (\<lambda>r (k, e). rbind r (reg k e)) (Inl x) kes = Inl x"
  by (induction kes) auto

lemma reg_all_Cons: "reg_all ((k, e) # kes) t = rbind (reg k e t) (reg_all kes)"
  by (cases "reg k e t") (simp_all add: reg_all_def foldl_reg_Inl)

lemma reg_all_Nil: "reg_all [] t = Inr t"
  by (simp add: reg_all_def)

lemma reg_all_ok_iff:
  "is_ok (reg_all kes t) \<longleftrightarrow> distinct (map fst kes) \<and> (\<forall>k\<in>fst ` set kes. lkp t k = None)"
proof (induction kes arbitrary: t)
  case (Cons ke kes)
  obtain k e where ke: "ke = (k, e)" by (cases ke)
  show ?case
  proof (cases "lkp t k")
    case None
    with reg_fresh [of t k e] obtain t' where "reg k e t = Inr t'" "lkp t' = (lkp t)(k \<mapsto> e)"
      by blast
    with ke None Cons.IH [of t'] show ?thesis
      by (auto simp: reg_all_Cons split: if_splits)
  next
    case (Some e')
    with reg_taken [of t k e] have "\<not> is_ok (reg k e t)" by simp
    with Some ke show ?thesis by (cases "reg k e t") (auto simp: reg_all_Cons)
  qed
qed (simp add: reg_all_Nil)

lemma reg_all_lookup: "reg_all kes t = Inr t' \<Longrightarrow> lkp t' = lkp t ++ map_of kes"
proof (induction kes arbitrary: t)
  case (Cons ke kes)
  obtain k e where ke: "ke = (k, e)" by (cases ke)
  with Cons.prems obtain u where u: "reg k e t = Inr u" "reg_all kes u = Inr t'"
    by (auto simp: reg_all_Cons rbind_Inr_iff)
  from u(2) have "is_ok (reg_all kes u)" by simp
  then have "\<forall>k'\<in>fst ` set kes. lkp u k' = None"
    by (simp add: reg_all_ok_iff)
  then have "map_of kes k = None"
    using reg_lookup [OF u(1)] by (auto simp: map_of_eq_None_iff)
  moreover have "lkp t' = lkp u ++ map_of kes"
    using u(2) by (rule Cons.IH)
  ultimately show ?case
    using reg_lookup [OF u(1)] ke by (auto simp: fun_eq_iff map_add_def split: option.splits)
qed (simp add: reg_all_Nil)

end

text \<open>
  A log that keeps the most recent \<open>cap\<close> entries, dropping the oldest: the contract of the
  pending-push buffer of the channel client and of the de-duplication window of a thread.
\<close>

definition last_n :: "nat \<Rightarrow> 'a list \<Rightarrow> 'a list" where
  "last_n n xs = drop (length xs - n) xs"

lemma length_last_n [simp]: "length (last_n n xs) = min n (length xs)"
  by (simp add: last_n_def)

lemma last_n_snoc: "last_n n (last_n n xs @ ys) = last_n n (xs @ ys)"
proof (cases "length xs \<le> n")
  case False
  then have "length xs + length ys - n = length ys + (length xs - n)" by simp
  with False show ?thesis by (simp add: last_n_def add.commute)
qed (simp add: last_n_def)

lemma last_n_all: "length xs \<le> n \<Longrightarrow> last_n n xs = xs"
  by (simp add: last_n_def)

lemma set_last_n: "set (last_n n xs) \<subseteq> set xs"
  by (simp add: last_n_def set_drop_subset)

locale bounded_log =
  fixes entries :: "'s \<Rightarrow> 'a list"
    and add :: "'a \<Rightarrow> 's \<Rightarrow> 's"
    and skip :: "'s \<Rightarrow> 'a \<Rightarrow> bool"
    and invar :: "'s \<Rightarrow> bool"
    and cap :: nat
  assumes entries_add:
      "invar s \<Longrightarrow> entries (add x s) = (if skip s x then entries s else last_n cap (entries s @ [x]))"
    and invar_add: "invar s \<Longrightarrow> invar (add x s)"
    and invar_len: "invar s \<Longrightarrow> length (entries s) \<le> cap"
begin

text \<open>The entries that were not skipped.\<close>

primrec accepted :: "'a list \<Rightarrow> 's \<Rightarrow> 'a list" where
  "accepted [] s = []"
| "accepted (x # xs) s = (if skip s x then [] else [x]) @ accepted xs (add x s)"

lemma fold_add_invar: "invar s \<Longrightarrow> invar (fold add xs s)"
  by (induction xs arbitrary: s) (auto simp: invar_add)

lemma fold_add_entries:
  "invar s \<Longrightarrow> entries (fold add xs s) = last_n cap (entries s @ accepted xs s)"
proof (induction xs arbitrary: s)
  case Nil
  then show ?case by (simp add: last_n_all invar_len)
next
  case (Cons x xs)
  then have "entries (fold add xs (add x s)) = last_n cap (entries (add x s) @ accepted xs (add x s))"
    by (simp add: invar_add)
  with Cons.prems show ?case by (simp add: entries_add last_n_snoc)
qed

lemma fold_add_bound: "invar s \<Longrightarrow> length (entries (fold add xs s)) \<le> cap"
  using fold_add_invar invar_len by blast

lemma fold_add_lossless:
  "invar s \<Longrightarrow> length (entries s) + length (accepted xs s) \<le> cap \<Longrightarrow>
   entries (fold add xs s) = entries s @ accepted xs s"
  by (simp add: fold_add_entries last_n_all)

end

text \<open>
  A component that reacts to inputs with outputs, purely: the contract of the message handlers. \<open>inv\<close>
  is the state invariant, and \<open>good s e a\<close> what an output \<open>a\<close> in answer to \<open>e\<close> may be when \<open>s\<close> is the
  state afterwards.
\<close>

locale reactive =
  fixes step :: "'s \<Rightarrow> 'e \<Rightarrow> 's \<times> 'a list"
    and inv :: "'s \<Rightarrow> bool"
    and good :: "'s \<Rightarrow> 'e \<Rightarrow> 'a \<Rightarrow> bool"
  assumes step_inv: "inv s \<Longrightarrow> inv (fst (step s e))"
    and step_good: "inv s \<Longrightarrow> a \<in> set (snd (step s e)) \<Longrightarrow> good (fst (step s e)) e a"
begin

text \<open>A run: each input with the state after it and the outputs it caused.\<close>

primrec run :: "'s \<Rightarrow> 'e list \<Rightarrow> ('e \<times> 's \<times> 'a list) list" where
  "run s [] = []"
| "run s (e # es) = (e, step s e) # run (fst (step s e)) es"

definition state_after :: "'s \<Rightarrow> 'e list \<Rightarrow> 's" where
  "state_after s es = foldl (\<lambda>s e. fst (step s e)) s es"

lemma run_inv: "inv s \<Longrightarrow> (e, s', as) \<in> set (run s es) \<Longrightarrow> inv s'"
proof (induction es arbitrary: s)
  case (Cons x es)
  obtain s1 as1 where "step s x = (s1, as1)" by (cases "step s x")
  with Cons step_inv [of s x] show ?case by auto
qed simp

lemma run_good: "inv s \<Longrightarrow> (e, s', as) \<in> set (run s es) \<Longrightarrow> a \<in> set as \<Longrightarrow> good s' e a"
proof (induction es arbitrary: s)
  case (Cons x es)
  obtain s1 as1 where "step s x = (s1, as1)" by (cases "step s x")
  with Cons step_good [of s a x] step_inv [of s x] show ?case by auto
qed simp

lemma state_after_inv: "inv s \<Longrightarrow> inv (state_after s es)"
  unfolding state_after_def by (induction es arbitrary: s) (auto simp: step_inv)

end

text \<open>
  Requests that wait for a reply under a correlation key: the contract of the reply tables of the two
  Phoenix clients. \<open>issue\<close> registers a waiter under a fresh key; \<open>settle\<close> removes and returns the
  waiter of a key, if there is one.
\<close>

locale reply_table =
  fixes pend :: "'s \<Rightarrow> 'k \<Rightarrow> 'w option"
    and issue :: "'w \<Rightarrow> 's \<Rightarrow> 'k \<times> 's"
    and settle :: "'k \<Rightarrow> 's \<Rightarrow> 'w option \<times> 's"
    and inv :: "'s \<Rightarrow> bool"
  assumes issue: "inv s \<Longrightarrow> issue w s = (k, s') \<Longrightarrow> pend s k = None \<and> pend s' = (pend s)(k \<mapsto> w) \<and> inv s'"
    and settle: "inv s \<Longrightarrow> settle k s = (r, s') \<Longrightarrow> r = pend s k \<and> pend s' = (pend s)(k := None) \<and> inv s'"
begin

text \<open>Requests issued one after another, with the keys they got.\<close>

primrec issue_all :: "'w list \<Rightarrow> 's \<Rightarrow> 'k list \<times> 's" where
  "issue_all [] s = ([], s)"
| "issue_all (w # ws) s = (let (k, s') = issue w s; (ks, s'') = issue_all ws s' in (k # ks, s''))"

lemma issue_all_keys:
  assumes "inv s" "issue_all ws s = (ks, s')"
  shows "inv s' \<and> length ks = length ws \<and> distinct ks \<and> (\<forall>k\<in>set ks. pend s k = None) \<and>
    pend s' = pend s ++ map_of (zip ks ws)"
  using assms
proof (induction ws arbitrary: s ks)
  case (Cons w ws)
  obtain k s1 where i: "issue w s = (k, s1)" by fastforce
  obtain ks1 where ks: "issue_all ws s1 = (ks1, s')" "ks = k # ks1"
    using Cons.prems(2) i by (auto split: prod.splits)
  note f = issue [OF Cons.prems(1) i]
  have IH: "inv s' \<and> length ks1 = length ws \<and> distinct ks1 \<and> (\<forall>k\<in>set ks1. pend s1 k = None) \<and>
    pend s' = pend s1 ++ map_of (zip ks1 ws)"
    using Cons.IH [OF _ ks(1)] f by blast
  then have "k \<notin> set ks1" using f by auto
  then have k: "k \<notin> set ks1" "map_of (zip ks1 ws) k = None"
    using IH by (simp_all add: map_of_zip_is_None)
  then have "pend s' = pend s ++ map_of (zip ks (w # ws))"
    using IH f by (simp add: ks(2) map_add_upd_left domIff)
  with IH f k show ?case by (fastforce simp: ks(2) split: if_splits)
qed simp

text \<open>Replies in any order reach the request they answer, and a second reply to a key finds nobody.\<close>

lemma settle_answers:
  assumes "inv s" "issue_all ws s = (ks, s')" "i < length ws"
  shows "fst (settle (ks ! i) s') = Some (ws ! i)"
    and "fst (settle (ks ! i) (snd (settle (ks ! i) s'))) = None"
proof -
  note f = issue_all_keys [OF assms(1,2)]
  have "map_of (zip ks ws) (ks ! i) = Some (ws ! i)"
    using f assms(3) by (simp add: map_of_zip_nth)
  then have p: "pend s' (ks ! i) = Some (ws ! i)" using f by (simp add: map_add_def)
  obtain r t where st: "settle (ks ! i) s' = (r, t)" by fastforce
  note g = settle [OF _ st]
  show "fst (settle (ks ! i) s') = Some (ws ! i)" using g f p st by simp
  obtain r' t' where st': "settle (ks ! i) t = (r', t')" by fastforce
  from settle [OF _ st'] g f st st' show "fst (settle (ks ! i) (snd (settle (ks ! i) s'))) = None" by simp
qed

lemma settle_others: "inv s \<Longrightarrow> k' \<noteq> k \<Longrightarrow> pend (snd (settle k s)) k' = pend s k'"
  using settle [of s k "fst (settle k s)" "snd (settle k s)"] by simp

end

text \<open>
  A wire format: what \<open>enc\<close> writes, \<open>dec\<close> reads back. The contract of the action, event and frame
  formats and of the resource URIs.
\<close>

locale codec =
  fixes enc :: "'a \<Rightarrow> 'b"
    and dec :: "'b \<Rightarrow> 'a res"
    and ok :: "'a \<Rightarrow> bool"
  assumes dec_enc: "ok x \<Longrightarrow> dec (enc x) = Inr x"
begin

lemma enc_inj: "inj_on enc {x. ok x}"
  by (rule inj_onI) (metis dec_enc mem_Collect_eq sum.inject(2))

lemma dec_all: "list_all ok xs \<Longrightarrow> mapM dec (map enc xs) = Inr xs"
  by (induction xs) (simp_all add: dec_enc)

end

end
