(* ===== verification/Uri.thy ===== *)
theory Uri
  imports ESR_Prelude "HOL-Library.Product_Lexorder"
begin

text \<open>
  \<^verbatim>\<open>py/src/esr/uri.py\<close>: the strict parser and the builders of \<open>esr://\<close> URIs, and the resource URIs
  of the multimedia protocol. The query string uses \<open>urllib.parse.urlencode\<close> and \<open>parse_qsl\<close>,
  which are modelled here character by character.
\<close>

section \<open>URI types and the parsed form\<close>

definition legacy_types :: "string list" where
  "legacy_types = [''adapter'', ''actor'', ''command'']"

definition path_style_types :: "string list" where
  "path_style_types = [''adapters'', ''workspaces'', ''chats'', ''users'', ''sessions'', ''resources'']"

definition valid_types :: "string list" where
  "valid_types = legacy_types @ path_style_types"

record esr_uri =
  uri_org :: "string option"
  uri_host :: string
  uri_port :: "int option"
  uri_type :: string
  uri_id :: string
  uri_segments :: "string list"
  uri_params :: "(string \<times> string) list"

text \<open>\<open>__eq__\<close> compares the parameter dictionaries as mappings; \<open>__hash__\<close> hashes this tuple.\<close>

definition uri_eq :: "esr_uri \<Rightarrow> esr_uri \<Rightarrow> bool" where
  "uri_eq a b =
     (uri_org a = uri_org b \<and> uri_host a = uri_host b \<and> uri_port a = uri_port b \<and>
      uri_type a = uri_type b \<and> uri_id a = uri_id b \<and> uri_segments a = uri_segments b \<and>
      (\<forall>k\<in>set (map fst (uri_params a) @ map fst (uri_params b)).
         map_of (uri_params a) k = map_of (uri_params b) k))"

definition uri_hash_key ::
  "esr_uri \<Rightarrow> string option \<times> string \<times> int option \<times> string \<times> string \<times> string list \<times> (string \<times> string) list"
where
  "uri_hash_key u =
     (uri_org u, uri_host u, uri_port u, uri_type u, uri_id u, uri_segments u, sort (uri_params u))"


section \<open>Query strings\<close>

definition url_unreserved :: "char \<Rightarrow> bool" where
  "url_unreserved c =
     (let n = of_char c :: nat in
      (48 \<le> n \<and> n \<le> 57) \<or> (65 \<le> n \<and> n \<le> 90) \<or> (97 \<le> n \<and> n \<le> 122) \<or>
      n = 95 \<or> n = 46 \<or> n = 45 \<or> n = 126)"

definition hex_upper :: "nat \<Rightarrow> char" where
  "hex_upper n = (if n < 10 then char_of (48 + n) else char_of (55 + n))"

definition hex_val :: "char \<Rightarrow> nat option" where
  "hex_val c =
     (let n = of_char c :: nat in
      if 48 \<le> n \<and> n \<le> 57 then Some (n - 48)
      else if 65 \<le> n \<and> n \<le> 70 then Some (n - 55)
      else if 97 \<le> n \<and> n \<le> 102 then Some (n - 87)
      else None)"

definition quote_char :: "char \<Rightarrow> string" where
  "quote_char c =
     (let n = of_char c :: nat in
      if url_unreserved c then [c]
      else if c = CHR '' '' then ''+''
      else [CHR ''%'', hex_upper (n div 16), hex_upper (n mod 16)])"

definition quote_plus :: "string \<Rightarrow> string" where
  "quote_plus s = concat (map quote_char s)"

fun unquote :: "string \<Rightarrow> string" where
  "unquote (c # a # b # s) =
     (case (hex_val a, hex_val b) of
        (Some x, Some y) \<Rightarrow>
          if c = CHR ''%'' then char_of (16 * x + y) # unquote s else c # unquote (a # b # s)
      | _ \<Rightarrow> c # unquote (a # b # s))"
| "unquote s = s"

definition unquote_plus :: "string \<Rightarrow> string" where
  "unquote_plus s = unquote (map (\<lambda>c. if c = CHR ''+'' then CHR '' '' else c) s)"

definition urlencode :: "(string \<times> py_val) list \<Rightarrow> string" where
  "urlencode kvs = join ''&'' (map (\<lambda>(k, v). quote_plus k @ ''='' @ quote_plus (py_str v)) kvs)"

text \<open>\<open>parse_qsl(query, keep_blank_values=True)\<close>.\<close>

definition parse_qsl :: "string \<Rightarrow> (string \<times> string) list" where
  "parse_qsl q =
     map (\<lambda>nv. (unquote_plus (before CHR ''='' nv), unquote_plus (after CHR ''='' nv)))
       (filter (\<lambda>nv. nv \<noteq> []) (split_on CHR ''&'' q))"


section \<open>Parsing\<close>

text \<open>\<open>authority = [org@]host[:port]\<close>; \<open>s\<close> is the whole input, quoted in messages.\<close>

definition parse_authority :: "string \<Rightarrow> string \<Rightarrow> (string option \<times> string \<times> int option) res" where
  "parse_authority s authority =
     (let has_org = (CHR ''@'' \<in> set authority);
          org = (if has_org then Some (before CHR ''@'' authority) else None);
          rest = (if has_org then after CHR ''@'' authority else authority);
          host_str = before CHR '':'' rest;
          port_str = after CHR '':'' rest
      in if org = Some [] then Inl (value_error (''empty org in '' @ repr_str s))
         else if host_str = [] then Inl (value_error (''empty host in '' @ repr_str s))
         else if port_str = [] then Inr (org, host_str, None)
         else (case py_int port_str of
                 None \<Rightarrow> Inl (value_error
                   (''invalid port '' @ repr_str port_str @ '' in '' @ repr_str s))
               | Some p \<Rightarrow> Inr (org, host_str, Some p)))"

definition bad_path :: "string \<Rightarrow> py_exc" where
  "bad_path s = value_error (''bad path in '' @ repr_str s @ '': at least <type>/<id> required'')"

text \<open>The path: type, id and the non-empty segments.\<close>

definition parse_path :: "string \<Rightarrow> string \<Rightarrow> (string \<times> string \<times> string list) res" where
  "parse_path s raw_path =
     (let raw_segments = split_on CHR ''/'' raw_path;
          has_trailing_empty = (last raw_segments = [] \<and> 1 < length raw_segments);
          path_parts = filter (\<lambda>p. p \<noteq> []) raw_segments
      in if length path_parts < 2 \<and> \<not> has_trailing_empty then Inl (bad_path s)
         else (case path_parts of
                 [] \<Rightarrow> Inl (bad_path s)
               | ty # _ \<Rightarrow>
                   if ty \<notin> set valid_types then
                     Inl (value_error (''unknown type '' @ repr_str ty @ ''; expected one of ''
                       @ py_repr (PyList (map PyStr (sort valid_types)))))
                   else if ty \<in> set legacy_types then
                     (if length path_parts = 1 \<and> has_trailing_empty then
                        Inl (value_error (''missing id in '' @ repr_str s))
                      else if length path_parts \<noteq> 2 then
                        Inl (value_error (''bad path in '' @ repr_str s @ '': legacy type ''
                          @ repr_str ty @ '' requires exactly <type>/<id> (no slashes in id)''))
                      else Inr (ty, path_parts ! 1, path_parts))
                   else if length path_parts < 2 then
                     Inl (value_error (''missing id in '' @ repr_str s))
                   else Inr (ty, last path_parts, path_parts)))"

definition split_query :: "string \<Rightarrow> string \<times> string" where
  "split_query rest =
     (if CHR ''?'' \<in> set rest then (before CHR ''?'' rest, after CHR ''?'' rest) else (rest, []))"

definition parse :: "string \<Rightarrow> esr_uri res" where
  "parse s =
     (if \<not> startswith s ''esr://'' then
        Inl (value_error (''expected esr:// scheme; got '' @ repr_str s))
      else
        (case split_query (drop (length ''esr://'') s) of (path_and_query, query) \<Rightarrow>
           let authority = before CHR ''/'' path_and_query;
               raw_path = after CHR ''/'' path_and_query
           in if raw_path = [] \<and> CHR ''/'' \<notin> set path_and_query then
                Inl (value_error (''missing path in '' @ repr_str s))
              else
                rbind (parse_authority s authority) (\<lambda>(org, host, port).
                rbind (parse_path s raw_path) (\<lambda>(ty, ident, segs).
                  if ident = [] then Inl (value_error (''missing id in '' @ repr_str s))
                  else Inr \<lparr>uri_org = org, uri_host = host, uri_port = port, uri_type = ty,
                            uri_id = ident, uri_segments = segs,
                            uri_params = dict_of (parse_qsl query)\<rparr>))))"


section \<open>Building\<close>

definition mk_authority :: "string \<Rightarrow> int option \<Rightarrow> string option \<Rightarrow> string" where
  "mk_authority host port org =
     (let a = (case port of None \<Rightarrow> host | Some p \<Rightarrow> host @ '':'' @ show_int p)
      in (case org of Some (c # cs) \<Rightarrow> (c # cs) @ ''@'' @ a | _ \<Rightarrow> a))"

definition with_query :: "string \<Rightarrow> (string \<times> py_val) list \<Rightarrow> string" where
  "with_query s params = (if params = [] then s else s @ ''?'' @ urlencode params)"

definition build ::
  "string \<Rightarrow> string \<Rightarrow> string \<Rightarrow> int option \<Rightarrow> string option \<Rightarrow> (string \<times> py_val) list \<Rightarrow> string res"
where
  "build ty ident host port org params =
     (if ty \<notin> set valid_types then Inl (value_error (''unknown type '' @ repr_str ty))
      else if host = [] then Inl (value_error ''empty host'')
      else if ident = [] then Inl (value_error ''empty id'')
      else Inr (with_query (''esr://'' @ mk_authority host port org @ ''/'' @ ty @ ''/'' @ ident) params))"

fun first_empty :: "nat \<Rightarrow> string list \<Rightarrow> nat option" where
  "first_empty i [] = None"
| "first_empty i (x # xs) = (if x = [] then Some i else first_empty (Suc i) xs)"

definition build_path ::
  "string list \<Rightarrow> string \<Rightarrow> int option \<Rightarrow> string option \<Rightarrow> string option \<Rightarrow> (string \<times> py_val) list \<Rightarrow> string res"
where
  "build_path segments host port org env params =
     (if length segments < 2 then
        Inl (value_error (''path-style URI requires at least 2 segments; got ''
          @ py_repr (PyList (map PyStr segments))))
      else if hd segments \<notin> set path_style_types then
        Inl (value_error (''first segment '' @ repr_str (hd segments)
          @ '' is not a path-style type (expected one of ''
          @ py_repr (PyList (map PyStr (sort path_style_types))) @ '')''))
      else if host = [] then Inl (value_error ''empty host'')
      else (case first_empty 0 segments of
              Some i \<Rightarrow> Inl (value_error (''empty segment at index '' @ show_nat i @ '' in ''
                @ py_repr (PyList (map PyStr segments))))
            | None \<Rightarrow>
                let org_arg = (case env of Some (c # cs) \<Rightarrow> Some (c # cs) | _ \<Rightarrow> org)
                in Inr (with_query
                     (''esr://'' @ mk_authority host port org_arg @ ''/'' @ join ''/'' segments) params)))"


section \<open>Resource URIs\<close>

record parsed_resource =
  res_media_type :: string
  res_sha256 :: string
  res_ext :: string
  res_env :: "string option"
  res_host :: string

definition allowed_exts :: "(string \<times> string list) list" where
  "allowed_exts =
     [(''image'', [''png'', ''jpg'', ''jpeg'', ''gif'', ''webp'', ''heic'']),
      (''file'', [''bin'', ''pdf'', ''doc'', ''docx'', ''xls'', ''xlsx'', ''zip'', ''txt'', ''md'', ''csv'']),
      (''audio'', [''opus'', ''mp3'', ''wav'', ''m4a'', ''aac''])]"

definition is_lower_hex :: "char \<Rightarrow> bool" where
  "is_lower_hex c = (let n = of_char c :: nat in (48 \<le> n \<and> n \<le> 57) \<or> (97 \<le> n \<and> n \<le> 102))"

definition is_sha256_hex :: "string \<Rightarrow> bool" where
  "is_sha256_hex s = (length s = 64 \<and> list_all is_lower_hex s)"

text \<open>
  \<open>_SHA256_RE.match(s)\<close> for the pattern \<open>^[0-9a-f]{64}$\<close>: the \<open>$\<close> of \<open>re\<close> matches at the end of
  the string and also just before a final newline.
\<close>

definition sha256_re_match :: "string \<Rightarrow> bool" where
  "sha256_re_match s =
     (is_sha256_hex s \<or> (s \<noteq> [] \<and> last s = char_of (10 :: nat) \<and> is_sha256_hex (butlast s)))"

definition parse_resource :: "string \<Rightarrow> parsed_resource res" where
  "parse_resource uri =
     rbind (parse uri) (\<lambda>parsed.
       if uri_type parsed \<noteq> ''resources'' then Inl (value_error ''invalid_uri: not a resources URI'')
       else (case uri_segments parsed of
               [_, mt_str, last_seg] \<Rightarrow>
                 (case map_of allowed_exts mt_str of
                    None \<Rightarrow> Inl (value_error (''invalid_uri: unknown media_type '' @ repr_str mt_str))
                  | Some exts \<Rightarrow>
                      if CHR ''.'' \<notin> set last_seg then Inl (value_error ''invalid_uri: missing ext'')
                      else
                        let sha = rbefore CHR ''.'' last_seg;
                            ext = lower (rafter CHR ''.'' last_seg)
                        in if \<not> sha256_re_match sha then
                             Inl (value_error ''invalid_uri: sha256 must be 64 lowercase hex chars'')
                           else if ext \<notin> set exts then
                             Inl (value_error (''invalid_uri: ext '' @ repr_str ext
                               @ '' not in allowlist for '' @ repr_str mt_str))
                           else Inr \<lparr>res_media_type = mt_str, res_sha256 = sha, res_ext = ext,
                                     res_env = uri_org parsed, res_host = uri_host parsed\<rparr>)
             | _ \<Rightarrow> Inl (value_error ''invalid_uri: bad segment count'')))"

definition build_resource ::
  "string \<Rightarrow> string \<Rightarrow> string \<Rightarrow> string option \<Rightarrow> string \<Rightarrow> string res"
where
  "build_resource media_type sha256 ext0 env host =
     (let ext = lower ext0 in
      if \<not> sha256_re_match sha256 then
        Inl (value_error (''build_resource: sha256 must be 64 lowercase hex chars, got: '' @ repr_str sha256))
      else (case map_of allowed_exts media_type of
              None \<Rightarrow> Inl (value_error (''build_resource: unknown media_type '' @ repr_str media_type))
            | Some exts \<Rightarrow>
                if ext \<notin> set exts then
                  Inl (value_error (''build_resource: ext '' @ repr_str ext
                    @ '' not in allowlist for media_type '' @ repr_str media_type))
                else build_path [''resources'', media_type, sha256 @ ''.'' @ ext] host None None env []))"


section \<open>Percent-encoding round trip\<close>

lemma unquote_plain: "c \<noteq> CHR ''%'' \<Longrightarrow> unquote (c # s) = c # unquote s"
proof (cases s)
  case (Cons a t)
  assume "c \<noteq> CHR ''%''"
  with Cons show ?thesis by (cases t) (auto split: option.splits)
qed simp

lemma hex_val_upper: "n < 16 \<Longrightarrow> hex_val (hex_upper n) = Some n"
  by (auto simp: hex_val_def hex_upper_def)

lemma of_char_div: "of_char c div 16 < (16 :: nat)"
  by (rule less_mult_imp_div_less) simp

lemma unquote_escape:
  "unquote (CHR ''%'' # hex_upper (of_char c div 16) # hex_upper (of_char c mod 16) # s) = c # unquote s"
proof -
  have "16 * (of_char c div 16) + of_char c mod 16 = (of_char c :: nat)" by simp
  then have "char_of (16 * (of_char c div 16) + of_char c mod 16 :: nat) = c"
    by (simp only: char_of_char)
  then show ?thesis by (simp add: hex_val_upper of_char_div)
qed

lemma hex_upper_unreserved: "n < 16 \<Longrightarrow> url_unreserved (hex_upper n)"
  by (auto simp: hex_upper_def url_unreserved_def)

lemma unreserved_not_special: "url_unreserved c \<Longrightarrow> c \<notin> set ''+%&=?/ ''"
  by (auto simp: url_unreserved_def)

lemma quote_char_set:
  "x \<in> set (quote_char c) \<Longrightarrow> url_unreserved x \<or> x = CHR ''+'' \<or> x = CHR ''%''"
  by (auto simp: quote_char_def Let_def hex_upper_unreserved of_char_div split: if_splits)

lemma quote_plus_set:
  "x \<in> set (quote_plus s) \<Longrightarrow> url_unreserved x \<or> x = CHR ''+'' \<or> x = CHR ''%''"
  by (auto simp: quote_plus_def dest: quote_char_set)

lemma quote_plus_clean: "CHR ''&'' \<notin> set (quote_plus s)" "CHR ''='' \<notin> set (quote_plus s)"
  using unreserved_not_special quote_plus_set [of _ s] by fastforce+

lemma unquote_plus_quote_char: "unquote_plus (quote_char c @ s) = c # unquote_plus s"
proof -
  have "hex_upper n \<noteq> CHR ''+''" if "n < 16" for n
    using hex_upper_unreserved [OF that] unreserved_not_special by auto
  moreover have "c \<notin> set ''+%''" if "url_unreserved c"
    using unreserved_not_special [OF that] by auto
  ultimately show ?thesis
    by (auto simp: unquote_plus_def quote_char_def Let_def unquote_plain unquote_escape of_char_div
      simp del: unquote.simps)
qed

lemma unquote_plus_quote_plus: "unquote_plus (quote_plus s) = s"
proof -
  have "unquote_plus (concat (map quote_char s)) = s"
    by (induction s) (simp_all add: unquote_plus_quote_char, simp add: unquote_plus_def)
  then show ?thesis by (simp add: quote_plus_def)
qed

lemma parse_qsl_urlencode:
  assumes "kvs \<noteq> []"
  shows "parse_qsl (urlencode kvs) = map (\<lambda>(k, v). (k, py_str v)) kvs"
proof -
  define enc where "enc = (\<lambda>(k, v). quote_plus k @ ''='' @ quote_plus (py_str v))"
  have "CHR ''&'' \<notin> set (enc kv)" for kv
    by (cases kv) (auto simp: enc_def quote_plus_clean)
  then have "split_on CHR ''&'' (join ''&'' (map enc kvs)) = map enc kvs"
    using assms by (intro split_on_join) auto
  moreover have "filter (\<lambda>nv. nv \<noteq> []) (map enc kvs) = map enc kvs"
    by (auto simp: filter_id_conv enc_def)
  moreover have "(unquote_plus (before CHR ''='' (enc kv)), unquote_plus (after CHR ''='' (enc kv))) =
    (case kv of (k, v) \<Rightarrow> (k, py_str v))" for kv
    by (cases kv) (simp add: enc_def quote_plus_clean unquote_plus_quote_plus)
  ultimately show ?thesis
    unfolding parse_qsl_def urlencode_def enc_def [symmetric] by simp
qed

lemma parse_qsl_Nil: "parse_qsl [] = []"
  by (simp add: parse_qsl_def)


section \<open>Well-formed URIs\<close>

text \<open>What a successful parse guarantees.\<close>

definition wf_uri :: "esr_uri \<Rightarrow> bool" where
  [inv_simps]: "wf_uri u \<longleftrightarrow>
     uri_host u \<noteq> [] \<and> set (uri_host u) \<inter> set ''/?:'' = {} \<and>
     (case uri_org u of
        None \<Rightarrow> CHR ''@'' \<notin> set (uri_host u)
      | Some org \<Rightarrow> org \<noteq> [] \<and> set org \<inter> set ''/?@'' = {}) \<and>
     2 \<le> length (uri_segments u) \<and>
     (\<forall>x\<in>set (uri_segments u). x \<noteq> [] \<and> set x \<inter> set ''/?'' = {}) \<and>
     hd (uri_segments u) = uri_type u \<and> last (uri_segments u) = uri_id u \<and>
     uri_type u \<in> set valid_types \<and>
     (uri_type u \<in> set legacy_types \<longrightarrow> length (uri_segments u) = 2) \<and>
     distinct (map fst (uri_params u))"

lemma parse_authority_msg: "parse_authority s a = Inr r \<Longrightarrow> parse_authority s' a = Inr r"
  by (auto simp: parse_authority_def Let_def split: if_splits option.splits)

lemma parse_authority_wf:
  assumes "parse_authority s a = Inr (org, host, port)" "set a \<inter> set ''/?'' = {}"
  shows "host \<noteq> [] \<and> set host \<inter> set ''/?:'' = {} \<and>
    (case org of None \<Rightarrow> CHR ''@'' \<notin> set host | Some g \<Rightarrow> g \<noteq> [] \<and> set g \<inter> set ''/?@'' = {})"
proof (cases "CHR ''@'' \<in> set a")
  case True
  have "set (before CHR '':'' (after CHR ''@'' a)) \<subseteq> set a" "set (before CHR ''@'' a) \<subseteq> set a"
    using set_before set_after by (metis subset_trans)+
  with True assms show ?thesis
    by (auto simp: parse_authority_def Let_def split: if_splits option.splits)
next
  case False
  with assms set_before [of "CHR '':''" a] show ?thesis
    by (auto simp: parse_authority_def Let_def split: if_splits option.splits)
qed

lemma parse_path_wf:
  assumes ok: "parse_path s rp = Inr (ty, ident, segs)" and q: "CHR ''?'' \<notin> set rp"
  shows "2 \<le> length segs \<and> (\<forall>x\<in>set segs. x \<noteq> [] \<and> set x \<inter> set ''/?'' = {}) \<and>
    hd segs = ty \<and> last segs = ident \<and> ident \<noteq> [] \<and> ty \<in> set valid_types \<and>
    (ty \<in> set legacy_types \<longrightarrow> length segs = 2)"
proof -
  define parts where "parts = filter (\<lambda>p. p \<noteq> []) (split_on CHR ''/'' rp)"
  have parts: "x \<noteq> [] \<and> set x \<inter> set ''/?'' = {}" if "x \<in> set parts" for x
    using that split_on_no_sep [of x "CHR ''/''" rp] split_on_set [of x "CHR ''/''" rp] q
    by (auto simp: parts_def)
  have segs: "segs = parts"
    using ok by (auto simp: parse_path_def Let_def simp flip: parts_def split: if_splits list.splits)
  have "2 \<le> length parts \<and> hd parts = ty \<and> last parts = ident \<and> ty \<in> set valid_types \<and>
    (ty \<in> set legacy_types \<longrightarrow> length parts = 2)"
    using ok
    by (cases parts rule: remdups_adj.cases)
      (auto simp: parse_path_def Let_def simp flip: parts_def split: if_splits)
  moreover from this have "last parts \<in> set parts"
    by (intro last_in_set) auto
  ultimately show ?thesis
    using segs parts by blast
qed

lemma split_query_no_mark: "split_query r = (pq, q) \<Longrightarrow> CHR ''?'' \<notin> set pq"
  by (auto simp: split_query_def split: if_splits)

lemma parse_wf: "parse s = Inr u \<Longrightarrow> wf_uri u"
proof -
  assume ok: "parse s = Inr u"
  obtain pq query where sq: "split_query (drop (length ''esr://'') s) = (pq, query)"
    by fastforce
  note q = split_query_no_mark [OF sq]
  obtain org host port ty ident segs where
    a: "parse_authority s (before CHR ''/'' pq) = Inr (org, host, port)" and
    p: "parse_path s (after CHR ''/'' pq) = Inr (ty, ident, segs)" and
    u: "u = \<lparr>uri_org = org, uri_host = host, uri_port = port, uri_type = ty, uri_id = ident,
      uri_segments = segs, uri_params = dict_of (parse_qsl query)\<rparr>"
    using ok unfolding parse_def sq by (auto simp: Let_def rbind_Inr_iff split: if_splits)
  have "set (before CHR ''/'' pq) \<inter> set ''/?'' = {}"
    using q set_before [of "CHR ''/''" pq] by auto
  note wa = parse_authority_wf [OF a this]
  have "CHR ''?'' \<notin> set (after CHR ''/'' pq)"
    using q set_after [of "CHR ''/''" pq] by auto
  note wp = parse_path_wf [OF p this]
  from wa wp u show ?thesis
    by (cases org) (simp_all add: wf_uri_def)
qed

section \<open>Printing and parsing back\<close>

lemma parse_mk_authority:
  assumes "host \<noteq> []" "CHR '':'' \<notin> set host" "CHR ''@'' \<notin> set g"
    "(org = None \<or> org = Some []) \<longrightarrow> CHR ''@'' \<notin> set host" "org = None \<or> org = Some g"
  shows "parse_authority s (mk_authority host port org) =
    Inr (if org = Some [] then None else org, host, port)"
proof -
  define a where "a = (case port of None \<Rightarrow> host | Some p \<Rightarrow> host @ '':'' @ show_int p)"
  have a: "before CHR '':'' a = host"
    "after CHR '':'' a = [] \<and> port = None \<or>
     (\<exists>p. after CHR '':'' a \<noteq> [] \<and> py_int (after CHR '':'' a) = Some p \<and> port = Some p)"
    using assms(2) by (auto simp: a_def before_absent after_absent split: option.splits)
  have no_at: "CHR ''@'' \<notin> set a" if "CHR ''@'' \<notin> set host"
    using that show_int_chars [of "CHR ''@''"]
    by (auto simp: a_def is_digit_def digit_val_def split: option.splits)
  show ?thesis
  proof (cases "org = None \<or> org = Some []")
    case True
    then have "mk_authority host port org = a"
      by (auto simp: mk_authority_def a_def Let_def)
    with True a no_at assms show ?thesis
      by (auto simp: parse_authority_def Let_def split: option.splits if_splits)
  next
    case False
    with assms obtain c cs where "org = Some (c # cs)" "g = c # cs"
      by (cases g) auto
    then have m: "mk_authority host port org = g @ CHR ''@'' # a" and g: "g \<noteq> []" "org = Some g"
      by (auto simp: mk_authority_def a_def Let_def)
    have "before CHR ''@'' (g @ CHR ''@'' # a) = g" "after CHR ''@'' (g @ CHR ''@'' # a) = a"
      using assms(3) by simp_all
    with m g a assms show ?thesis
      by (auto simp: parse_authority_def Let_def split: option.splits if_splits)
  qed
qed

lemma mk_authority_chars:
  "set (mk_authority host port org) \<subseteq>
     set host \<union> {c. is_digit c} \<union> set '':-@'' \<union> (case org of None \<Rightarrow> {} | Some g \<Rightarrow> set g)"
  using show_int_chars
  by (auto simp: mk_authority_def Let_def split: option.splits list.splits)

lemma parse_path_join:
  assumes "2 \<le> length segs" "\<And>x. x \<in> set segs \<Longrightarrow> x \<noteq> [] \<and> CHR ''/'' \<notin> set x"
    "hd segs \<in> set valid_types" "hd segs \<in> set legacy_types \<Longrightarrow> length segs = 2"
  shows "parse_path s (join ''/'' segs) = Inr (hd segs, last segs, segs)"
proof -
  have sp: "split_on CHR ''/'' (join ''/'' segs) = segs"
    using assms(1,2) by (intro split_on_join) auto
  obtain x y zs where xyz: "segs = x # y # zs"
    using assms(1) by (cases segs rule: remdups_adj.cases) auto
  have fl: "x \<noteq> []" "y \<noteq> []" "filter (\<lambda>p. p \<noteq> []) zs = zs"
    using assms(2) by (simp_all add: xyz filter_id_conv)
  show ?thesis
  proof (cases "x \<in> set legacy_types")
    case True
    with assms(4) xyz have "zs = []" by simp
    with True assms(3) show ?thesis
      unfolding parse_path_def sp by (simp add: Let_def xyz fl)
  next
    case False
    with assms(3) show ?thesis
      unfolding parse_path_def sp by (simp add: Let_def xyz fl)
  qed
qed

lemma parse_compose:
  assumes a: "parse_authority m auth = Inr (org, host, port)" "set auth \<inter> set ''/?'' = {}"
    and segs: "2 \<le> length segs" "\<And>x. x \<in> set segs \<Longrightarrow> x \<noteq> [] \<and> set x \<inter> set ''/?'' = {}"
      "hd segs \<in> set valid_types" "hd segs \<in> set legacy_types \<Longrightarrow> length segs = 2"
    and params: "distinct (map fst params)"
  shows "parse (with_query (''esr://'' @ auth @ ''/'' @ join ''/'' segs) params) =
    Inr \<lparr>uri_org = org, uri_host = host, uri_port = port, uri_type = hd segs, uri_id = last segs,
         uri_segments = segs, uri_params = map (\<lambda>(k, v). (k, py_str v)) params\<rparr>"
    (is "parse ?s = _")
proof -
  define pq where "pq = auth @ ''/'' @ join ''/'' segs"
  have "set (join ''/'' segs) \<subseteq> set ''/'' \<union> (\<Union>x\<in>set segs. set x)"
    by (rule set_join)
  with a(2) segs(2) have q: "CHR ''?'' \<notin> set pq"
    by (auto simp: pq_def)
  have "drop (length ''esr://'') ?s = (if params = [] then pq else pq @ CHR ''?'' # urlencode params)"
    by (simp add: with_query_def pq_def)
  with q have sq: "split_query (drop (length ''esr://'') ?s) =
    (pq, if params = [] then [] else urlencode params)"
    by (simp add: split_query_def)
  have "CHR ''/'' \<notin> set auth" using a(2) by auto
  then have ba: "before CHR ''/'' pq = auth" "after CHR ''/'' pq = join ''/'' segs"
    by (simp_all add: pq_def)
  have pa: "parse_authority ?s auth = Inr (org, host, port)"
    using a(1) by (rule parse_authority_msg)
  have pp: "parse_path ?s (join ''/'' segs) = Inr (hd segs, last segs, segs)"
    using segs by (intro parse_path_join) auto
  have nz: "last segs \<noteq> []"
    using segs(1,2) last_in_set [of segs] by fastforce
  have "distinct (map fst (map (\<lambda>(k, v). (k, py_str v)) params))"
    using params by (simp add: o_def case_prod_unfold)
  from dict_of_distinct [OF this] have "dict_of (parse_qsl (if params = [] then [] else urlencode params)) =
    map (\<lambda>(k, v). (k, py_str v)) params"
    by (cases "params = []") (simp_all add: parse_qsl_urlencode parse_qsl_Nil)
  moreover have "startswith ?s ''esr://''"
    by (simp add: with_query_def)
  moreover have "CHR ''/'' \<in> set pq" by (simp add: pq_def)
  ultimately show ?thesis
    unfolding parse_def sq using ba pa pp nz by (simp add: Let_def)
qed

text \<open>The canonical text of a URI, as the builders produce it.\<close>

definition uri_text :: "esr_uri \<Rightarrow> string res" where
  "uri_text u =
     (let ps = map (\<lambda>(k, v). (k, PyStr v)) (uri_params u) in
      if uri_type u \<in> set legacy_types
      then build (uri_type u) (uri_id u) (uri_host u) (uri_port u) (uri_org u) ps
      else build_path (uri_segments u) (uri_host u) (uri_port u) (uri_org u) None ps)"

lemma first_empty_None: "(\<And>x. x \<in> set xs \<Longrightarrow> x \<noteq> []) \<Longrightarrow> first_empty i xs = None"
  by (induction xs arbitrary: i) auto

lemma build_path_ok:
  assumes "2 \<le> length segs" "hd segs \<in> set path_style_types" "host \<noteq> []" "\<And>x. x \<in> set segs \<Longrightarrow> x \<noteq> []"
  shows "build_path segs host port org env params =
    Inr (with_query (''esr://'' @
      mk_authority host port (case env of Some (c # cs) \<Rightarrow> Some (c # cs) | _ \<Rightarrow> org)
      @ ''/'' @ join ''/'' segs) params)"
  using assms by (auto simp: build_path_def first_empty_None Let_def)

lemma valid_types_iff: "t \<in> set valid_types \<longleftrightarrow> t \<in> set legacy_types \<or> t \<in> set path_style_types"
  by (simp add: valid_types_def)

lemma types_disjoint: "t \<in> set path_style_types \<Longrightarrow> t \<notin> set legacy_types"
  by (auto simp: path_style_types_def legacy_types_def)

lemma types_clean: "t \<in> set valid_types \<Longrightarrow> t \<noteq> [] \<and> set t \<inter> set ''/?'' = {}"
  by (auto simp: valid_types_def path_style_types_def legacy_types_def)

lemma is_digit_sep: "\<not> is_digit CHR ''/''" "\<not> is_digit CHR ''?''" "\<not> is_digit CHR ''@''" "\<not> is_digit CHR '':''"
  by (simp_all add: is_digit_def digit_val_def)

lemma mk_authority_clean:
  assumes "set host \<inter> set ''/?'' = {}" "case org of None \<Rightarrow> True | Some g \<Rightarrow> set g \<inter> set ''/?'' = {}"
  shows "set (mk_authority host port org) \<inter> set ''/?'' = {}"
  using mk_authority_chars [of host port org] assms is_digit_sep by (auto split: option.splits)

text \<open>The components a URI can be built from so that the text parses back to them.\<close>

definition wf_parts :: "string \<Rightarrow> string option \<Rightarrow> bool" where
  [inv_simps]: "wf_parts host org \<longleftrightarrow>
     host \<noteq> [] \<and> set host \<inter> set ''/?:'' = {} \<and>
     (case org of None \<Rightarrow> CHR ''@'' \<notin> set host
      | Some g \<Rightarrow> set g \<inter> set ''/?@'' = {} \<and> (g = [] \<longrightarrow> CHR ''@'' \<notin> set host))"

definition norm_org :: "string option \<Rightarrow> string option" where
  "norm_org org = (if org = Some [] then None else org)"

lemma parse_authority_parts:
  assumes "wf_parts host org"
  shows "parse_authority s (mk_authority host port org) = Inr (norm_org org, host, port)"
    and "set (mk_authority host port org) \<inter> set ''/?'' = {}"
proof -
  show "parse_authority s (mk_authority host port org) = Inr (norm_org org, host, port)"
    unfolding norm_org_def using assms
    by (intro parse_mk_authority [where g = "case org of None \<Rightarrow> [] | Some g \<Rightarrow> g"])
      (auto simp: wf_parts_def split: option.splits)
  show "set (mk_authority host port org) \<inter> set ''/?'' = {}"
    using assms by (intro mk_authority_clean) (auto simp: wf_parts_def split: option.splits)
qed

lemma wf_uri_parts: "wf_uri u \<Longrightarrow> wf_parts (uri_host u) (uri_org u) \<and> norm_org (uri_org u) = uri_org u"
  by (auto simp: wf_uri_def wf_parts_def norm_org_def split: option.splits)

lemma build_Inr_iff:
  "build ty ident host port org params = Inr s \<longleftrightarrow>
     ty \<in> set valid_types \<and> host \<noteq> [] \<and> ident \<noteq> [] \<and>
     s = with_query (''esr://'' @ mk_authority host port org @ ''/'' @ join ''/'' [ty, ident]) params"
  by (auto simp: build_def)

lemma first_empty_None_iff: "first_empty i xs = None \<longleftrightarrow> [] \<notin> set xs"
  by (induction xs arbitrary: i) auto

lemma build_path_Inr_iff:
  "build_path segs host port org env params = Inr s \<longleftrightarrow>
     2 \<le> length segs \<and> hd segs \<in> set path_style_types \<and> host \<noteq> [] \<and> [] \<notin> set segs \<and>
     s = with_query (''esr://'' @
       mk_authority host port (case env of Some (c # cs) \<Rightarrow> Some (c # cs) | _ \<Rightarrow> org)
       @ ''/'' @ join ''/'' segs) params"
  using first_empty_None_iff [of 0 segs]
  by (cases "first_empty 0 segs") (auto simp: build_path_def Let_def)

lemma parse_build:
  assumes ok: "build ty ident host port org params = Inr s" and parts: "wf_parts host org"
    and ident: "set ident \<inter> set ''/?'' = {}" and params: "distinct (map fst params)"
  shows "parse s = Inr \<lparr>uri_org = norm_org org, uri_host = host, uri_port = port, uri_type = ty,
    uri_id = ident, uri_segments = [ty, ident], uri_params = map (\<lambda>(k, v). (k, py_str v)) params\<rparr>"
proof -
  from ok have ty: "ty \<in> set valid_types" "ident \<noteq> []"
    and s: "s = with_query (''esr://'' @ mk_authority host port org @ ''/'' @ join ''/'' [ty, ident]) params"
    by (simp_all add: build_Inr_iff)
  from ty ident types_clean [of ty]
  have "\<And>x. x \<in> set [ty, ident] \<Longrightarrow> x \<noteq> [] \<and> set x \<inter> set ''/?'' = {}" by auto
  from parse_compose [where segs = "[ty, ident]", OF parse_authority_parts [OF parts] _ this _ _ params] ty s
  show ?thesis by simp
qed

lemma parse_build_path:
  assumes ok: "build_path segs host port org env params = Inr s"
    and org': "org' = (case env of Some (c # cs) \<Rightarrow> Some (c # cs) | _ \<Rightarrow> org)"
    and parts: "wf_parts host org'"
    and segs: "\<And>x. x \<in> set segs \<Longrightarrow> set x \<inter> set ''/?'' = {}" and params: "distinct (map fst params)"
  shows "parse s = Inr \<lparr>uri_org = norm_org org', uri_host = host, uri_port = port, uri_type = hd segs,
    uri_id = last segs, uri_segments = segs, uri_params = map (\<lambda>(k, v). (k, py_str v)) params\<rparr>"
proof -
  from ok have p: "2 \<le> length segs" "hd segs \<in> set path_style_types" "[] \<notin> set segs"
    and s: "s = with_query (''esr://'' @ mk_authority host port org' @ ''/'' @ join ''/'' segs) params"
    by (simp_all add: build_path_Inr_iff org')
  from p segs have "\<And>x. x \<in> set segs \<Longrightarrow> x \<noteq> [] \<and> set x \<inter> set ''/?'' = {}" by blast
  from parse_compose [where segs = segs, OF parse_authority_parts [OF parts] p(1) this _ _ params] p(2) s
  show ?thesis by (simp add: valid_types_iff types_disjoint)
qed

lemma wf_uri_text:
  assumes wf: "wf_uri u"
  shows "\<exists>t. uri_text u = Inr t \<and> parse t = Inr u"
proof -
  define ps where "ps = map (\<lambda>(k, v). (k, PyStr v)) (uri_params u)"
  have ps: "map (\<lambda>(k, v). (k, py_str v)) ps = uri_params u" "distinct (map fst ps)"
    using wf by (simp_all add: ps_def wf_uri_def o_def case_prod_unfold)
  note parts = wf_uri_parts [OF wf]
  have segs: "x \<noteq> [] \<and> set x \<inter> set ''/?'' = {}" if "x \<in> set (uri_segments u)" for x
    using wf that by (simp add: wf_uri_def)
  have len: "2 \<le> length (uri_segments u)" and host: "uri_host u \<noteq> []"
    and hd: "hd (uri_segments u) = uri_type u" and lst: "last (uri_segments u) = uri_id u"
    using wf by (simp_all add: wf_uri_def)
  show ?thesis
  proof (cases "uri_type u \<in> set legacy_types")
    case True
    then have "length (uri_segments u) = 2" using wf by (simp add: wf_uri_def)
    with hd lst have s2: "uri_segments u = [uri_type u, uri_id u]"
      by (auto simp: length_Suc_conv numeral_2_eq_2)
    with segs have ident: "uri_id u \<noteq> []" "set (uri_id u) \<inter> set ''/?'' = {}" by simp_all
    obtain t where t: "build (uri_type u) (uri_id u) (uri_host u) (uri_port u) (uri_org u) ps = Inr t"
      using True host ident by (simp add: build_Inr_iff valid_types_iff)
    from parse_build [OF this] parts ident ps s2 have "parse t = Inr u" by simp
    with t True show ?thesis by (simp add: uri_text_def ps_def Let_def)
  next
    case False
    with wf have "uri_type u \<in> set path_style_types" by (simp add: wf_uri_def valid_types_iff)
    then obtain t where t:
      "build_path (uri_segments u) (uri_host u) (uri_port u) (uri_org u) None ps = Inr t"
      using len host hd segs by (auto simp: build_path_Inr_iff)
    from parse_build_path [OF this refl] parts segs ps hd lst have "parse t = Inr u" by simp
    with t False show ?thesis by (simp add: uri_text_def ps_def Let_def)
  qed
qed


section \<open>Resource URIs: lemmas\<close>

lemma lower_char_idem: "lower_char (lower_char c) = lower_char c"
proof -
  have "of_char c < (256 :: nat)" by simp
  then show ?thesis by (auto simp: lower_char_def Let_def)
qed

lemma lower_idem [simp]: "lower (lower s) = lower s"
  by (simp add: lower_def lower_char_idem)

lemma allowed_exts_clean:
  assumes "map_of allowed_exts mt = Some exts"
  shows "mt \<noteq> []" "set mt \<inter> set ''/?'' = {}" "e \<in> set exts \<Longrightarrow> set e \<inter> set ''/?.'' = {}"
  using assms by (auto simp: allowed_exts_def split: if_splits)

lemma hex_clean: "is_sha256_hex s \<Longrightarrow> set s \<inter> set ''/?'' = {}"
  by (auto simp: is_sha256_hex_def list_all_iff is_lower_hex_def)

lemma sha256_re_match_clean:
  assumes "sha256_re_match s"
  shows "set s \<inter> set ''/?'' = {}"
proof (cases "is_sha256_hex s")
  case False
  with assms have "s \<noteq> []" "last s = char_of (10 :: nat)" "is_sha256_hex (butlast s)"
    by (auto simp: sha256_re_match_def)
  then have "set s = insert (char_of (10 :: nat)) (set (butlast s))"
    by (metis append_butlast_last_id rotate1.simps(2) set_rotate1 list.simps(15))
  moreover have "char_of (10 :: nat) \<notin> set ''/?''" by code_simp
  ultimately show ?thesis
    using hex_clean [OF \<open>is_sha256_hex (butlast s)\<close>] by auto
qed (rule hex_clean)

lemma is_sha256_hex_match: "is_sha256_hex s \<Longrightarrow> sha256_re_match s"
  by (simp add: sha256_re_match_def)

lemma parse_resource_Inr:
  assumes "parse_resource uri = Inr r"
  shows "\<exists>u exts. parse uri = Inr u \<and> res_env r = uri_org u \<and> res_host r = uri_host u \<and>
    map_of allowed_exts (res_media_type r) = Some exts \<and> res_ext r \<in> set exts \<and>
    lower (res_ext r) = res_ext r \<and> sha256_re_match (res_sha256 r)"
  using assms
  by (auto simp: parse_resource_def rbind_Inr_iff Let_def split: if_splits list.splits option.splits)

lemma build_resource_ok:
  assumes "sha256_re_match sha" "map_of allowed_exts mt = Some exts" "lower ext \<in> set exts" "host \<noteq> []"
  shows "\<exists>s. build_resource mt sha ext env host = Inr s \<and>
    build_path [''resources'', mt, sha @ ''.'' @ lower ext] host None None env [] = Inr s"
  using assms allowed_exts_clean [OF assms(2)]
  by (simp add: build_resource_def build_path_Inr_iff path_style_types_def)

lemma parse_resource_path:
  assumes g: "sha256_re_match sha" "map_of allowed_exts mt = Some exts" "lower ext \<in> set exts"
    and b: "build_path [''resources'', mt, sha @ ''.'' @ lower ext] host port None env [] = Inr s"
    and parts: "wf_parts host env"
  shows "parse_resource s = Inr \<lparr>res_media_type = mt, res_sha256 = sha, res_ext = lower ext,
    res_env = norm_org env, res_host = host\<rparr>"
proof -
  define env' where "env' = (case env of Some (c # cs) \<Rightarrow> Some (c # cs) | _ \<Rightarrow> None)"
  have env': "norm_org env' = norm_org env" "wf_parts host env'"
    using parts by (auto simp: env'_def norm_org_def wf_parts_def split: option.splits list.splits)
  note cl = allowed_exts_clean [OF g(2)] sha256_re_match_clean [OF g(1)]
  have "set x \<inter> set ''/?'' = {}" if "x \<in> set [''resources'', mt, sha @ ''.'' @ lower ext]" for x
    using that cl g(3) by auto
  from parse_build_path [OF b env'_def env'(2) this]
  have "parse s = Inr \<lparr>uri_org = norm_org env, uri_host = host, uri_port = port, uri_type = ''resources'',
    uri_id = sha @ ''.'' @ lower ext, uri_segments = [''resources'', mt, sha @ ''.'' @ lower ext],
    uri_params = []\<rparr>"
    by (simp add: env'(1))
  moreover have "rbefore CHR ''.'' (sha @ ''.'' @ lower ext) = sha"
    "rafter CHR ''.'' (sha @ ''.'' @ lower ext) = lower ext"
    using cl(3) [OF g(3)] by simp_all
  ultimately show ?thesis
    using g by (simp add: parse_resource_def Let_def)
qed

lemma build_resource_Inr:
  "build_resource mt sha ext env host = Inr s \<Longrightarrow> \<exists>exts. sha256_re_match sha \<and> map_of allowed_exts mt = Some exts \<and>
     lower ext \<in> set exts \<and> build_path [''resources'', mt, sha @ ''.'' @ lower ext] host None None env [] = Inr s"
  by (auto simp: build_resource_def Let_def split: if_splits option.splits)

lemma parse_resource_build:
  assumes "build_resource mt sha ext env host = Inr s" "wf_parts host env"
  shows "parse_resource s = Inr \<lparr>res_media_type = mt, res_sha256 = sha, res_ext = lower ext,
    res_env = norm_org env, res_host = host\<rparr>"
  using build_resource_Inr [OF assms(1)] parse_resource_path assms(2) by blast

text \<open>The same when \<open>host\<close> is given with its port, as the media store gives it.\<close>

lemma parse_resource_build_port:
  assumes "build_resource mt sha ext env (host @ '':'' @ show_int port) = Inr s" "wf_parts host env"
  shows "parse_resource s = Inr \<lparr>res_media_type = mt, res_sha256 = sha, res_ext = lower ext,
    res_env = norm_org env, res_host = host\<rparr>"
proof -
  from build_resource_Inr [OF assms(1)] obtain exts where
    g: "sha256_re_match sha" "map_of allowed_exts mt = Some exts" "lower ext \<in> set exts"
    and b: "build_path [''resources'', mt, sha @ ''.'' @ lower ext] (host @ '':'' @ show_int port) None None env [] = Inr s"
    by blast
  have "mk_authority (host @ '':'' @ show_int port) None org = mk_authority host (Some port) org" for org
    by (simp add: mk_authority_def)
  with b assms(2) have "build_path [''resources'', mt, sha @ ''.'' @ lower ext] host (Some port) None env [] = Inr s"
    by (simp add: build_path_Inr_iff wf_parts_def)
  from parse_resource_path [OF g this assms(2)] show ?thesis .
qed

lemma sort_params_unique:
  assumes "distinct (map fst ps)" "distinct (map fst qs)"
    "\<forall>k\<in>set (map fst ps @ map fst qs). map_of ps k = map_of qs k"
  shows "sort ps = sort qs"
proof -
  have "map_of ps = map_of qs"
  proof
    show "map_of ps k = map_of qs k" for k
      using assms(3) by (cases "k \<in> fst ` set ps \<union> fst ` set qs")
        (auto simp: map_of_eq_None_iff [THEN iffD2])
  qed
  with assms have "set ps = set qs"
    by (simp add: map_of_inject_set)
  with assms show ?thesis
    by (intro sorted_distinct_set_unique) (auto simp: distinct_map)
qed


section \<open>Properties\<close>

text \<open>
  \<open>parse\<close> inverts \<open>build\<close>: whenever \<open>build\<close> accepts its arguments and the host, organisation
  and id are free of the URI's own delimiters, the built string parses to exactly the components
  it was built from, the query parameters (any characters, any values) included.
\<close>

theorem build_roundtrip:
  assumes "build ty ident host port org params = Inr s"
    and "wf_parts host org" "set ident \<inter> set ''/?'' = {}" "distinct (map fst params)"
  shows "parse s = Inr \<lparr>uri_org = norm_org org, uri_host = host, uri_port = port, uri_type = ty,
    uri_id = ident, uri_segments = [ty, ident], uri_params = map (\<lambda>(k, v). (k, py_str v)) params\<rparr>"
  using assms by (rule parse_build)

theorem build_roundtrip_witness:
  "\<exists>s. build ''adapter'' ''a b'' ''h'' (Some 4001) (Some ''dev'') [(''k &'', PyInt 7)] = Inr s \<and>
     parse s = Inr \<lparr>uri_org = Some ''dev'', uri_host = ''h'', uri_port = Some 4001,
       uri_type = ''adapter'', uri_id = ''a b'', uri_segments = [''adapter'', ''a b''],
       uri_params = [(''k &'', ''7'')]\<rparr>"
proof -
  obtain s where s: "build ''adapter'' ''a b'' ''h'' (Some 4001) (Some ''dev'') [(''k &'', PyInt 7)] = Inr s"
    by (simp add: build_Inr_iff valid_types_def legacy_types_def)
  moreover have "py_str (PyInt 7) = ''7''" by code_simp
  ultimately show ?thesis
    using build_roundtrip [OF s] by (simp add: wf_parts_def norm_org_def)
qed

text \<open>
  \<open>parse\<close> inverts \<open>build_path\<close>: the segments, host, port, the \<open>env\<close> (which wins over \<open>org\<close>)
  and the parameters come back unchanged.
\<close>

theorem build_path_roundtrip:
  assumes "build_path segs host port org env params = Inr s"
    and "org' = (case env of Some (c # cs) \<Rightarrow> Some (c # cs) | _ \<Rightarrow> org)"
    and "wf_parts host org'" "\<forall>x\<in>set segs. set x \<inter> set ''/?'' = {}" "distinct (map fst params)"
  shows "parse s = Inr \<lparr>uri_org = norm_org org', uri_host = host, uri_port = port, uri_type = hd segs,
    uri_id = last segs, uri_segments = segs, uri_params = map (\<lambda>(k, v). (k, py_str v)) params\<rparr>"
  using assms by (intro parse_build_path) auto

theorem build_path_roundtrip_witness:
  "\<exists>s. build_path [''workspaces'', ''w'', ''chats'', ''oc_1''] ''localhost'' None (Some ''x'') (Some ''prod'') [] = Inr s \<and>
     parse s = Inr \<lparr>uri_org = Some ''prod'', uri_host = ''localhost'', uri_port = None,
       uri_type = ''workspaces'', uri_id = ''oc_1'',
       uri_segments = [''workspaces'', ''w'', ''chats'', ''oc_1''], uri_params = []\<rparr>"
proof -
  obtain s where s: "build_path [''workspaces'', ''w'', ''chats'', ''oc_1''] ''localhost'' None (Some ''x'')
      (Some ''prod'') [] = Inr s"
    by (simp add: build_path_Inr_iff path_style_types_def)
  show ?thesis
    using s build_path_roundtrip [OF s refl] by (simp add: wf_parts_def norm_org_def)
qed

text \<open>
  C16. Every accepted text denotes a well-formed URI, and printing it canonically and parsing again
  gives the same URI: parsing normalises, and normal forms are fixed points.
\<close>

theorem parse_normalises:
  assumes "parse s = Inr u"
  shows "wf_uri u \<and> (\<exists>t. uri_text u = Inr t \<and> parse t = Inr u)"
  using parse_wf [OF assms] wf_uri_text by blast

theorem parse_normalises_witness:
  "\<exists>u t. parse ''esr://h:80//actor/x/'' = Inr u \<and> wf_uri u \<and> uri_text u = Inr t \<and> parse t = Inr u"
proof -
  obtain u where "parse ''esr://h:80//actor/x/'' = Inr u"
    by (cases "parse ''esr://h:80//actor/x/''") (code_simp, blast)
  with parse_normalises [OF this] show ?thesis by blast
qed

text \<open>\<open>parse\<close> raises nothing but \<open>ValueError\<close>.\<close>

lemma parse_error:
  assumes "parse s = Inl e"
  shows "exc_type e = ''ValueError''"
  using assms
  by (auto simp: parse_def parse_authority_def parse_path_def bad_path_def value_error_def Let_def rbind_def
      split: prod.splits sum.splits if_splits option.splits list.splits)

text \<open>
  \<open>EsrURI.__hash__\<close> agrees with \<open>EsrURI.__eq__\<close>: equal URIs have the same hash key, whatever the
  order of their parameters.
\<close>

theorem eq_implies_same_hash_key:
  assumes "uri_eq u v" "distinct (map fst (uri_params u))" "distinct (map fst (uri_params v))"
  shows "uri_hash_key u = uri_hash_key v"
  using assms sort_params_unique [of "uri_params u" "uri_params v"]
  by (simp add: uri_eq_def uri_hash_key_def)

theorem eq_implies_same_hash_key_witness:
  "uri_hash_key \<lparr>uri_org = None, uri_host = ''h'', uri_port = None, uri_type = ''actor'', uri_id = ''x'',
     uri_segments = [''actor'', ''x''], uri_params = [(''a'', ''1''), (''b'', ''2'')]\<rparr> =
   uri_hash_key \<lparr>uri_org = None, uri_host = ''h'', uri_port = None, uri_type = ''actor'', uri_id = ''x'',
     uri_segments = [''actor'', ''x''], uri_params = [(''b'', ''2''), (''a'', ''1'')]\<rparr>"
  by (rule eq_implies_same_hash_key) (simp_all add: uri_eq_def)

text \<open>
  \<open>parse_resource\<close> inverts \<open>build_resource\<close>, with the extension normalised to lower case; and
  \<open>build_resource\<close> accepts every hash of 64 lowercase hex digits with an allowed extension.
\<close>

theorem resource_roundtrip:
  assumes "is_sha256_hex sha" "map_of allowed_exts mt = Some exts" "lower ext \<in> set exts"
    and "wf_parts host env"
  shows "\<exists>s. build_resource mt sha ext env host = Inr s \<and>
    parse_resource s = Inr \<lparr>res_media_type = mt, res_sha256 = sha, res_ext = lower ext,
      res_env = norm_org env, res_host = host\<rparr>"
proof -
  have "host \<noteq> []" using assms(4) by (simp add: wf_parts_def)
  with assms obtain s where "build_resource mt sha ext env host = Inr s"
    using build_resource_ok is_sha256_hex_match by blast
  with parse_resource_build [OF this assms(4)] show ?thesis by blast
qed

theorem resource_roundtrip_witness:
  "\<exists>s. build_resource ''image'' (replicate 64 CHR ''a'') ''PNG'' (Some ''dev'') ''localhost'' = Inr s \<and>
     parse_resource s = Inr \<lparr>res_media_type = ''image'', res_sha256 = replicate 64 CHR ''a'',
       res_ext = ''png'', res_env = Some ''dev'', res_host = ''localhost''\<rparr>"
proof -
  have l: "lower ''PNG'' = ''png''" by code_simp
  have "is_sha256_hex (replicate 64 CHR ''a'')"
    by (simp add: is_sha256_hex_def is_lower_hex_def list_all_iff)
  from resource_roundtrip [OF this, of "''image''" _ "''PNG''" "''localhost''" "Some ''dev''"] l show ?thesis
    by (simp add: allowed_exts_def wf_parts_def norm_org_def)
qed

text \<open>
  Everything \<open>parse_resource\<close> accepts is in the media-type and extension allowlists, and the
  fields it returns rebuild to a URI that parses to the same fields.
\<close>

theorem parse_resource_sound:
  assumes "parse_resource uri = Inr r"
  shows "\<exists>exts s. map_of allowed_exts (res_media_type r) = Some exts \<and> res_ext r \<in> set exts \<and>
    sha256_re_match (res_sha256 r) \<and>
    build_resource (res_media_type r) (res_sha256 r) (res_ext r) (res_env r) (res_host r) = Inr s \<and>
    parse_resource s = Inr r"
proof -
  from parse_resource_Inr [OF assms] obtain u exts where u: "parse uri = Inr u"
    and r: "res_env r = uri_org u" "res_host r = uri_host u"
    "map_of allowed_exts (res_media_type r) = Some exts" "res_ext r \<in> set exts"
    "lower (res_ext r) = res_ext r" "sha256_re_match (res_sha256 r)" by blast
  note parts = wf_uri_parts [OF parse_wf [OF u]]
  then have "res_host r \<noteq> []" by (simp add: r wf_parts_def)
  with r obtain s where
    s: "build_resource (res_media_type r) (res_sha256 r) (res_ext r) (res_env r) (res_host r) = Inr s"
    using build_resource_ok [of "res_sha256 r" "res_media_type r" exts "res_ext r"] by auto
  with parse_resource_build [OF s] parts r have "parse_resource s = Inr r" by simp
  with r s show ?thesis by blast
qed

theorem parse_resource_sound_witness:
  "\<exists>exts s. map_of allowed_exts ''file'' = Some exts \<and> ''pdf'' \<in> set exts \<and>
     sha256_re_match (replicate 64 CHR ''0'') \<and>
     build_resource ''file'' (replicate 64 CHR ''0'') ''pdf'' None ''h'' = Inr s \<and>
     parse_resource s = Inr \<lparr>res_media_type = ''file'', res_sha256 = replicate 64 CHR ''0'',
       res_ext = ''pdf'', res_env = None, res_host = ''h''\<rparr>"
proof -
  have "parse_resource (''esr://h:9/resources/file/'' @ replicate 64 CHR ''0'' @ ''.PDF'') =
    Inr \<lparr>res_media_type = ''file'', res_sha256 = replicate 64 CHR ''0'',
       res_ext = ''pdf'', res_env = None, res_host = ''h''\<rparr>"
    by code_simp
  from parse_resource_sound [OF this] show ?thesis by simp
qed

text \<open>
  The check of the hash is weaker than 64 lowercase hex digits: \<open>$\<close> also matches before a final
  newline, so a 65-character hash ending in a newline is accepted by the builder and by the parser.
\<close>

theorem sha256_trailing_newline_accepted:
  "\<exists>sha s r. \<not> is_sha256_hex sha \<and> build_resource ''file'' sha ''bin'' None ''h'' = Inr s \<and>
     parse_resource s = Inr r \<and> res_sha256 r = sha"
proof -
  define sha where "sha = replicate 64 CHR ''0'' @ [char_of (10 :: nat)]"
  have m: "\<not> is_sha256_hex sha" "sha256_re_match sha"
    by (simp_all add: sha_def sha256_re_match_def is_sha256_hex_def is_lower_hex_def list_all_iff)
  have l: "lower ''bin'' = ''bin''" by code_simp
  obtain s where s: "build_resource ''file'' sha ''bin'' None ''h'' = Inr s"
    using build_resource_ok [OF m(2), of "''file''" _ "''bin''" "''h''" None] l
    by (auto simp: allowed_exts_def)
  from parse_resource_build [OF this] m s show ?thesis by (auto simp: wf_parts_def)
qed

end
