(* ===== verification/Capability.thy ===== *)
theory Capability
  imports ESR_Prelude
begin

text \<open>
  \<^verbatim>\<open>py/src/esr/capabilities.py\<close>: the file-backed capability checker of the adapters, its reload
  gated by the file's modification time, and the matching of held capabilities against a required
  permission. The matcher of the Elixir runtime
  (\<^verbatim>\<open>runtime/lib/esr/resource/capability/grants.ex\<close>), with which it must agree, is modelled beside it.

  The file is an argument: \<^const>\<open>None\<close> when it does not exist, otherwise its modification time and
  text. \<open>yaml_load\<close> stands for \<open>yaml.safe_load\<close>; its \<^const>\<open>None\<close> is \<open>YAMLError\<close>. Snapshot keys
  that are equal as numbers (\<open>1\<close> and \<open>True\<close>) are kept apart; only string keys are looked up.
\<close>

section \<open>Matching\<close>

text \<open>\<open>_split\<close>: \<open><prefix>:<name>/<perm>\<close>.\<close>

definition cap_split :: "string \<Rightarrow> (string \<times> string \<times> string) option" where
  "cap_split s =
     (if CHR ''/'' \<notin> set s then None
      else let scope = before CHR ''/'' s; perm = after CHR ''/'' s in
           if CHR '':'' \<notin> set scope then None
           else Some (before CHR '':'' scope, after CHR '':'' scope, perm))"

definition segment_match :: "string \<Rightarrow> string \<Rightarrow> bool" where
  "segment_match held required = (held = ''*'' \<or> held = required)"

definition cap_matches :: "string \<Rightarrow> string \<Rightarrow> bool" where
  "cap_matches held required =
     (if held = ''*'' then True
      else (case (cap_split held, cap_split required) of
              (Some (h_prefix, h_name, h_perm), Some (r_prefix, r_name, r_perm)) \<Rightarrow>
                if h_prefix \<noteq> r_prefix then False
                else segment_match h_name r_name \<and> segment_match h_perm r_perm
            | _ \<Rightarrow> False))"

text \<open>
  A capability list of the file may hold any value. \<open>"/" not in v\<close> works on every container and
  raises on a scalar; a container that holds \<open>"/"\<close> then fails at \<open>.split\<close>.
\<close>

definition split_val :: "py_val \<Rightarrow> (string \<times> string \<times> string) option res" where
  "split_val v =
     (let container = (\<lambda>xs. if PyStr ''/'' \<in> set xs then Inl (attr_error v ''split'') else Inr None) in
      case v of
        PyStr s \<Rightarrow> Inr (cap_split s)
      | PyList xs \<Rightarrow> container xs
      | PyTuple xs \<Rightarrow> container xs
      | PySet xs \<Rightarrow> container xs
      | PyDict kvs \<Rightarrow> container (map fst kvs)
      | _ \<Rightarrow> Inl (type_error (''argument of type '' @ repr_str (type_name v) @ '' is not iterable'')))"

definition matches_val :: "py_val \<Rightarrow> string \<Rightarrow> bool res" where
  "matches_val held required =
     (if held = PyStr ''*'' then Inr True
      else rbind (split_val held) (\<lambda>h.
        case (h, cap_split required) of
          (Some (h_prefix, h_name, h_perm), Some (r_prefix, r_name, r_perm)) \<Rightarrow>
            if h_prefix \<noteq> r_prefix then Inr False
            else Inr (segment_match h_name r_name \<and> segment_match h_perm r_perm)
        | _ \<Rightarrow> Inr False))"

text \<open>\<open>any(...)\<close> stops at the first match.\<close>

fun any_match :: "py_val list \<Rightarrow> string \<Rightarrow> bool res" where
  "any_match [] required = Inr False"
| "any_match (h # hs) required =
     rbind (matches_val h required) (\<lambda>b. if b then Inr True else any_match hs required)"

text \<open>The runtime's matcher, with its fallback on equal strings.\<close>

definition ex_split :: "string \<Rightarrow> (string \<times> string \<times> string) option" where
  "ex_split s =
     (case split_on CHR ''/'' s of
        scope # p # ps \<Rightarrow>
          (case split_on CHR '':'' scope of
             prefix # n # ns \<Rightarrow> Some (prefix, join '':'' (n # ns), join ''/'' (p # ps))
           | _ \<Rightarrow> None)
      | _ \<Rightarrow> None)"

definition ex_matches :: "string \<Rightarrow> string \<Rightarrow> bool" where
  "ex_matches held required =
     (held = ''*'' \<or> held = required \<or>
      (case (ex_split held, ex_split required) of
         (Some (hp, hn, hq), Some (rp, rn, rq)) \<Rightarrow>
           hp = rp \<and> (hn = ''*'' \<or> hn = rn) \<and> (hq = ''*'' \<or> hq = rq)
       | _ \<Rightarrow> False))"


section \<open>The checker\<close>

type_synonym cap_file = "(int \<times> string) option"
type_synonym cap_snapshot = "(py_val \<times> py_val list) list"

record checker =
  cc_snapshot :: cap_snapshot
  cc_mtime :: "int option"

definition new_checker :: checker where
  "new_checker = \<lparr>cc_snapshot = [], cc_mtime = None\<rparr>"

text \<open>The comprehension over \<open>principals\<close>: later entries of the same id overwrite earlier ones.\<close>

fun snapshot_of :: "py_val list \<Rightarrow> cap_snapshot \<Rightarrow> cap_snapshot res" where
  "snapshot_of [] acc = Inr acc"
| "snapshot_of (entry # es) acc =
     (case entry of
        PyDict kvs \<Rightarrow>
          (case dget ''id'' kvs of
             None \<Rightarrow> snapshot_of es acc
           | Some i \<Rightarrow>
               rbind (py_iter (dget_or ''capabilities'' (PyList []) kvs)) (\<lambda>caps.
                 if hashable i then snapshot_of es (dset i caps acc)
                 else Inl (type_error (''unhashable type: '' @ repr_str (type_name i)))))
      | _ \<Rightarrow> snapshot_of es acc)"

text \<open>From the loaded document to the snapshot.\<close>

definition doc_snapshot :: "py_val \<Rightarrow> cap_snapshot res" where
  "doc_snapshot loaded =
     rbind (py_get (py_or loaded (PyDict [])) ''principals'' PyNone) (\<lambda>p.
     rbind (py_iter (py_or p (PyList []))) (\<lambda>entries. snapshot_of entries []))"

text \<open>\<open>reload\<close>. An exception leaves the checker as it was.\<close>

definition reload :: "(string \<Rightarrow> py_val option) \<Rightarrow> cap_file \<Rightarrow> checker \<Rightarrow> checker res" where
  "reload yaml_load file c =
     (case file of
        None \<Rightarrow>
          Inr (if cc_mtime c \<noteq> None \<or> cc_snapshot c \<noteq> []
               then c\<lparr>cc_snapshot := [], cc_mtime := None\<rparr> else c)
      | Some (mtime, txt) \<Rightarrow>
          if cc_mtime c \<noteq> None \<and> cc_mtime c = Some mtime then Inr c
          else (case yaml_load txt of
                  None \<Rightarrow> Inr (c\<lparr>cc_mtime := Some mtime\<rparr>)
                | Some loaded \<Rightarrow>
                    rbind (doc_snapshot loaded) (\<lambda>snap.
                      Inr (c\<lparr>cc_snapshot := snap, cc_mtime := Some mtime\<rparr>))))"

definition checker_init :: "(string \<Rightarrow> py_val option) \<Rightarrow> cap_file \<Rightarrow> checker res" where
  "checker_init yaml_load file = reload yaml_load file new_checker"

text \<open>\<open>has\<close> returns its verdict and the checker it leaves behind.\<close>

definition has_cap ::
  "(string \<Rightarrow> py_val option) \<Rightarrow> cap_file \<Rightarrow> checker \<Rightarrow> string \<Rightarrow> string \<Rightarrow> bool res \<times> checker"
where
  "has_cap yaml_load file c principal_id permission =
     (case reload yaml_load file c of
        Inl e \<Rightarrow> (Inl e, c)
      | Inr c' \<Rightarrow>
          (any_match (case map_of (cc_snapshot c') (PyStr principal_id) of None \<Rightarrow> [] | Some held \<Rightarrow> held)
             permission, c'))"

text \<open>The checker after a history of calls, each seeing the file in some state.\<close>

definition observe :: "(string \<Rightarrow> py_val option) \<Rightarrow> cap_file \<Rightarrow> checker \<Rightarrow> checker" where
  "observe yaml_load file c = (case reload yaml_load file c of Inl _ \<Rightarrow> c | Inr c' \<Rightarrow> c')"

definition observe_all :: "(string \<Rightarrow> py_val option) \<Rightarrow> cap_file list \<Rightarrow> checker" where
  "observe_all yaml_load files = fold (observe yaml_load) files new_checker"

text \<open>
  The abstract checker has no cache: it reads the file at every call, takes over a document it can
  read, forgets everything when the file is missing, and keeps what it had otherwise.
\<close>

definition reread :: "(string \<Rightarrow> py_val option) \<Rightarrow> cap_file \<Rightarrow> cap_snapshot \<Rightarrow> cap_snapshot" where
  "reread yaml_load file snap =
     (case file of
        None \<Rightarrow> []
      | Some (_, txt) \<Rightarrow>
          (case yaml_load txt of
             None \<Rightarrow> snap
           | Some loaded \<Rightarrow> (case doc_snapshot loaded of Inl _ \<Rightarrow> snap | Inr s \<Rightarrow> s)))"

text \<open>A modification time identifies the text among the observed versions.\<close>

definition mtime_coherent :: "cap_file list \<Rightarrow> bool" where
  "mtime_coherent files =
     (\<forall>f\<in>set files. \<forall>g\<in>set files. case (f, g) of
        (Some (m, t), Some (m', t')) \<Rightarrow> m = m' \<longrightarrow> t = t'
      | _ \<Rightarrow> True)"


section \<open>Lemmas on matching\<close>

lemma cap_split_Some:
  "cap_split s = Some (p, n, q) \<longleftrightarrow>
     s = p @ '':'' @ n @ ''/'' @ q \<and> set p \<inter> set '':/'' = {} \<and> CHR ''/'' \<notin> set n"
proof
  assume *: "cap_split s = Some (p, n, q)"
  then have mem: "CHR ''/'' \<in> set s" "CHR '':'' \<in> set (before CHR ''/'' s)"
    and pnq: "p = before CHR '':'' (before CHR ''/'' s)" "n = after CHR '':'' (before CHR ''/'' s)"
      "q = after CHR ''/'' s"
    by (auto simp: cap_split_def Let_def split: if_splits)
  have "set p \<subseteq> set (before CHR ''/'' s)" "set n \<subseteq> set (before CHR ''/'' s)"
    by (simp_all add: pnq set_before set_after)
  then have "CHR ''/'' \<notin> set p" "CHR ''/'' \<notin> set n" "CHR '':'' \<notin> set p"
    using before_notin [of "CHR ''/''" s] by (auto simp: pnq)
  moreover have "s = p @ '':'' @ n @ ''/'' @ q"
  proof -
    have "before CHR ''/'' s = p @ CHR '':'' # n"
      unfolding pnq by (rule before_after [OF mem(2)])
    moreover have "s = before CHR ''/'' s @ CHR ''/'' # q"
      unfolding pnq by (rule before_after [OF mem(1)])
    ultimately show ?thesis by simp
  qed
  ultimately show "s = p @ '':'' @ n @ ''/'' @ q \<and> set p \<inter> set '':/'' = {} \<and> CHR ''/'' \<notin> set n"
    by simp
next
  assume *: "s = p @ '':'' @ n @ ''/'' @ q \<and> set p \<inter> set '':/'' = {} \<and> CHR ''/'' \<notin> set n"
  then have "before CHR ''/'' ((p @ '':'' @ n) @ CHR ''/'' # q) = p @ '':'' @ n"
    "after CHR ''/'' ((p @ '':'' @ n) @ CHR ''/'' # q) = q"
    by (intro before_append after_append; simp)+
  with * show "cap_split s = Some (p, n, q)"
    by (simp add: cap_split_def Let_def)
qed

lemma matches_val_PyStr: "matches_val (PyStr h) r = Inr (cap_matches h r)"
  by (auto simp: matches_val_def cap_matches_def split_val_def split: option.splits)

lemma any_match_strings: "any_match (map PyStr hs) r = Inr (\<exists>h\<in>set hs. cap_matches h r)"
  by (induction hs) (auto simp: matches_val_PyStr)

lemma cap_matches_iff:
  "cap_matches h r \<longleftrightarrow> h = ''*'' \<or>
     (\<exists>p hn hq rn rq. cap_split h = Some (p, hn, hq) \<and> cap_split r = Some (p, rn, rq) \<and>
        segment_match hn rn \<and> segment_match hq rq)"
  by (auto simp: cap_matches_def split: option.splits)

lemma segment_match_trans: "segment_match a b \<Longrightarrow> segment_match b c \<Longrightarrow> segment_match a c"
  by (auto simp: segment_match_def)

lemma cap_split_star: "cap_split ''*'' = None"
  by (simp add: cap_split_def)

lemma split_on_cases:
  obtains "c \<notin> set s" "split_on c s = [s]"
  | y ys where "c \<in> set s" "split_on c s = before c s # y # ys" "join [c] (y # ys) = after c s"
proof (cases "c \<in> set s")
  case True
  have "split_on c s = split_on c (before c s @ c # after c s)"
    using before_after [OF True] by simp
  also have "\<dots> = before c s # split_on c (after c s)"
    by (rule split_on_append) simp
  finally have "split_on c s = before c s # split_on c (after c s)" .
  with True that(2) show ?thesis
    using join_split_on [of c "after c s"] by (cases "split_on c (after c s)") auto
next
  case False
  then show ?thesis using that(1) split_on_absent by metis
qed

lemma ex_split_eq: "ex_split s = cap_split s"
proof (rule split_on_cases [of "CHR ''/''" s])
  assume "CHR ''/'' \<notin> set s" "split_on CHR ''/'' s = [s]"
  then show ?thesis by (simp add: ex_split_def cap_split_def)
next
  fix y ys
  assume s: "CHR ''/'' \<in> set s" "split_on CHR ''/'' s = before CHR ''/'' s # y # ys"
    "join ''/'' (y # ys) = after CHR ''/'' s"
  show ?thesis
  proof (rule split_on_cases [of "CHR '':''" "before CHR ''/'' s"])
    assume "CHR '':'' \<notin> set (before CHR ''/'' s)"
      "split_on CHR '':'' (before CHR ''/'' s) = [before CHR ''/'' s]"
    with s show ?thesis by (simp add: ex_split_def cap_split_def)
  next
    fix z zs
    assume "CHR '':'' \<in> set (before CHR ''/'' s)"
      "split_on CHR '':'' (before CHR ''/'' s) = before CHR '':'' (before CHR ''/'' s) # z # zs"
      "join '':'' (z # zs) = after CHR '':'' (before CHR ''/'' s)"
    with s show ?thesis by (simp add: ex_split_def cap_split_def Let_def del: join.simps)
  qed
qed


section \<open>Lemmas on reloading\<close>

lemma new_checker_simps [simp]: "cc_snapshot new_checker = []" "cc_mtime new_checker = None"
  by (simp_all add: new_checker_def)

text \<open>
  The cache invariant: the recorded modification time is that of an observed version, and reading
  that version again would change nothing.
\<close>

definition cache_ok :: "(string \<Rightarrow> py_val option) \<Rightarrow> cap_file set \<Rightarrow> checker \<Rightarrow> bool" where
  [inv_simps]: "cache_ok yaml_load seen c \<longleftrightarrow>
     (case cc_mtime c of
        None \<Rightarrow> cc_snapshot c = []
      | Some m \<Rightarrow> \<exists>t. Some (m, t) \<in> seen \<and> reread yaml_load (Some (m, t)) (cc_snapshot c) = cc_snapshot c)"

lemma cache_ok_mono: "cache_ok y A c \<Longrightarrow> A \<subseteq> B \<Longrightarrow> cache_ok y B c"
  by (auto simp: cache_ok_def split: option.splits)

lemma cache_ok_new [simp]: "cache_ok y A new_checker"
  by (simp add: cache_ok_def)

lemma observe_refines:
  assumes inv: "cache_ok y seen c"
    and coh: "\<And>m t t'. Some (m, t) \<in> insert f seen \<Longrightarrow> Some (m, t') \<in> insert f seen \<Longrightarrow> t = t'"
  shows "cc_snapshot (observe y f c) = reread y f (cc_snapshot c) \<and>
    cache_ok y (insert f seen) (observe y f c)"
proof (cases f)
  case None
  then show ?thesis
    using inv by (auto simp: observe_def reload_def reread_def cache_ok_def split: option.splits)
next
  case (Some mt)
  obtain m t where f: "f = Some (m, t)" using Some by (cases mt) auto
  show ?thesis
  proof (cases "cc_mtime c = Some m")
    case True
    then obtain t' where t': "Some (m, t') \<in> seen"
      "reread y (Some (m, t')) (cc_snapshot c) = cc_snapshot c"
      using inv by (auto simp: cache_ok_def)
    with coh [of m t t'] f have "t' = t" by auto
    with True f t' inv show ?thesis
      by (auto simp: observe_def reload_def cache_ok_def)
  next
    case False
    have keep: "cache_ok y (insert f seen) c"
      using inv by (rule cache_ok_mono) blast
    have step: "cache_ok y (insert f seen) (c\<lparr>cc_snapshot := s, cc_mtime := Some m\<rparr>)"
      if "reread y f s = s" for s
      using that f by (auto simp: cache_ok_def)
    show ?thesis
    proof (cases "y t")
      case None
      with False f have "observe y f c = c\<lparr>cc_snapshot := cc_snapshot c, cc_mtime := Some m\<rparr>"
        "reread y f s = s" for s
        by (simp_all add: observe_def reload_def reread_def)
      with step [of "cc_snapshot c"] show ?thesis by simp
    next
      case (Some l)
      show ?thesis
      proof (cases "doc_snapshot l")
        case (Inl e)
        with False f Some have "observe y f c = c" "reread y f (cc_snapshot c) = cc_snapshot c"
          by (simp_all add: observe_def reload_def reread_def)
        with keep show ?thesis by simp
      next
        case (Inr s')
        with False f Some have "observe y f c = c\<lparr>cc_snapshot := s', cc_mtime := Some m\<rparr>"
          "reread y f s = s'" for s
          by (simp_all add: observe_def reload_def reread_def)
        with step show ?thesis by simp
      qed
    qed
  qed
qed

lemma observe_all_refines:
  assumes "mtime_coherent files"
  shows "cc_snapshot (observe_all y files) = fold (reread y) files [] \<and>
    cache_ok y (set files) (observe_all y files)"
  using assms
proof (induction files rule: rev_induct)
  case (snoc f fs)
  from snoc.prems have "mtime_coherent fs"
    by (simp add: mtime_coherent_def)
  note IH = snoc.IH [OF this]
  have coh: "t = t'" if "Some (m, t) \<in> insert f (set fs)" "Some (m, t') \<in> insert f (set fs)" for m t t'
    using snoc.prems that unfolding mtime_coherent_def by fastforce
  from observe_refines [OF IH [THEN conjunct2] coh] IH show ?case
    by (simp add: observe_all_def)
qed (simp add: observe_all_def)

lemma has_cap_observe: "snd (has_cap y f c p q) = observe y f c"
  by (simp add: has_cap_def observe_def split: sum.splits)

lemma snapshot_of_strings:
  "snapshot_of (map (\<lambda>(p, cs). PyDict (mkdict [(''id'', PyStr p), (''capabilities'', PyList (map PyStr cs))])) ps) acc
    = Inr (fold (\<lambda>(p, cs). dset (PyStr p) (map PyStr cs)) ps acc)"
  by (induction ps arbitrary: acc) (auto simp: dget_or_def)

text \<open>Where a snapshot comes from, whatever the modification times are.\<close>

lemma reload_source:
  assumes "reload y f c = Inr c'"
  shows "cc_snapshot c' = [] \<or> cc_snapshot c' = cc_snapshot c \<or>
    (\<exists>m t l. f = Some (m, t) \<and> y t = Some l \<and> doc_snapshot l = Inr (cc_snapshot c'))"
  using assms by (auto simp: reload_def rbind_Inr_iff split: option.splits if_splits)

lemma observe_all_source:
  "cc_snapshot (observe_all y files) = [] \<or>
   (\<exists>m t l. Some (m, t) \<in> set files \<and> y t = Some l \<and>
      doc_snapshot l = Inr (cc_snapshot (observe_all y files)))"
proof (induction files rule: rev_induct)
  case (snoc f fs)
  show ?case
  proof (cases "reload y f (observe_all y fs)")
    case (Inl e)
    then have "observe_all y (fs @ [f]) = observe_all y fs"
      by (simp add: observe_all_def observe_def)
    with snoc show ?thesis by auto
  next
    case (Inr c)
    then have "observe_all y (fs @ [f]) = c"
      by (simp add: observe_all_def observe_def)
    with reload_source [OF Inr] snoc show ?thesis
      by (metis Un_iff list.set_intros(1) set_append)
  qed
qed (simp add: observe_all_def)

lemma has_cap_Inr:
  assumes "fst (has_cap y f (observe_all y files) p q) = Inr b"
  shows "any_match (case map_of (cc_snapshot (observe_all y (files @ [f]))) (PyStr p) of
    None \<Rightarrow> [] | Some held \<Rightarrow> held) q = Inr b"
  using assms by (simp add: has_cap_def observe_all_def observe_def split: sum.splits)

lemma any_match_True: "any_match hs q = Inr True \<Longrightarrow> \<exists>h\<in>set hs. matches_val h q = Inr True"
  by (induction hs) (auto simp: rbind_Inr_iff split: if_splits)


section \<open>Properties\<close>

text \<open>
  C3. A verdict \<open>True\<close> of \<open>has\<close> is always backed by the file: after any history of reloads, some version
  of the file that the checker has seen lists the principal with a capability that matches, and the
  file exists now. Caching never invents a grant and never outlives the file.
\<close>

theorem has_grant_is_backed:
  assumes "fst (has_cap y f (observe_all y files) p q) = Inr True"
  shows "f \<noteq> None \<and> (\<exists>m t l snap held h. Some (m, t) \<in> set (files @ [f]) \<and> y t = Some l \<and>
    doc_snapshot l = Inr snap \<and> map_of snap (PyStr p) = Some held \<and> h \<in> set held \<and>
    matches_val h q = Inr True)"
proof -
  define c where "c = observe_all y (files @ [f])"
  from has_cap_Inr [OF assms] obtain held h where
    h: "map_of (cc_snapshot c) (PyStr p) = Some held" "h \<in> set held" "matches_val h q = Inr True"
    by (auto simp: c_def split: option.splits dest!: any_match_True)
  then have ne: "cc_snapshot c \<noteq> []" by auto
  have "f \<noteq> None"
    using ne by (auto simp: c_def observe_all_def observe_def reload_def split: option.splits if_splits)
  with ne h observe_all_source [of y "files @ [f]"] show ?thesis
    unfolding c_def by blast
qed

text \<open>
  C4. The modification-time cache is transparent: when a modification time identifies the text, the
  checker after any history holds exactly what a checker that rereads the file at every call would
  hold (readable documents are taken over, a malformed one keeps the previous grants, a missing file
  denies everything), and \<open>has\<close> answers accordingly.
\<close>

theorem mtime_cache_transparent:
  assumes "mtime_coherent (files @ [f])" "is_ok (reload y f (observe_all y files))"
  shows "fst (has_cap y f (observe_all y files) p q) =
    any_match (case map_of (fold (reread y) (files @ [f]) []) (PyStr p) of None \<Rightarrow> [] | Some held \<Rightarrow> held) q"
proof -
  from assms(2) obtain c where "reload y f (observe_all y files) = Inr c"
    by (auto simp: is_ok_iff)
  moreover from this have "c = observe_all y (files @ [f])"
    by (simp add: observe_all_def observe_def)
  ultimately show ?thesis
    using observe_all_refines [OF assms(1), of y] by (simp add: has_cap_def)
qed

text \<open>A small document language for the examples: the text is a principal and the capability \<open>*\<close>.\<close>

definition demo_yaml :: "string \<Rightarrow> py_val option" where
  "demo_yaml t = (if t = ''!'' then None else Some (PyDict (mkdict [(''principals'',
     PyList [PyDict (mkdict [(''id'', PyStr t), (''capabilities'', PyList [PyStr ''*''])])])])))"

theorem has_grant_is_backed_witness:
  "Some (1 :: int, ''ou'') \<noteq> None \<and> (\<exists>m t l snap held h. Some (m, t) \<in> set ([None] @ [Some (1 :: int, ''ou'')]) \<and>
    demo_yaml t = Some l \<and> doc_snapshot l = Inr snap \<and> map_of snap (PyStr ''ou'') = Some held \<and>
    h \<in> set held \<and> matches_val h ''workspace:w/msg.send'' = Inr True)"
  by (rule has_grant_is_backed [where files = "[None]" and f = "Some (1, ''ou'')"]) code_simp

theorem mtime_cache_transparent_witness:
  "fst (has_cap demo_yaml (Some (2, ''!'')) (observe_all demo_yaml [Some (1, ''ou'')]) ''ou'' ''x'') = Inr True"
proof -
  have "mtime_coherent ([Some (1, ''ou'')] @ [Some (2, ''!'')])" by code_simp
  moreover have "is_ok (reload demo_yaml (Some (2, ''!'')) (observe_all demo_yaml [Some (1, ''ou'')]))"
    by code_simp
  moreover have "any_match (case map_of (fold (reread demo_yaml) ([Some (1, ''ou'')] @ [Some (2, ''!'')]) [])
    (PyStr ''ou'') of None \<Rightarrow> [] | Some held \<Rightarrow> held) ''x'' = Inr True" by code_simp
  ultimately show ?thesis
    using mtime_cache_transparent [of "[Some (1, ''ou'')]" "Some (2, ''!'')" demo_yaml "''ou''" "''x''"]
    by simp
qed

text \<open>
  C18. What \<open>_matches\<close> decides: a held capability matches when it is the bare \<open>*\<close>, or when both texts have
  the shape \<open><prefix>:<name>/<perm>\<close> with the same prefix and each of the other two segments is equal or
  a held \<open>*\<close>. Nothing else matches; in particular no prefix glob does.
\<close>

theorem cap_matches_spec:
  "cap_matches held required \<longleftrightarrow> held = ''*'' \<or>
     (\<exists>p hn hq rn rq. held = p @ '':'' @ hn @ ''/'' @ hq \<and> required = p @ '':'' @ rn @ ''/'' @ rq \<and>
        set p \<inter> set '':/'' = {} \<and> CHR ''/'' \<notin> set hn \<and> CHR ''/'' \<notin> set rn \<and>
        (hn = ''*'' \<or> hn = rn) \<and> (hq = ''*'' \<or> hq = rq))"
  unfolding cap_matches_iff cap_split_Some segment_match_def by blast

text \<open>Delegation is sound: what a capability covers is covered by everything that covers it.\<close>

lemma cap_matches_trans: "cap_matches a b \<Longrightarrow> cap_matches b c \<Longrightarrow> cap_matches a c"
  unfolding cap_matches_iff using segment_match_trans cap_split_star by fastforce

text \<open>
  C20. Lane A and Lane B: the runtime's matcher accepts exactly what the adapters' matcher accepts, plus a
  held capability equal to the required one. The two differ precisely on equal texts that do not have
  the shape \<open><prefix>:<name>/<perm>\<close>, such as \<open>session.list\<close>.
\<close>

theorem runtime_matcher_agreement:
  "(ex_matches held required \<longleftrightarrow> cap_matches held required \<or> held = required) \<and>
   (ex_matches held required \<noteq> cap_matches held required \<longleftrightarrow>
      held = required \<and> held \<noteq> ''*'' \<and> cap_split held = None)"
proof -
  have ex: "ex_matches held required \<longleftrightarrow> cap_matches held required \<or> held = required"
    by (auto simp: ex_matches_def cap_matches_def ex_split_eq segment_match_def split: option.splits)
  moreover have "cap_matches held held \<longleftrightarrow> held = ''*'' \<or> cap_split held \<noteq> None"
    by (auto simp: cap_matches_def segment_match_def split: option.splits)
  ultimately show ?thesis by (cases "cap_split held") auto
qed

end
