(* ===== verification/Workspaces.thy ===== *)
theory Workspaces
  imports ESR_Prelude
begin

text \<open>
  \<^verbatim>\<open>py/src/esr/workspaces.py\<close>: reading, adding and removing entries of \<open>workspaces.yaml\<close>. The file is
  its text, \<^const>\<open>None\<close> when it does not exist; an operation that writes returns the new text.
  \<open>yaml_load\<close> and \<open>yaml_dump\<close> stand for \<open>yaml.safe_load\<close> and \<open>yaml.safe_dump(_, sort_keys=True)\<close>.
\<close>

section \<open>Operations\<close>

definition SCHEMA_VERSION :: int where
  "SCHEMA_VERSION = 1"

record workspace =
  ws_name :: py_val
  ws_owner :: py_val
  ws_start_cmd :: py_val
  ws_role :: py_val
  ws_chats :: "py_val list"
  ws_env :: py_kvs

definition read_row :: "py_val \<Rightarrow> py_val \<Rightarrow> workspace res" where
  "read_row name row =
     rbind (py_get row ''owner'' PyNone) (\<lambda>owner.
     rbind (py_get row ''start_cmd'' (PyStr [])) (\<lambda>start_cmd.
     rbind (py_get row ''role'' (PyStr ''dev'')) (\<lambda>role.
     rbind (py_get row ''chats'' PyNone) (\<lambda>chats.
     rbind (py_iter (py_or chats (PyList []))) (\<lambda>chat_list.
     rbind (py_get row ''env'' PyNone) (\<lambda>env.
     rbind (py_dict (py_or env (PyDict []))) (\<lambda>env_dict.
       Inr \<lparr>ws_name = name, ws_owner = owner, ws_start_cmd = start_cmd, ws_role = role,
            ws_chats = chat_list, ws_env = env_dict\<rparr>)))))))"

fun read_rows :: "py_kvs \<Rightarrow> (py_val \<times> workspace) list \<Rightarrow> (py_val \<times> workspace) list res" where
  "read_rows [] out = Inr out"
| "read_rows ((name, row) # rows) out = rbind (read_row name row) (\<lambda>w. read_rows rows (dset name w out))"

definition read_workspaces ::
  "(string \<Rightarrow> py_val res) \<Rightarrow> string option \<Rightarrow> (py_val \<times> workspace) list res"
where
  "read_workspaces yaml_load file =
     (case file of
        None \<Rightarrow> Inr []
      | Some txt \<Rightarrow>
          rbind (yaml_load txt) (\<lambda>loaded.
          rbind (py_get (py_or loaded (PyDict [])) ''workspaces'' PyNone) (\<lambda>w.
            case py_or w (PyDict []) of
              PyDict rows \<Rightarrow> read_rows rows []
            | v \<Rightarrow> Inl (attr_error v ''items''))))"

definition setdefault :: "string \<Rightarrow> py_val \<Rightarrow> py_kvs \<Rightarrow> py_kvs" where
  "setdefault k v d = (if has_key (PyStr k) d then d else dset (PyStr k) v d)"

definition row_of :: "workspace \<Rightarrow> py_kvs" where
  "row_of w =
     (let row = mkdict [(''start_cmd'', ws_start_cmd w), (''role'', ws_role w),
                        (''chats'', PyList (ws_chats w)), (''env'', PyDict (ws_env w))]
      in if ws_owner w \<noteq> PyNone then dset (PyStr ''owner'') (ws_owner w) row else row)"

definition write_workspace ::
  "(string \<Rightarrow> py_val res) \<Rightarrow> (py_val \<Rightarrow> string res) \<Rightarrow> string option \<Rightarrow> workspace \<Rightarrow> string res"
where
  "write_workspace yaml_load yaml_dump file w =
     rbind (case file of None \<Rightarrow> Inr (PyDict [])
            | Some txt \<Rightarrow> rbind (yaml_load txt) (\<lambda>loaded. Inr (py_or loaded (PyDict [])))) (\<lambda>doc.
       case doc of
         PyDict d0 \<Rightarrow>
           let d1 = setdefault ''schema_version'' (PyInt SCHEMA_VERSION) d0;
               d = setdefault ''workspaces'' (PyDict []) d1;
               workspaces = dget_or ''workspaces'' (PyDict []) d
           in rbind (py_in (ws_name w) workspaces) (\<lambda>taken.
                if taken then
                  Inl (value_error (''workspace '' @ py_repr (ws_name w) @ '' already exists''))
                else (case workspaces of
                        PyDict rows \<Rightarrow>
                          yaml_dump (PyDict (dset (PyStr ''workspaces'')
                            (PyDict (dset (ws_name w) (PyDict (row_of w)) rows)) d))
                      | PyList _ \<Rightarrow> Inl (type_error ''list indices must be integers or slices, not str'')
                      | v \<Rightarrow> Inl (type_error
                          (repr_str (type_name v) @ '' object does not support item assignment''))))
       | v \<Rightarrow> Inl (attr_error v ''setdefault''))"

text \<open>The result and, when the file was rewritten, its new text.\<close>

definition remove_workspace ::
  "(string \<Rightarrow> py_val res) \<Rightarrow> (py_val \<Rightarrow> string res) \<Rightarrow> string option \<Rightarrow> py_val \<Rightarrow> (bool \<times> string option) res"
where
  "remove_workspace yaml_load yaml_dump file name =
     (case file of
        None \<Rightarrow> Inr (False, None)
      | Some txt \<Rightarrow>
          rbind (yaml_load txt) (\<lambda>loaded.
            let doc = py_or loaded (PyDict []) in
            rbind (py_get doc ''workspaces'' PyNone) (\<lambda>w.
            let ws = py_or w (PyDict []) in
            rbind (py_in name ws) (\<lambda>present.
              if \<not> present then Inr (False, None)
              else (case (doc, ws) of
                      (PyDict d, PyDict rows) \<Rightarrow>
                        rbind (yaml_dump (PyDict (dset (PyStr ''workspaces'') (PyDict (ddel name rows)) d)))
                          (\<lambda>t. Inr (True, Some t))
                    | (_, PyList _) \<Rightarrow> Inl (type_error ''list indices must be integers or slices, not str'')
                    | (_, v) \<Rightarrow> Inl (type_error
                        (repr_str (type_name v) @ '' object does not support item deletion'')))))))"


section \<open>What the operations rely on\<close>

text \<open>Dumping a plain document gives a text that loads to the document with its keys sorted.\<close>

definition yaml_faithful :: "(string \<Rightarrow> py_val res) \<Rightarrow> (py_val \<Rightarrow> string res) \<Rightarrow> bool" where
  "yaml_faithful yaml_load yaml_dump \<longleftrightarrow>
     (\<forall>d. plain_doc d \<longrightarrow> (\<exists>t. yaml_dump d = Inr t \<and> yaml_load t = Inr (sort_doc d)))"

text \<open>A row as the schema has it.\<close>

definition wf_row :: "py_val \<Rightarrow> bool" where
  "wf_row row =
     (case row of
        PyDict kvs \<Rightarrow>
          (case dget_or ''chats'' PyNone kvs of PyNone \<Rightarrow> True | PyList _ \<Rightarrow> True | _ \<Rightarrow> False) \<and>
          (case dget_or ''env'' PyNone kvs of PyNone \<Rightarrow> True | PyDict _ \<Rightarrow> True | _ \<Rightarrow> False)
      | _ \<Rightarrow> False)"

definition doc_rows :: "py_kvs \<Rightarrow> py_kvs option" where
  "doc_rows d =
     (case dget ''workspaces'' d of None \<Rightarrow> Some [] | Some (PyDict rows) \<Rightarrow> Some rows | _ \<Rightarrow> None)"

text \<open>A file the schema allows: absent, or a plain document whose rows are well formed.\<close>

definition wf_file :: "(string \<Rightarrow> py_val res) \<Rightarrow> string option \<Rightarrow> py_kvs \<Rightarrow> bool" where
  "wf_file yaml_load file d \<longleftrightarrow>
     plain_doc (PyDict d) \<and>
     (case doc_rows d of None \<Rightarrow> False | Some rows \<Rightarrow> \<forall>kv\<in>set rows. wf_row (snd kv)) \<and>
     (case file of None \<Rightarrow> d = [] | Some txt \<Rightarrow> yaml_load txt = Inr (PyDict d))"

definition sort_ws :: "workspace \<Rightarrow> workspace" where
  "sort_ws w = w\<lparr>ws_owner := sort_doc (ws_owner w), ws_start_cmd := sort_doc (ws_start_cmd w),
     ws_role := sort_doc (ws_role w), ws_chats := map sort_doc (ws_chats w), ws_env := sort_kvs (ws_env w)\<rparr>"

definition plain_ws :: "workspace \<Rightarrow> bool" where
  "plain_ws w \<longleftrightarrow> (\<exists>s. ws_name w = PyStr s) \<and> plain_doc (PyDict (row_of w))"


section \<open>Lemmas\<close>

definition ws_of_row :: "py_val \<Rightarrow> py_val \<Rightarrow> workspace" where
  "ws_of_row n row = projr (read_row n row)"

lemma read_row_wf: "wf_row row \<Longrightarrow> read_row n row = Inr (ws_of_row n row)"
  by (auto simp: wf_row_def ws_of_row_def read_row_def py_or_def split: py_val.splits if_splits)

lemma read_rows_wf:
  assumes "\<forall>kv\<in>set rows. wf_row (snd kv)"
  shows "read_rows rows out = Inr (fold (\<lambda>(n, w). dset n w) (map (\<lambda>(n, r). (n, ws_of_row n r)) rows) out)"
  using assms by (induction rows arbitrary: out) (auto simp: read_row_wf)

lemma read_rows_distinct:
  assumes "\<forall>kv\<in>set rows. wf_row (snd kv)" "distinct (map fst rows)"
  shows "read_rows rows [] = Inr (map (\<lambda>(n, r). (n, ws_of_row n r)) rows)"
proof -
  have "distinct (map fst ([] @ map (\<lambda>(n, r). (n, ws_of_row n r)) rows))"
    using assms(2) by (simp add: o_def case_prod_unfold)
  from fold_dset_distinct [OF this] read_rows_wf [OF assms(1)] show ?thesis by simp
qed

lemma map_of_ws_rows:
  "map_of (map (\<lambda>(n, r). (n, ws_of_row n r)) rows) n = map_option (ws_of_row n) (map_of rows n)"
  by (induction rows) auto

lemma doc_rows_plain:
  assumes "plain_doc (PyDict d)" "doc_rows d = Some rows"
  shows "plain_doc (PyDict rows)"
proof (cases "dget ''workspaces'' d")
  case (Some v)
  with assms have "v = PyDict rows" by (auto simp: doc_rows_def split: py_val.splits)
  with Some have "(PyStr ''workspaces'', PyDict rows) \<in> set d"
    by (auto simp: dget_def dest: map_of_SomeD)
  with assms(1) show ?thesis by fastforce
qed (use assms in \<open>simp add: doc_rows_def\<close>)

lemma read_workspaces_wf:
  assumes "wf_file y file d" "doc_rows d = Some rows"
  shows "read_workspaces y file = Inr (map (\<lambda>(n, r). (n, ws_of_row n r)) rows)"
proof -
  from assms have wf: "\<forall>kv\<in>set rows. wf_row (snd kv)" and "plain_doc (PyDict d)"
    by (simp_all add: wf_file_def)
  from doc_rows_plain [OF this(2) assms(2)] have "distinct (map fst rows)" by simp
  note read = read_rows_distinct [OF wf this]
  show ?thesis
  proof (cases "file")
    case None
    with assms(1) have "d = []" by (simp add: wf_file_def)
    with None assms(2) show ?thesis by (simp add: doc_rows_def read_workspaces_def)
  next
    case (Some tx)
    with assms have load: "y tx = Inr (PyDict d)" by (simp add: wf_file_def)
    have "py_or (PyDict d) (PyDict []) = PyDict d" by (simp add: py_or_def)
    moreover have "py_or (dget_or ''workspaces'' PyNone d) (PyDict []) = PyDict rows"
      using assms(2) by (auto simp: doc_rows_def dget_or_def py_or_def split: option.splits py_val.splits)
    ultimately show ?thesis
      using Some load read by (simp add: read_workspaces_def)
  qed
qed

lemma sort_doc_plain: "plain_doc v \<Longrightarrow> plain_doc (sort_doc v)"
proof (induction v rule: sort_doc.induct)
  case (2 kvs)
  have ins: "\<forall>kv\<in>set kvs. plain_doc (sort_doc (snd kv))" using 2 by auto
  have "distinct (map fst (sort_kvs kvs))"
    using "2.prems" by (simp add: distinct_sort_kvs)
  with ins "2.prems" show ?case by (auto simp: sort_kvs_def)
qed auto

lemma sort_row:
  assumes "wf_row row" "plain_doc row"
  shows "wf_row (sort_doc row)" "ws_of_row n (sort_doc row) = sort_ws (ws_of_row n row)"
proof -
  from assms(1) obtain kvs where row: "row = PyDict kvs" by (auto simp: wf_row_def split: py_val.splits)
  with assms(2) have d: "distinct (map fst kvs)" by simp
  have g: "dget_or k v (sort_kvs kvs) = sort_doc (dget_or k v kvs)" if "sort_doc v = v" for k v
    using that by (simp add: dget_or_def dget_sort_kvs [OF d] split: option.splits)
  have c: "dget_or ''chats'' PyNone kvs = PyNone \<or> (\<exists>xs. dget_or ''chats'' PyNone kvs = PyList xs)"
    and e: "dget_or ''env'' PyNone kvs = PyNone \<or> (\<exists>xs. dget_or ''env'' PyNone kvs = PyDict xs)"
    using assms(1) row by (auto simp: wf_row_def split: py_val.splits)
  show "wf_row (sort_doc row)"
    using c e by (auto simp: row wf_row_def g)
  have s0: "sort_kvs [] = []" by (simp add: sort_kvs_def)
  have s1: "sort_kvs kvs \<noteq> []" if "kvs \<noteq> []" for kvs
    using that sort_doc_truthy [of "PyDict kvs"] by simp
  show "ws_of_row n (sort_doc row) = sort_ws (ws_of_row n row)"
    using c e by (auto simp: row ws_of_row_def read_row_def g sort_ws_def py_or_def s0 s1)
qed

lemma sort_kvs_doc_rows:
  assumes "plain_doc (PyDict d)" "doc_rows d = Some rows"
  shows "doc_rows (sort_kvs d) = Some (sort_kvs rows)"
proof -
  from assms(1) have "distinct (map fst d)" by simp
  note g = dget_sort_kvs [OF this]
  have "sort_kvs [] = []" by (simp add: sort_kvs_def)
  with assms(2) g show ?thesis
    by (auto simp: doc_rows_def split: option.splits py_val.splits)
qed

text \<open>A dumped file is again a file of the schema, with every dictionary sorted.\<close>

lemma dumped_file:
  assumes y: "yaml_faithful yl yd" and plain: "plain_doc (PyDict d)" and rows: "doc_rows d = Some rows"
    and wf: "\<forall>kv\<in>set rows. wf_row (snd kv)"
  obtains t new where "yd (PyDict d) = Inr t" "read_workspaces yl (Some t) = Inr new"
    "\<And>n. map_of new n = map_option (\<lambda>r. sort_ws (ws_of_row n r)) (map_of rows n)"
proof -
  from y plain obtain t where t: "yd (PyDict d) = Inr t" "yl t = Inr (PyDict (sort_kvs d))"
    by (auto simp: yaml_faithful_def simp del: plain_doc.simps)
  from doc_rows_plain [OF plain rows] have pr: "plain_doc (PyDict rows)" .
  then have dr: "distinct (map fst rows)" and prow: "\<And>kv. kv \<in> set rows \<Longrightarrow> plain_doc (snd kv)" by auto
  note rows' = sort_kvs_doc_rows [OF plain rows]
  have wf': "\<forall>kv\<in>set (sort_kvs rows). wf_row (snd kv)"
    using wf prow by (auto simp: sort_kvs_def sort_row)
  have "wf_file yl (Some t) (sort_kvs d)"
    using t rows' wf' sort_doc_plain [OF plain] by (simp add: wf_file_def del: plain_doc.simps)
  note read = read_workspaces_wf [OF this rows']
  have "map_option (ws_of_row n) (map_of (sort_kvs rows) n) =
    map_option (\<lambda>r. sort_ws (ws_of_row n r)) (map_of rows n)" for n
  proof (cases "map_of rows n")
    case (Some r)
    then have "(n, r) \<in> set rows" by (rule map_of_SomeD)
    with wf prow have "ws_of_row n (sort_doc r) = sort_ws (ws_of_row n r)"
      by (intro sort_row) force+
    with Some show ?thesis by (simp add: map_of_sort_kvs [OF dr])
  qed (simp add: map_of_sort_kvs [OF dr])
  with that [OF t(1) read] show thesis
    by (simp add: map_of_ws_rows)
qed

lemma wf_file_load:
  assumes "wf_file yl file d"
  shows "(case file of None \<Rightarrow> Inr (PyDict [])
    | Some txt \<Rightarrow> rbind (yl txt) (\<lambda>loaded. Inr (py_or loaded (PyDict [])))) = Inr (PyDict d)"
  using assms by (cases "file") (auto simp: wf_file_def py_or_def)

lemma plain_dset:
  "plain_doc (PyDict d) \<Longrightarrow> plain_doc v \<Longrightarrow> plain_doc (PyDict (dset (PyStr k) v d))"
proof -
  assume *: "plain_doc (PyDict d)" "plain_doc v"
  have "set (dset (PyStr k) v d) \<subseteq> insert (PyStr k, v) (set d)"
    by (induction "PyStr k" v d rule: dset.induct) auto
  then have "\<forall>kv\<in>set (dset (PyStr k) v d). (\<exists>s. fst kv = PyStr s) \<and> plain_doc (snd kv)"
    using * by auto
  with * show ?thesis by simp
qed

lemma plain_setdefault: "plain_doc (PyDict d) \<Longrightarrow> plain_doc v \<Longrightarrow> plain_doc (PyDict (setdefault k v d))"
  by (simp only: setdefault_def plain_dset split: if_split) simp

lemma plain_ddel: "plain_doc (PyDict d) \<Longrightarrow> plain_doc (PyDict (ddel k d))"
  by (auto simp: ddel_def distinct_map_filter)

lemma row_of_wf:
  assumes "plain_ws w"
  shows "wf_row (PyDict (row_of w))" "ws_of_row (ws_name w) (PyDict (row_of w)) = w"
  by (simp_all add: wf_row_def ws_of_row_def read_row_def row_of_def Let_def dget_or_def py_or_def)

definition with_defaults :: "py_kvs \<Rightarrow> py_kvs" where
  "with_defaults d =
     setdefault ''workspaces'' (PyDict []) (setdefault ''schema_version'' (PyInt SCHEMA_VERSION) d)"

lemma with_defaults_rows:
  assumes "doc_rows d = Some rows"
  shows "dget_or ''workspaces'' (PyDict []) (with_defaults d) = PyDict rows"
  using assms
  by (auto simp: with_defaults_def setdefault_def doc_rows_def dget_or_def dget_def
      split: option.splits py_val.splits)

lemma plain_with_defaults: "plain_doc (PyDict d) \<Longrightarrow> plain_doc (PyDict (with_defaults d))"
  unfolding with_defaults_def by (intro plain_setdefault) simp_all

lemma write_workspace_eq:
  assumes "wf_file yl file d" "plain_ws w" "doc_rows d = Some rows"
  shows "write_workspace yl yd file w =
    (if has_key (ws_name w) rows then
       Inl (value_error (''workspace '' @ py_repr (ws_name w) @ '' already exists''))
     else yd (PyDict (dset (PyStr ''workspaces'')
       (PyDict (dset (ws_name w) (PyDict (row_of w)) rows)) (with_defaults d))))"
proof -
  have "hashable (ws_name w)" using assms(2) by (auto simp: plain_ws_def)
  then show ?thesis
    unfolding write_workspace_def wf_file_load [OF assms(1)]
    by (simp add: Let_def py_in_def with_defaults_rows [OF assms(3)] flip: with_defaults_def)
qed

lemma remove_workspace_eq:
  assumes "wf_file yl (Some t) d" "doc_rows d = Some rows"
  shows "remove_workspace yl yd (Some t) (PyStr name) =
    (if has_key (PyStr name) rows then
       rbind (yd (PyDict (dset (PyStr ''workspaces'') (PyDict (ddel (PyStr name) rows)) d)))
         (\<lambda>t. Inr (True, Some t))
     else Inr (False, None))"
proof -
  have load: "yl t = Inr (PyDict d)" using assms(1) by (simp add: wf_file_def)
  have "py_or (PyDict d) (PyDict []) = PyDict d" by (simp add: py_or_def)
  moreover have "py_or (dget_or ''workspaces'' PyNone d) (PyDict []) = PyDict rows"
    using assms(2) by (auto simp: doc_rows_def dget_or_def py_or_def split: option.splits py_val.splits)
  ultimately show ?thesis
    by (simp add: remove_workspace_def load Let_def py_in_def)
qed


section \<open>Properties\<close>

text \<open>
  C34. Adding a workspace: on a file of the schema, \<open>write_workspace\<close> refuses a name that
  \<open>read_workspaces\<close> already returns, with \<open>ValueError\<close>; otherwise it writes a file from which
  \<open>read_workspaces\<close> returns the new workspace under its name and every other workspace unchanged
  (up to the order of keys, which the dump sorts).
\<close>

theorem write_then_read:
  assumes y: "yaml_faithful yl yd" and f: "wf_file yl file d" and w: "plain_ws w"
  shows "\<exists>old. read_workspaces yl file = Inr old \<and>
    (if has_key (ws_name w) old
     then \<exists>e. write_workspace yl yd file w = Inl e \<and> exc_type e = ''ValueError''
     else \<exists>t new. write_workspace yl yd file w = Inr t \<and> read_workspaces yl (Some t) = Inr new \<and>
       map_of new = (\<lambda>n. map_option sort_ws (map_of old n))(ws_name w \<mapsto> sort_ws w))"
proof -
  from f obtain rows where rows: "doc_rows d = Some rows" "\<forall>kv\<in>set rows. wf_row (snd kv)"
    and plain: "plain_doc (PyDict d)"
    by (auto simp: wf_file_def simp del: plain_doc.simps split: option.splits)
  define old where "old = map (\<lambda>(n, r). (n, ws_of_row n r)) rows"
  have old: "read_workspaces yl file = Inr old" and key: "\<And>n. has_key n old = has_key n rows"
    using read_workspaces_wf [OF f rows(1)] by (simp_all add: old_def map_of_ws_rows)
  note wr = write_workspace_eq [OF f w rows(1), of yd]
  show ?thesis
  proof (cases "has_key (ws_name w) rows")
    case True
    with wr old key show ?thesis by (auto simp: value_error_def)
  next
    case False
    obtain s where s: "ws_name w = PyStr s" and prow: "plain_doc (PyDict (row_of w))"
      using w by (auto simp: plain_ws_def)
    define rows' where "rows' = dset (ws_name w) (PyDict (row_of w)) rows"
    define d' where "d' = dset (PyStr ''workspaces'') (PyDict rows') (with_defaults d)"
    have pr: "plain_doc (PyDict rows')"
      unfolding rows'_def s by (intro plain_dset doc_rows_plain [OF plain rows(1)] prow)
    have pd: "plain_doc (PyDict d')"
      unfolding d'_def by (intro plain_dset plain_with_defaults plain pr)
    have dr: "doc_rows d' = Some rows'" by (simp add: doc_rows_def d'_def)
    have "set rows' \<subseteq> insert (ws_name w, PyDict (row_of w)) (set rows)"
      unfolding rows'_def using False by (subst dset_fresh) (auto simp: map_of_eq_None_iff)
    with rows(2) row_of_wf [OF w] have wf: "\<forall>kv\<in>set rows'. wf_row (snd kv)" by auto
    obtain t new where "yd (PyDict d') = Inr t" "read_workspaces yl (Some t) = Inr new"
      and new: "\<And>n. map_of new n = map_option (\<lambda>r. sort_ws (ws_of_row n r)) (map_of rows' n)"
      by (rule dumped_file [OF y pd dr wf]) (rule that)
    moreover have "map_of new = (\<lambda>n. map_option sort_ws (map_of old n))(ws_name w \<mapsto> sort_ws w)"
      by (rule ext) (simp add: new rows'_def old_def map_of_ws_rows row_of_wf [OF w] option.map_comp o_def)
    ultimately show ?thesis
      using wr old key False by (auto simp: d'_def rows'_def)
  qed
qed

text \<open>
  Removing a workspace: \<open>remove_workspace\<close> returns \<open>True\<close> exactly when \<open>read_workspaces\<close> returned the
  name, and then the rewritten file has every workspace but that one; otherwise it writes nothing.
\<close>

theorem remove_then_read:
  assumes y: "yaml_faithful yl yd" and f: "wf_file yl (Some t) d"
  shows "\<exists>old. read_workspaces yl (Some t) = Inr old \<and>
    (if has_key (PyStr name) old
     then \<exists>t' new. remove_workspace yl yd (Some t) (PyStr name) = Inr (True, Some t') \<and>
       read_workspaces yl (Some t') = Inr new \<and>
       map_of new = (\<lambda>n. map_option sort_ws (map_of old n))(PyStr name := None)
     else remove_workspace yl yd (Some t) (PyStr name) = Inr (False, None))"
proof -
  from f obtain rows where rows: "doc_rows d = Some rows" "\<forall>kv\<in>set rows. wf_row (snd kv)"
    and plain: "plain_doc (PyDict d)"
    by (auto simp: wf_file_def simp del: plain_doc.simps split: option.splits)
  define old where "old = map (\<lambda>(n, r). (n, ws_of_row n r)) rows"
  have old: "read_workspaces yl (Some t) = Inr old" and key: "\<And>n. has_key n old = has_key n rows"
    using read_workspaces_wf [OF f rows(1)] by (simp_all add: old_def map_of_ws_rows)
  note remove = remove_workspace_eq [OF f rows(1), of yd name]
  show ?thesis
  proof (cases "has_key (PyStr name) rows")
    case True
    define rows' where "rows' = ddel (PyStr name) rows"
    define d' where "d' = dset (PyStr ''workspaces'') (PyDict rows') d"
    have pr: "plain_doc (PyDict rows')"
      unfolding rows'_def by (intro plain_ddel doc_rows_plain [OF plain rows(1)])
    have pd: "plain_doc (PyDict d')"
      unfolding d'_def by (intro plain_dset plain pr)
    have dr: "doc_rows d' = Some rows'" by (simp add: doc_rows_def d'_def)
    have wf: "\<forall>kv\<in>set rows'. wf_row (snd kv)"
      using rows(2) by (auto simp: rows'_def ddel_def)
    obtain t' new where "yd (PyDict d') = Inr t'" "read_workspaces yl (Some t') = Inr new"
      and new: "\<And>n. map_of new n = map_option (\<lambda>r. sort_ws (ws_of_row n r)) (map_of rows' n)"
      by (rule dumped_file [OF y pd dr wf]) (rule that)
    moreover have "map_of new = (\<lambda>n. map_option sort_ws (map_of old n))(PyStr name := None)"
      by (rule ext) (simp add: new rows'_def old_def map_of_ddel map_of_ws_rows option.map_comp o_def)
    ultimately show ?thesis
      using remove old key True by (auto simp: d'_def rows'_def)
  next
    case False
    with remove old key show ?thesis by simp
  qed
qed

text \<open>A faithful pair of functions, and a workspace, for the examples.\<close>

definition demo_load :: "string \<Rightarrow> py_val res" where
  "demo_load t = Inr (decode_val t)"

definition demo_dump :: "py_val \<Rightarrow> string res" where
  "demo_dump d = Inr (encode_val (sort_doc d))"

definition demo_ws :: workspace where
  "demo_ws = \<lparr>ws_name = PyStr ''w'', ws_owner = PyNone, ws_start_cmd = PyStr ''cc'', ws_role = PyStr ''dev'',
     ws_chats = [], ws_env = []\<rparr>"

lemma demo_faithful: "yaml_faithful demo_load demo_dump"
  by (simp add: yaml_faithful_def demo_load_def demo_dump_def)

lemma demo_wf_file:
  "wf_file demo_load (Some (encode_val (PyDict (mkdict [(''workspaces'', PyDict (mkdict [(''w'', PyDict [])]))]))))
     (mkdict [(''workspaces'', PyDict (mkdict [(''w'', PyDict [])]))])"
  by (simp add: wf_file_def demo_load_def doc_rows_def wf_row_def dget_or_def)

theorem write_then_read_witness:
  "\<exists>old. read_workspaces demo_load None = Inr old \<and>
    (if has_key (ws_name demo_ws) old
     then \<exists>e. write_workspace demo_load demo_dump None demo_ws = Inl e \<and> exc_type e = ''ValueError''
     else \<exists>t new. write_workspace demo_load demo_dump None demo_ws = Inr t \<and>
       read_workspaces demo_load (Some t) = Inr new \<and>
       map_of new = (\<lambda>n. map_option sort_ws (map_of old n))(ws_name demo_ws \<mapsto> sort_ws demo_ws))"
  by (rule write_then_read [where d = "[]", OF demo_faithful])
    (simp_all add: wf_file_def doc_rows_def plain_ws_def demo_ws_def row_of_def Let_def)

theorem remove_then_read_witness:
  "\<exists>t old t' new. read_workspaces demo_load (Some t) = Inr old \<and>
     remove_workspace demo_load demo_dump (Some t) (PyStr ''w'') = Inr (True, Some t') \<and>
     read_workspaces demo_load (Some t') = Inr new \<and>
     map_of new = (\<lambda>n. map_option sort_ws (map_of old n))(PyStr ''w'' := None)"
proof -
  let ?d = "mkdict [(''workspaces'', PyDict (mkdict [(''w'', PyDict [])]))]"
  have "doc_rows ?d = Some (mkdict [(''w'', PyDict [])])" by (simp add: doc_rows_def)
  from read_workspaces_wf [OF demo_wf_file this]
  obtain old where old: "read_workspaces demo_load (Some (encode_val (PyDict ?d))) = Inr old"
    "has_key (PyStr ''w'') old"
    by simp
  from remove_then_read [OF demo_faithful demo_wf_file, of "''w''"] old
  have "\<exists>t' new. remove_workspace demo_load demo_dump (Some (encode_val (PyDict ?d))) (PyStr ''w'') =
      Inr (True, Some t') \<and> read_workspaces demo_load (Some t') = Inr new \<and>
    map_of new = (\<lambda>n. map_option sort_ws (map_of old n))(PyStr ''w'' := None)" by auto
  with old(1) show ?thesis by blast
qed

text \<open>
  \<open>write_workspace\<close> raises \<open>TypeError\<close> on a file whose \<open>workspaces\<close> entry is present but null, although
  \<open>read_workspaces\<close> and \<open>remove_workspace\<close> read such a file as one with no workspaces.
\<close>

lemma write_null_workspaces:
  assumes "yl t = Inr (PyDict (mkdict [(''workspaces'', PyNone)]))"
  shows "read_workspaces yl (Some t) = Inr [] \<and>
    remove_workspace yl yd (Some t) (PyStr n) = Inr (False, None) \<and>
    (\<exists>e. write_workspace yl yd (Some t) w = Inl e \<and> exc_type e = ''TypeError'')"
  using assms
  by (simp add: read_workspaces_def remove_workspace_def write_workspace_def Let_def py_or_def py_in_def
      dget_or_def setdefault_def dget_def type_error_def)

end
