(* ===== verification/Envelope.thy ===== *)
theory Envelope
  imports ESR_Prelude
begin

text \<open>
  \<^verbatim>\<open>py/src/esr/actions.py\<close>, \<^verbatim>\<open>events.py\<close> and \<^verbatim>\<open>ipc/envelope.py\<close>: the actions a handler returns, events and
  directives, the envelope builders and the serialisation of actions. The clock and \<open>uuid4\<close> are the
  arguments \<open>now\<close> and \<open>uuid\<close>. Fields that the code does not check are arbitrary values.
\<close>

section \<open>Actions, events and directives\<close>

datatype action =
    Emit (emit_adapter: py_val) (emit_action: py_val) (emit_args: py_kvs)
  | Route (route_target: py_val) (route_msg: py_val)
  | InvokeCommand (ic_name: py_val) (ic_params: py_kvs)
  | Reply (reply_text: py_val) (reply_to_message_id: py_val)
  | SendInput (si_text: py_val)

record event =
  ev_source :: py_val
  ev_event_type :: py_val
  ev_args :: py_kvs

record directive =
  dv_adapter :: py_val
  dv_action :: py_val
  dv_args :: py_kvs

text \<open>\<open>Event.from_envelope\<close>: the full envelope or the inner dictionary.\<close>

definition from_envelope :: "py_kvs \<Rightarrow> event res" where
  "from_envelope envelope =
     rbind (case dget ''payload'' envelope of
              None \<Rightarrow> Inr False
            | Some p \<Rightarrow> py_in (PyStr ''event_type'') p) (\<lambda>full.
       let inner = (if full then dget_or ''payload'' (PyDict []) envelope else PyDict envelope);
           source = dget_or ''source'' (PyStr []) envelope
       in rbind (py_index inner ''event_type'') (\<lambda>event_type.
          rbind (py_get inner ''args'' (PyDict [])) (\<lambda>args.
          rbind (py_dict args) (\<lambda>args_dict.
            Inr \<lparr>ev_source = source, ev_event_type = event_type, ev_args = args_dict\<rparr>))))"


section \<open>Envelopes\<close>

abbreviation "TYPE_EVENT \<equiv> ''event''"
abbreviation "TYPE_DIRECTIVE \<equiv> ''directive''"
abbreviation "TYPE_DIRECTIVE_ACK \<equiv> ''directive_ack''"
abbreviation "TYPE_HANDLER_CALL \<equiv> ''handler_call''"
abbreviation "TYPE_HANDLER_REPLY \<equiv> ''handler_reply''"
abbreviation "TYPE_HANDLER_HELLO \<equiv> ''handler_hello''"

definition new_id :: "string \<Rightarrow> string \<Rightarrow> string" where
  "new_id prefix uuid = prefix @ ''-'' @ uuid"

definition check_source :: "string \<Rightarrow> unit res" where
  "check_source source =
     (if \<not> startswith source ''esr://''
      then Inl (value_error (''source must be an esr:// URI; got '' @ repr_str source))
      else Inr ())"

definition make_event ::
  "string \<Rightarrow> string \<Rightarrow> string \<Rightarrow> py_val \<Rightarrow> py_kvs \<Rightarrow> py_val \<Rightarrow> py_val \<Rightarrow> py_kvs res"
where
  "make_event uuid now source event_type args principal_id workspace_name =
     rbind (check_source source) (\<lambda>_. Inr (mkdict
       [(''kind'', PyStr TYPE_EVENT),
        (''id'', PyStr (new_id ''e'' uuid)),
        (''ts'', PyStr now),
        (''type'', PyStr TYPE_EVENT),
        (''source'', PyStr source),
        (''principal_id'', principal_id),
        (''workspace_name'', workspace_name),
        (''payload'', PyDict (mkdict [(''event_type'', event_type), (''args'', PyDict args)]))]))"

text \<open>\<open>result\<close> and \<open>error\<close> are \<^const>\<open>PyNone\<close> when omitted.\<close>

definition make_directive_ack ::
  "string \<Rightarrow> py_val \<Rightarrow> string \<Rightarrow> bool \<Rightarrow> py_val \<Rightarrow> py_val \<Rightarrow> py_kvs res"
where
  "make_directive_ack now ident source is_good result error =
     rbind (check_source source) (\<lambda>_.
     rbind (if is_good \<and> result \<noteq> PyNone
            then rbind (py_dict result) (\<lambda>r. Inr (mkdict [(''ok'', PyBool True), (''result'', PyDict r)]))
            else if \<not> is_good \<and> error \<noteq> PyNone
            then rbind (py_dict error) (\<lambda>e. Inr (mkdict [(''ok'', PyBool False), (''error'', PyDict e)]))
            else Inr (mkdict [(''ok'', PyBool is_good)])) (\<lambda>payload.
       Inr (mkdict
         [(''kind'', PyStr TYPE_DIRECTIVE_ACK),
          (''id'', ident),
          (''ts'', PyStr now),
          (''type'', PyStr TYPE_DIRECTIVE_ACK),
          (''source'', PyStr source),
          (''payload'', PyDict payload)])))"

definition make_handler_reply ::
  "string \<Rightarrow> string \<Rightarrow> py_val \<Rightarrow> py_kvs \<Rightarrow> py_val list \<Rightarrow> py_kvs res"
where
  "make_handler_reply now source ident new_state actions =
     rbind (check_source source) (\<lambda>_. Inr (mkdict
       [(''kind'', PyStr TYPE_HANDLER_REPLY),
        (''id'', ident),
        (''ts'', PyStr now),
        (''type'', PyStr TYPE_HANDLER_REPLY),
        (''source'', PyStr source),
        (''payload'', PyDict (mkdict [(''new_state'', PyDict new_state), (''actions'', PyList actions)]))]))"

definition make_handler_hello :: "string \<Rightarrow> string \<Rightarrow> string \<Rightarrow> string list \<Rightarrow> py_kvs res" where
  "make_handler_hello uuid now source permissions =
     rbind (check_source source) (\<lambda>_. Inr (mkdict
       [(''kind'', PyStr TYPE_HANDLER_HELLO),
        (''id'', PyStr (new_id ''hh'' uuid)),
        (''ts'', PyStr now),
        (''type'', PyStr TYPE_HANDLER_HELLO),
        (''source'', PyStr source),
        (''payload'', PyDict (mkdict [(''permissions'', PyList (map PyStr permissions))]))]))"


section \<open>Serialisation of actions\<close>

fun serialise_action :: "action \<Rightarrow> py_kvs" where
  "serialise_action (Emit adapter act args) =
     mkdict [(''type'', PyStr ''emit''), (''adapter'', adapter), (''action'', act), (''args'', PyDict args)]"
| "serialise_action (Route tgt msg) =
     mkdict [(''type'', PyStr ''route''), (''target'', tgt), (''msg'', msg)]"
| "serialise_action (InvokeCommand name params) =
     mkdict [(''type'', PyStr ''invoke_command''), (''name'', name), (''params'', PyDict params)]"
| "serialise_action (Reply txt mid) =
     (let out = mkdict [(''type'', PyStr ''reply''), (''text'', txt)]
      in if mid \<noteq> PyNone then dset (PyStr ''reply_to_message_id'') mid out else out)"
| "serialise_action (SendInput txt) = mkdict [(''type'', PyStr ''send_input''), (''text'', txt)]"

text \<open>What a handler may put in its list of actions: an action, or an object of some other class.\<close>

datatype ret_item = IsAction action | NotAction (item_class: string)

fun serialise_item :: "ret_item \<Rightarrow> py_kvs res" where
  "serialise_item (IsAction a) = Inr (serialise_action a)"
| "serialise_item (NotAction cls) = Inl (type_error (''not an Action: '' @ cls))"

definition deserialise_action :: "py_kvs \<Rightarrow> action res" where
  "deserialise_action d =
     (let t = dget_or ''type'' PyNone d; dv = PyDict d in
      if t = PyStr ''emit'' then
        rbind (py_index dv ''adapter'') (\<lambda>adapter.
        rbind (py_index dv ''action'') (\<lambda>act.
        rbind (py_dict (dget_or ''args'' (PyDict []) d)) (\<lambda>args. Inr (Emit adapter act args))))
      else if t = PyStr ''route'' then
        rbind (py_index dv ''target'') (\<lambda>tgt.
        rbind (py_index dv ''msg'') (\<lambda>msg. Inr (Route tgt msg)))
      else if t = PyStr ''invoke_command'' then
        rbind (py_index dv ''name'') (\<lambda>name.
        rbind (py_dict (dget_or ''params'' (PyDict []) d)) (\<lambda>params. Inr (InvokeCommand name params)))
      else if t = PyStr ''reply'' then
        rbind (py_index dv ''text'') (\<lambda>txt.
          Inr (Reply txt (dget_or ''reply_to_message_id'' PyNone d)))
      else if t = PyStr ''send_input'' then
        rbind (py_index dv ''text'') (\<lambda>txt. Inr (SendInput txt))
      else Inl (value_error (''unknown action type '' @ py_repr t)))"


section \<open>Lemmas\<close>

lemma check_source_simps [simp]:
  "startswith source ''esr://'' \<Longrightarrow> check_source source = Inr ()"
  "\<not> startswith source ''esr://'' \<Longrightarrow> check_source source = Inl (value_error (''source must be an esr:// URI; got '' @ repr_str source))"
  by (simp_all add: check_source_def)

lemma deserialise_serialise: "deserialise_action (serialise_action a) = Inr a"
  by (cases a) (simp_all add: deserialise_action_def dget_or_def py_index_def Let_def)

interpretation actions: codec serialise_action deserialise_action "\<lambda>_. True"
  by unfold_locales (rule deserialise_serialise)

lemma serialise_items:
  "mapM serialise_item (map IsAction acts) = Inr (map serialise_action acts)"
  by (induction acts) simp_all

lemma serialise_items_Inr:
  "mapM serialise_item items = Inr ds \<longleftrightarrow> (\<exists>acts. items = map IsAction acts \<and> ds = map serialise_action acts)"
proof (induction items arbitrary: ds)
  case (Cons i items)
  show ?case
  proof (cases i)
    case (IsAction a)
    then show ?thesis
      using Cons by (auto simp: rbind_Inr_iff Cons_eq_map_conv intro: exI [of _ "a # _"])
  next
    case (NotAction cls)
    then show ?thesis by (auto simp: Cons_eq_map_conv)
  qed
qed auto

text \<open>What every envelope of the wire has.\<close>

definition wf_envelope :: "string \<Rightarrow> py_kvs \<Rightarrow> bool" where
  [inv_simps]: "wf_envelope ty env \<longleftrightarrow>
     distinct (map fst env) \<and> dget ''kind'' env = Some (PyStr ty) \<and> dget ''type'' env = Some (PyStr ty) \<and>
     dget ''id'' env \<noteq> None \<and> (\<exists>ts. dget ''ts'' env = Some (PyStr ts)) \<and>
     (\<exists>src. dget ''source'' env = Some (PyStr src) \<and> startswith src ''esr://'') \<and>
     (\<exists>p. dget ''payload'' env = Some (PyDict p))"

lemma py_in_dict [simp]: "py_in (PyStr k) (PyDict d) = Inr (dget k d \<noteq> None)"
  by (simp add: py_in_def dget_def)


section \<open>Properties\<close>

text \<open>
  C22. Handler actions survive the wire: the list of serialised actions of a reply deserialises to the
  same actions, and distinct actions have distinct serialisations.
\<close>

theorem actions_roundtrip:
  "mapM deserialise_action (map serialise_action acts) = Inr acts \<and> inj serialise_action"
  using actions.dec_all [of acts] actions.enc_inj by (simp add: list_all_iff)

text \<open>
  An event that an adapter builds is the event a handler sees: \<open>from_envelope\<close> returns the source,
  type and arguments \<open>make_event\<close> was called with, both on the full envelope and on its payload with the
  source added, as the runtime strips it.
\<close>

theorem event_roundtrip:
  assumes "startswith source ''esr://''"
  shows "\<exists>env p. make_event uuid now source event_type args pid ws = Inr env \<and>
    from_envelope env = Inr \<lparr>ev_source = PyStr source, ev_event_type = event_type, ev_args = args\<rparr> \<and>
    dget ''payload'' env = Some (PyDict p) \<and>
    from_envelope (dset (PyStr ''source'') (PyStr source) p) =
      Inr \<lparr>ev_source = PyStr source, ev_event_type = event_type, ev_args = args\<rparr>"
  using assms by (simp add: make_event_def from_envelope_def Let_def dget_or_def py_index_def)

theorem event_roundtrip_witness:
  "\<exists>env p. make_event ''u'' ''t'' ''esr://h/actor/a'' (PyStr ''msg'') [] PyNone PyNone = Inr env \<and>
    from_envelope env = Inr \<lparr>ev_source = PyStr ''esr://h/actor/a'', ev_event_type = PyStr ''msg'', ev_args = []\<rparr> \<and>
    dget ''payload'' env = Some (PyDict p) \<and>
    from_envelope (dset (PyStr ''source'') (PyStr ''esr://h/actor/a'') p) =
      Inr \<lparr>ev_source = PyStr ''esr://h/actor/a'', ev_event_type = PyStr ''msg'', ev_args = []\<rparr>"
  by (rule event_roundtrip) simp



end
