(* ===== verification/Registry.thy ===== *)
theory Registry
  imports ESR_Prelude
begin

text \<open>
  \<^verbatim>\<open>py/src/esr/handler.py\<close>, \<^verbatim>\<open>adapter.py\<close> and \<^verbatim>\<open>adapters.py\<close>: the registration decorators, their three
  module-level registries, the read-only adapter configuration and the loader of adapter packages.
  A registry is a dictionary passed explicitly. Functions and classes are opaque values of type
  variables; of a class only what the code inspects is kept. Importing a package is a parameter.
\<close>

section \<open>Registries\<close>

text \<open>\<open>if key in REGISTRY: raise ValueError(...)\<close>, then \<open>REGISTRY[key] = entry\<close>.\<close>

definition register_once :: "(string \<Rightarrow> string) \<Rightarrow> string \<Rightarrow> 'e \<Rightarrow> (string \<times> 'e) list \<Rightarrow> (string \<times> 'e) list res" where
  "register_once msg key entry reg =
     (if has_key key reg then Inl (value_error (msg key)) else Inr (dset key entry reg))"

record 'f handler_entry =
  he_actor_type :: string
  he_name :: string
  he_fn :: 'f
  he_permissions :: "string set"

datatype model_config = NoConfig | DictConfig py_kvs | ObjConfig "py_val option"

record 'm state_model =
  sm_config :: model_config
  sm_model :: 'm

record 'm state_entry =
  se_actor_type :: string
  se_schema_version :: int
  se_model :: "'m state_model"

type_synonym 'f handler_registry = "(string \<times> 'f handler_entry) list"
type_synonym 'm state_registry = "(string \<times> 'm state_entry) list"

definition handler_key :: "string \<Rightarrow> string \<Rightarrow> string" where
  "handler_key actor_type name = actor_type @ ''.'' @ name"

definition handler_msg :: "string \<Rightarrow> string" where
  "handler_msg key = ''handler '' @ key @ '' already registered''"

definition mk_handler_entry :: "string \<Rightarrow> string \<Rightarrow> string list option \<Rightarrow> 'f \<Rightarrow> 'f handler_entry" where
  "mk_handler_entry actor_type name permissions fn =
     \<lparr>he_actor_type = actor_type, he_name = name, he_fn = fn,
      he_permissions = set (case permissions of None \<Rightarrow> [] | Some ps \<Rightarrow> ps)\<rparr>"

text \<open>\<open>@handler(actor_type=..., name=..., permissions=...)\<close> applied to a function.\<close>

definition handler_decorate ::
  "string \<Rightarrow> string \<Rightarrow> string list option \<Rightarrow> 'f \<Rightarrow> 'f handler_registry \<Rightarrow> 'f handler_registry res"
where
  "handler_decorate actor_type name permissions fn reg =
     register_once handler_msg (handler_key actor_type name)
       (mk_handler_entry actor_type name permissions fn) reg"

definition all_permissions :: "'f handler_registry \<Rightarrow> string set" where
  "all_permissions reg = \<Union> (he_permissions ` snd ` set reg)"

definition is_frozen_model :: "'m state_model \<Rightarrow> bool" where
  "is_frozen_model m =
     (case sm_config m of
        DictConfig cfg \<Rightarrow> py_truthy (dget_or ''frozen'' (PyBool False) cfg)
      | ObjConfig fr \<Rightarrow> (case fr of None \<Rightarrow> False | Some v \<Rightarrow> py_truthy v)
      | NoConfig \<Rightarrow> False)"

definition state_msg :: "string \<Rightarrow> string" where
  "state_msg key = ''state for '' @ key @ '' already registered''"

definition handler_state ::
  "string \<Rightarrow> int \<Rightarrow> 'm state_model \<Rightarrow> 'm state_registry \<Rightarrow> 'm state_registry res"
where
  "handler_state actor_type schema_version m reg =
     (if \<not> is_frozen_model m then
        Inl (type_error (''state model for '' @ actor_type
          @ '' must be frozen (set model_config['' @ repr_str ''frozen'' @ ''] = True)''))
      else register_once state_msg actor_type
             \<lparr>se_actor_type = actor_type, se_schema_version = schema_version, se_model = m\<rparr> reg)"


section \<open>Adapters\<close>

datatype 'f class_attr = StaticMethod 'f | OtherAttr 'f

record 'f py_class =
  pc_name :: string
  pc_factory :: "'f class_attr option"

record 'f adapter_entry =
  ae_name :: string
  ae_cls :: "'f py_class"
  ae_allowed_io :: py_kvs

type_synonym 'f adapter_registry = "(string \<times> 'f adapter_entry) list"

definition adapter_msg :: "string \<Rightarrow> string" where
  "adapter_msg key = ''adapter '' @ key @ '' already registered''"

definition adapter_decorate ::
  "string \<Rightarrow> py_kvs \<Rightarrow> 'f py_class \<Rightarrow> 'f adapter_registry \<Rightarrow> 'f adapter_registry res"
where
  "adapter_decorate name allowed_io cls reg =
     (case pc_factory cls of
        Some (StaticMethod _) \<Rightarrow>
          register_once adapter_msg name \<lparr>ae_name = name, ae_cls = cls, ae_allowed_io = allowed_io\<rparr> reg
      | _ \<Rightarrow> Inl (type_error
          (''adapter '' @ name @ '' must define a static factory(actor_id, config) method'')))"

text \<open>\<open>AdapterConfig\<close>: a private copy of the dictionary, read by attribute access, never written.\<close>

definition config_getattr :: "py_kvs \<Rightarrow> string \<Rightarrow> py_val res" where
  "config_getattr data item =
     (if startswith item ''_'' then Inl (Exc ''AttributeError'' item)
      else (case dget item data of
              None \<Rightarrow> Inl (Exc ''AttributeError'' (item @ '' missing from AdapterConfig''))
            | Some v \<Rightarrow> Inr v))"

definition config_setattr :: "py_kvs \<Rightarrow> string \<Rightarrow> py_val \<Rightarrow> py_kvs res" where
  "config_setattr data key v =
     Inl (Exc ''AttributeError'' (''AdapterConfig is read-only (attempted to set '' @ key @ '')''))"

definition is_import_error :: "py_exc \<Rightarrow> bool" where
  "is_import_error e = (exc_type e \<in> {''ImportError'', ''ModuleNotFoundError''})"

definition pkg_name :: "string \<Rightarrow> string" where
  "pkg_name name = ''esr_'' @ map (\<lambda>c. if c = CHR ''-'' then CHR ''_'' else c) name"

text \<open>
  \<open>load_adapter_factory\<close>: the package is imported when the name is not yet registered, then the entry
  is looked up. \<open>import_module\<close> runs the package: it may register adapters, and may raise.
\<close>

definition ensure_imported ::
  "(string \<Rightarrow> 'f adapter_registry \<Rightarrow> py_exc option \<times> 'f adapter_registry) \<Rightarrow> string \<Rightarrow>
   'f adapter_registry \<Rightarrow> py_exc option \<times> 'f adapter_registry"
where
  "ensure_imported import_module name reg =
     (if \<not> has_key name reg then
        (case import_module (pkg_name name) reg of
           (Some e, reg') \<Rightarrow>
             (Some (if is_import_error e
                    then Exc ''AdapterNotFound'' (''adapter '' @ repr_str name @ '': package ''
                           @ repr_str (pkg_name name) @ '' not importable ('' @ exc_msg e @ '')'')
                    else e), reg')
         | (None, reg') \<Rightarrow> (None, reg'))
      else (None, reg))"

definition registered_factory :: "string \<Rightarrow> 'f adapter_registry \<Rightarrow> 'f res" where
  "registered_factory name reg =
     (case map_of reg name of
        None \<Rightarrow> Inl (Exc ''AdapterNotFound'' (''adapter '' @ repr_str name
                  @ '': not in ADAPTER_REGISTRY after importing '' @ repr_str (pkg_name name)))
      | Some entry \<Rightarrow>
          (case pc_factory (ae_cls entry) of
             None \<Rightarrow> Inl (Exc ''AdapterNotFound'' (''adapter '' @ repr_str name @ '': class ''
                       @ pc_name (ae_cls entry) @ '' has no factory staticmethod''))
           | Some (StaticMethod f) \<Rightarrow> Inr f
           | Some (OtherAttr f) \<Rightarrow> Inr f))"

definition load_adapter_factory ::
  "(string \<Rightarrow> 'f adapter_registry \<Rightarrow> py_exc option \<times> 'f adapter_registry) \<Rightarrow> string \<Rightarrow>
   'f adapter_registry \<Rightarrow> 'f res \<times> 'f adapter_registry"
where
  "load_adapter_factory import_module name reg =
     (case ensure_imported import_module name reg of
        (Some e, reg') \<Rightarrow> (Inl e, reg')
      | (None, reg') \<Rightarrow> (registered_factory name reg', reg'))"


section \<open>The registries implement the write-once contract\<close>

lemma register_once_write_once: "write_once_table map_of (register_once msg)"
  by unfold_locales (auto simp: register_once_def)

interpretation handlers: write_once_table map_of "register_once handler_msg"
  by (rule register_once_write_once)

interpretation states: write_once_table map_of "register_once state_msg"
  by (rule register_once_write_once)

interpretation adapters: write_once_table map_of "register_once adapter_msg"
  by (rule register_once_write_once)

text \<open>The decorators of a handler module, run in order on import.\<close>

type_synonym 'f handler_decl = "string \<times> string \<times> string list option \<times> 'f"

fun decl_key :: "'f handler_decl \<Rightarrow> string" where
  "decl_key (actor_type, name, permissions, fn) = handler_key actor_type name"

fun decl_entry :: "'f handler_decl \<Rightarrow> 'f handler_entry" where
  "decl_entry (actor_type, name, permissions, fn) = mk_handler_entry actor_type name permissions fn"

fun import_handlers :: "'f handler_decl list \<Rightarrow> 'f handler_registry \<Rightarrow> 'f handler_registry res" where
  "import_handlers [] reg = Inr reg"
| "import_handlers ((actor_type, name, permissions, fn) # ds) reg =
     rbind (handler_decorate actor_type name permissions fn reg) (import_handlers ds)"

lemma import_handlers_reg_all:
  "import_handlers ds reg = handlers.reg_all (map (\<lambda>d. (decl_key d, decl_entry d)) ds) reg"
proof (induction ds reg rule: import_handlers.induct)
  case (2 a n ps fn ds reg)
  then show ?case
    by (cases "register_once handler_msg (handler_key a n) (mk_handler_entry a n ps fn) reg")
      (simp_all add: handler_decorate_def handlers.reg_all_Cons)
qed (simp add: handlers.reg_all_Nil)

lemma register_once_permissions:
  "register_once msg k e reg = Inr reg' \<Longrightarrow> all_permissions reg' = all_permissions reg \<union> he_permissions e"
  by (auto simp: register_once_def all_permissions_def dset_fresh map_of_eq_None_iff split: if_splits)

lemma import_handlers_permissions:
  "import_handlers ds reg = Inr reg' \<Longrightarrow>
     all_permissions reg' = all_permissions reg \<union> (\<Union>d\<in>set ds. he_permissions (decl_entry d))"
  by (induction ds reg arbitrary: reg' rule: import_handlers.induct)
    (auto simp: rbind_Inr_iff handler_decorate_def dest!: register_once_permissions)

text \<open>Every registered adapter has a static factory, under its own name.\<close>

definition adapters_ok :: "'f adapter_registry \<Rightarrow> bool" where
  [inv_simps]: "adapters_ok reg \<longleftrightarrow>
     distinct (map fst reg) \<and>
     (\<forall>(k, e)\<in>set reg. ae_name e = k \<and> (\<exists>f. pc_factory (ae_cls e) = Some (StaticMethod f)))"

lemma adapters_ok_Nil [simp]: "adapters_ok []"
  by (simp add: adapters_ok_def)

lemma adapter_decorate_ok:
  assumes "adapters_ok reg" "adapter_decorate name io cls reg = Inr reg'"
  shows "adapters_ok reg'"
  using assms
  by (auto simp: adapters_ok_def adapter_decorate_def register_once_def dset_fresh map_of_eq_None_iff
      split: option.splits class_attr.splits if_splits)


section \<open>Properties\<close>

text \<open>
  Importing handler modules: the decorators succeed together exactly when no two of them, and none
  of the registered ones, have the same \<open>actor_type.name\<close> key; then every declared handler is found under
  its key, the others are untouched, and \<open>all_permissions\<close> grows by exactly the declared permissions.
\<close>

theorem handler_registration:
  "(is_ok (import_handlers ds reg) \<longleftrightarrow>
      distinct (map decl_key ds) \<and> (\<forall>d\<in>set ds. map_of reg (decl_key d) = None)) \<and>
   (\<forall>reg'. import_handlers ds reg = Inr reg' \<longrightarrow>
      map_of reg' = map_of reg ++ map_of (map (\<lambda>d. (decl_key d, decl_entry d)) ds) \<and>
      all_permissions reg' = all_permissions reg \<union> (\<Union>d\<in>set ds. he_permissions (decl_entry d)))"
  using handlers.reg_all_ok_iff [of "map (\<lambda>d. (decl_key d, decl_entry d)) ds" reg]
    handlers.reg_all_lookup [of "map (\<lambda>d. (decl_key d, decl_entry d)) ds" reg]
    import_handlers_permissions [of ds reg]
  by (simp add: import_handlers_reg_all o_def)

theorem handler_registration_witness:
  "\<exists>reg'. import_handlers [(''a'', ''on_msg'', Some [''p''], ()), (''b'', ''on_msg'', None, ())] [] = Inr reg' \<and>
     all_permissions reg' = {''p''}"
proof -
  let ?ds = "[(''a'', ''on_msg'', Some [''p''], ()), (''b'', ''on_msg'', None, ())]"
  have "is_ok (import_handlers ?ds [])"
    using handler_registration [of ?ds "[]"] by (simp add: handler_key_def)
  then obtain reg' where "import_handlers ?ds [] = Inr reg'" by (auto simp: is_ok_iff)
  with handler_registration [of ?ds "[]"] show ?thesis
    by (simp add: all_permissions_def mk_handler_entry_def)
qed

text \<open>
  The loader: from a registry that only the decorator has filled, and an import that fills it only
  through the decorator, \<open>load_adapter_factory\<close> returns the function inside the static factory of the
  class registered under that very name, or raises \<open>AdapterNotFound\<close>, or passes on an exception of the
  imported package that is not an import error; it never returns an unwrapped attribute, and the
  branch for a class without a factory cannot be reached.
\<close>

theorem load_adapter_factory_result:
  assumes reg: "adapters_ok reg"
    and imp: "\<And>p r. adapters_ok r \<Longrightarrow> adapters_ok (snd (import_module p r))"
    and load: "load_adapter_factory import_module name reg = (r, reg')"
  shows "adapters_ok reg' \<and>
    (case r of
       Inr f \<Rightarrow> (\<exists>e. map_of reg' name = Some e \<and> ae_name e = name \<and>
                   pc_factory (ae_cls e) = Some (StaticMethod f))
     | Inl x \<Rightarrow> map_of reg name = None \<and>
         (exc_type x = ''AdapterNotFound'' \<and> (map_of reg' name = None \<or> fst (import_module (pkg_name name) reg) \<noteq> None)
          \<or> fst (import_module (pkg_name name) reg) = Some x \<and> \<not> is_import_error x))"
proof -
  obtain exc reg1 where er: "ensure_imported import_module name reg = (exc, reg1)" by fastforce
  have ok: "adapters_ok reg1"
    using reg imp [OF reg, of "pkg_name name"] er
    by (auto simp: ensure_imported_def split: if_splits prod.splits option.splits)
  have known: "exc = None \<and> reg1 = reg" if "has_key name reg"
    using that er by (simp add: ensure_imported_def)
  show ?thesis
  proof (cases exc)
    case (Some x)
    with known have none: "map_of reg name = None" by (cases "map_of reg name") simp_all
    with Some load er ok show ?thesis
      by (auto simp: load_adapter_factory_def ensure_imported_def
          split: prod.splits option.splits if_splits)
  next
    case None
    with load er have r: "r = registered_factory name reg1" "reg' = reg1"
      by (auto simp: load_adapter_factory_def)
    show ?thesis
    proof (cases "map_of reg1 name")
      case (Some e)
      with ok map_of_SomeD [OF Some] r show ?thesis
        by (auto simp: adapters_ok_def registered_factory_def)
    next
      case unregistered: None
      with known have "map_of reg name = None" by (cases "map_of reg name") simp_all
      with unregistered ok r show ?thesis by (simp add: registered_factory_def)
    qed
  qed
qed

definition demo_class :: "unit py_class" where
  "demo_class = \<lparr>pc_name = ''A'', pc_factory = Some (StaticMethod ())\<rparr>"

definition demo_import :: "string \<Rightarrow> unit adapter_registry \<Rightarrow> py_exc option \<times> unit adapter_registry" where
  "demo_import p reg =
     (case adapter_decorate ''cc-mcp'' [] demo_class reg of Inl e \<Rightarrow> (Some e, reg) | Inr r \<Rightarrow> (None, r))"

lemma demo_import_ok: "adapters_ok r \<Longrightarrow> adapters_ok (snd (demo_import p r))"
  using adapter_decorate_ok by (auto simp: demo_import_def split: sum.splits)

theorem load_adapter_factory_result_witness:
  "\<exists>reg' e. load_adapter_factory demo_import ''cc-mcp'' [] = (Inr (), reg') \<and> adapters_ok reg' \<and>
     map_of reg' ''cc-mcp'' = Some e \<and> pc_factory (ae_cls e) = Some (StaticMethod ())"
proof -
  define reg' where "reg' = snd (load_adapter_factory demo_import ''cc-mcp'' [])"
  have l: "load_adapter_factory demo_import ''cc-mcp'' [] = (Inr (), reg')"
    by (simp add: reg'_def load_adapter_factory_def ensure_imported_def registered_factory_def demo_import_def adapter_decorate_def demo_class_def
        register_once_def)
  from load_adapter_factory_result [OF adapters_ok_Nil demo_import_ok l] l show ?thesis by auto
qed

end
