(* ===== verification/Ipc_Url.thy ===== *)
theory Ipc_Url
  imports ESR_Prelude
begin

text \<open>
  \<^verbatim>\<open>py/src/esr/ipc/url.py\<close>, \<^verbatim>\<open>py/src/_ipc_common/url.py\<close>, \<^verbatim>\<open>reconnect.py\<close> and \<^verbatim>\<open>disconnect.py\<close>: discovery of the
  runtime's WebSocket URL, substitution of the port of a running \<open>esrd\<close>, and the reconnect loop
  with its backoff. The environment is a partial function, the port file is read through
  \<open>read_port home instance\<close> (\<^const>\<open>None\<close> when it cannot be read), and \<open>user_home\<close> is
  \<open>expanduser("~/.esrd")\<close>. Of \<open>urllib.parse\<close> the split into scheme, authority, path, query and
  fragment is modelled; \<open>;\<close>-parameters stay in the path, as they do for the schemes \<open>ws\<close> and \<open>wss\<close>.
\<close>

section \<open>Discovery\<close>

definition DEFAULT_ADAPTER_HUB_URL :: string where
  "DEFAULT_ADAPTER_HUB_URL = ''ws://localhost:4001/adapter_hub/socket/websocket?vsn=2.0.0''"

definition DEFAULT_HANDLER_HUB_URL :: string where
  "DEFAULT_HANDLER_HUB_URL = ''ws://localhost:4001/handler_hub/socket/websocket?vsn=2.0.0''"

type_synonym environ = "string \<Rightarrow> string option"

definition env_get :: "environ \<Rightarrow> string \<Rightarrow> string \<Rightarrow> string" where
  "env_get env k dflt = (case env k of None \<Rightarrow> dflt | Some v \<Rightarrow> v)"

text \<open>The text of the port file, where \<open>ESRD_HOME\<close> and \<open>ESR_INSTANCE\<close> say.\<close>

definition port_file_text ::
  "environ \<Rightarrow> string \<Rightarrow> (string \<Rightarrow> string \<Rightarrow> string option) \<Rightarrow> string option"
where
  "port_file_text env user_home read_port =
     (let home = (case env ''ESRD_HOME'' of Some (c # cs) \<Rightarrow> c # cs | _ \<Rightarrow> user_home);
          inst = env_get env ''ESR_INSTANCE'' ''default''
      in map_option strip (read_port home inst))"

definition read_port_file :: "environ \<Rightarrow> string \<Rightarrow> (string \<Rightarrow> string \<Rightarrow> string option) \<Rightarrow> int option" where
  "read_port_file env user_home read_port =
     (case port_file_text env user_home read_port of
        None \<Rightarrow> None
      | Some t \<Rightarrow> if isdigit_str t then py_int t else None)"

definition default_with_port_file :: "int option \<Rightarrow> string \<Rightarrow> string \<Rightarrow> string" where
  "default_with_port_file port socket_path fallback =
     (case port of
        None \<Rightarrow> fallback
      | Some p \<Rightarrow> ''ws://127.0.0.1:'' @ show_int p @ ''/'' @ socket_path @ ''/websocket?vsn=2.0.0'')"

datatype kind = KAdapter | KHandler

definition discover_runtime_url ::
  "environ \<Rightarrow> string \<Rightarrow> (string \<Rightarrow> string \<Rightarrow> string option) \<Rightarrow> string option \<Rightarrow> kind option \<Rightarrow> string"
where
  "discover_runtime_url env user_home read_port override kind =
     (case override of
        Some (c # cs) \<Rightarrow> c # cs
      | _ \<Rightarrow>
          if kind = Some KHandler then
            let specific = env_get env ''ESR_HANDLER_HUB_URL'' [] in
            if specific \<noteq> [] then specific
            else let legacy = env_get env ''ESR_RUNTIME_URL'' [] in
                 if legacy \<noteq> [] then legacy
                 else default_with_port_file (read_port_file env user_home read_port)
                        ''handler_hub/socket'' DEFAULT_HANDLER_HUB_URL
          else
            let specific = env_get env ''ESR_ADAPTER_HUB_URL'' [] in
            if specific \<noteq> [] then specific
            else let legacy = env_get env ''ESR_RUNTIME_URL'' [] in
                 if legacy \<noteq> [] then legacy
                 else default_with_port_file (read_port_file env user_home read_port)
                        ''adapter_hub/socket'' DEFAULT_ADAPTER_HUB_URL)"


section \<open>Splitting and joining URLs\<close>

record url_parts =
  up_scheme :: string
  up_netloc :: string
  up_path :: string
  up_query :: string
  up_fragment :: string

definition is_alpha :: "char \<Rightarrow> bool" where
  "is_alpha c = (let n = of_char c :: nat in (65 \<le> n \<and> n \<le> 90) \<or> (97 \<le> n \<and> n \<le> 122))"

definition is_scheme_char :: "char \<Rightarrow> bool" where
  "is_scheme_char c = (is_alpha c \<or> is_digit c \<or> c \<in> set ''+-.'')"

text \<open>\<open>urlsplit\<close> drops leading control characters and spaces, and tabs and line ends anywhere.\<close>

definition clean_url :: "string \<Rightarrow> string" where
  "clean_url s =
     filter (\<lambda>c. (of_char c :: nat) \<notin> {9, 10, 13}) (dropWhile (\<lambda>c. (of_char c :: nat) \<le> 32) s)"

definition split_scheme :: "string \<Rightarrow> string \<times> string" where
  "split_scheme url =
     (let s = before CHR '':'' url in
      if CHR '':'' \<in> set url \<and> s \<noteq> [] \<and> is_alpha (hd s) \<and> list_all is_scheme_char s
      then (lower s, after CHR '':'' url) else ([], url))"

definition urlparse :: "string \<Rightarrow> url_parts res" where
  "urlparse url0 =
     (let (scheme, rest) = split_scheme (clean_url url0);
          has_netloc = startswith rest ''//'';
          delim = (\<lambda>c. c \<in> set ''/?#'');
          netloc = (if has_netloc then takeWhile (\<lambda>c. \<not> delim c) (drop 2 rest) else []);
          tail = (if has_netloc then dropWhile (\<lambda>c. \<not> delim c) (drop 2 rest) else rest)
      in if (CHR ''['' \<in> set netloc) \<noteq> (CHR '']'' \<in> set netloc) then Inl (value_error ''Invalid IPv6 URL'')
         else
           let no_frag = before CHR ''#'' tail in
           Inr \<lparr>up_scheme = scheme, up_netloc = netloc, up_path = before CHR ''?'' no_frag,
                up_query = after CHR ''?'' no_frag, up_fragment = after CHR ''#'' tail\<rparr>)"

definition url_hostname :: "string \<Rightarrow> string option" where
  "url_hostname netloc =
     (let hostinfo = rafter CHR ''@'' netloc;
          hostname = (if CHR ''['' \<in> set hostinfo then before CHR '']'' (after CHR ''['' hostinfo)
                      else before CHR '':'' hostinfo)
      in if hostname = [] then None
         else Some (lower (before CHR ''%'' hostname) @ drop (length (before CHR ''%'' hostname)) hostname))"

definition url_username :: "string \<Rightarrow> string option" where
  "url_username netloc =
     (if CHR ''@'' \<in> set netloc then Some (before CHR '':'' (rbefore CHR ''@'' netloc)) else None)"

definition url_password :: "string \<Rightarrow> string option" where
  "url_password netloc =
     (let userinfo = rbefore CHR ''@'' netloc in
      if CHR ''@'' \<in> set netloc \<and> CHR '':'' \<in> set userinfo then Some (after CHR '':'' userinfo) else None)"

definition urlunparse :: "url_parts \<Rightarrow> string" where
  "urlunparse u =
     (let url1 = (if up_netloc u \<noteq> []
                  then ''//'' @ up_netloc u @ (if up_path u \<noteq> [] \<and> hd (up_path u) \<noteq> CHR ''/''
                                             then ''/'' @ up_path u else up_path u)
                  else up_path u);
          url2 = (if up_scheme u \<noteq> [] then up_scheme u @ '':'' @ url1 else url1);
          url3 = (if up_query u \<noteq> [] then url2 @ ''?'' @ up_query u else url2)
      in if up_fragment u \<noteq> [] then url3 @ ''#'' @ up_fragment u else url3)"

text \<open>\<open>resolve_url\<close>, given the text of the port file.\<close>

definition new_netloc :: "string \<Rightarrow> string \<Rightarrow> string" where
  "new_netloc netloc port =
     (let host = (case url_hostname netloc of None \<Rightarrow> ''127.0.0.1'' | Some h \<Rightarrow> h);
          hp = host @ '':'' @ port
      in case url_username netloc of
           Some (c # cs) \<Rightarrow>
             (c # cs) @ (case url_password netloc of Some (d # ds) \<Rightarrow> '':'' @ d # ds | _ \<Rightarrow> []) @ ''@'' @ hp
         | _ \<Rightarrow> hp)"

definition resolve_url :: "string option \<Rightarrow> string \<Rightarrow> string res" where
  "resolve_url port_text fallback_url =
     (case port_text of
        None \<Rightarrow> Inr fallback_url
      | Some t \<Rightarrow>
          if \<not> isdigit_str t then Inr fallback_url
          else rbind (urlparse fallback_url) (\<lambda>parsed.
            Inr (urlunparse (parsed\<lparr>up_netloc := new_netloc (up_netloc parsed) t\<rparr>))))"


section \<open>The reconnect loop\<close>

text \<open>
  How one \<open>run_one(client)\<close> ends. One element of the script is one turn of the loop: the port file
  read at its start and the outcome of the connection.
\<close>

datatype outcome = Clean | Failed py_exc | Cancelled

datatype loop_end = StillRunning | LoopCancelled | LoopRaised py_exc

fun reconnect_loop ::
  "'d list \<Rightarrow> string \<Rightarrow> nat \<Rightarrow> (string option \<times> outcome) list \<Rightarrow> (string \<times> 'd) list \<times> loop_end"
where
  "reconnect_loop schedule fallback attempt [] = ([], StillRunning)"
| "reconnect_loop schedule fallback attempt ((pf, out) # script) =
     (case resolve_url pf fallback of
        Inl e \<Rightarrow> ([], LoopRaised e)
      | Inr url \<Rightarrow>
          if out = Cancelled then ([], LoopCancelled)
          else
            let attempt' = (if out = Clean then 0 else attempt) in
            if schedule = [] then ([], LoopRaised (Exc ''IndexError'' ''tuple index out of range''))
            else
              let delay = schedule ! min attempt' (length schedule - 1);
                  (sleeps, e) = reconnect_loop schedule fallback (attempt' + 1) script
              in ((url, delay) # sleeps, e))"

text \<open>Seconds, in tenths.\<close>

definition RECONNECT_BACKOFF_SCHEDULE :: "nat list" where
  "RECONNECT_BACKOFF_SCHEDULE = [2, 4, 8, 16, 32, 50]"

text \<open>
  \<open>watch_disconnect\<close> on the successive values of \<open>client.connected\<close> (\<^const>\<open>None\<close> when the client has no
  such attribute): the number of polls it slept through, and the exception when it raised.
\<close>

fun watch_disconnect :: "bool option list \<Rightarrow> nat \<times> py_exc option" where
  "watch_disconnect [] = (0, None)"
| "watch_disconnect (c # cs) =
     (if c = Some False then (0, Some (Exc ''ConnectionError'' ''ws disconnected''))
      else (let (n, e) = watch_disconnect cs in (Suc n, e)))"


section \<open>Lemmas\<close>

lemma clean_url_id: "(\<And>c. c \<in> set s \<Longrightarrow> 32 < (of_char c :: nat)) \<Longrightarrow> clean_url s = s"
proof -
  assume *: "\<And>c. c \<in> set s \<Longrightarrow> 32 < (of_char c :: nat)"
  have "dropWhile (\<lambda>c. (of_char c :: nat) \<le> 32) s = s"
  proof (cases s)
    case (Cons a l)
    with * [of a] have "\<not> (of_char a :: nat) \<le> 32" by simp
    with Cons show ?thesis by simp
  qed simp
  moreover have "filter (\<lambda>c. (of_char c :: nat) \<notin> {9, 10, 13}) s = s"
    using * by (intro filter_True) fastforce
  ultimately show ?thesis by (simp add: clean_url_def)
qed

lemma isdigit_str_chars:
  assumes "isdigit_str t" "c \<in> set t"
  shows "is_digit c" "48 \<le> (of_char c :: nat)" "(of_char c :: nat) \<le> 57"
  using assms
  by (auto simp: isdigit_str_def list_all_iff is_digit_def digit_val_def Let_def split: if_splits)

lemma isdigit_str_clean: "isdigit_str t \<Longrightarrow> set t \<inter> set ''/?#@:[]%'' = {}"
proof -
  assume t: "isdigit_str t"
  have "\<not> is_digit c" if "c \<in> set ''/?#@:[]%''" for c
    using that by (auto simp: is_digit_def digit_val_def)
  with isdigit_str_chars(1) [OF t] show ?thesis by blast
qed

text \<open>A URL in canonical form: what the defaults and the environment variables hold.\<close>

definition plain_host :: "string \<Rightarrow> bool" where
  "plain_host h \<longleftrightarrow> h \<noteq> [] \<and> lower h = h \<and> set h \<inter> set ''/?#@:[]%'' = {} \<and>
     (\<forall>c\<in>set h. 32 < (of_char c :: nat))"

definition plain_rest :: "string \<Rightarrow> bool" where
  "plain_rest r \<longleftrightarrow> (\<exists>p q. r = ''/'' @ p @ (if q = [] then [] else ''?'' @ q) \<and>
     set p \<inter> set ''?#'' = {} \<and> CHR ''#'' \<notin> set q \<and> (\<forall>c\<in>set r. 32 < (of_char c :: nat)))"

lemma urlparse_ws:
  assumes netloc: "set netloc \<inter> set ''/?#[]'' = {}" "\<forall>c\<in>set netloc. 32 < (of_char c :: nat)"
    and rest: "plain_rest rest"
  obtains p q where "rest = ''/'' @ p @ (if q = [] then [] else ''?'' @ q)"
    "urlparse (''ws://'' @ netloc @ rest) =
     Inr \<lparr>up_scheme = ''ws'', up_netloc = netloc, up_path = ''/'' @ p, up_query = q, up_fragment = []\<rparr>"
proof -
  from rest obtain p q where r: "rest = ''/'' @ p @ (if q = [] then [] else ''?'' @ q)"
    "set p \<inter> set ''?#'' = {}" "CHR ''#'' \<notin> set q" and rc: "\<forall>c\<in>set rest. 32 < (of_char c :: nat)"
    unfolding plain_rest_def by blast
  have cl: "clean_url (''ws://'' @ netloc @ rest) = ''ws://'' @ netloc @ rest"
    using netloc(2) rc by (intro clean_url_id) auto
  have ss: "split_scheme (''ws://'' @ netloc @ rest) = (''ws'', ''//'' @ netloc @ rest)"
    by (simp add: split_scheme_def before_def after_def is_alpha_def is_scheme_char_def lower_def lower_char_def)
  have tw: "takeWhile (\<lambda>c. c \<notin> set ''/?#'') (netloc @ rest) = netloc"
    "dropWhile (\<lambda>c. c \<notin> set ''/?#'') (netloc @ rest) = rest"
  proof -
    have nd: "\<And>c. c \<in> set netloc \<Longrightarrow> c \<notin> set ''/?#''" using netloc(1) by auto
    then have "takeWhile (\<lambda>c. c \<notin> set ''/?#'') (netloc @ rest) = netloc @ takeWhile (\<lambda>c. c \<notin> set ''/?#'') rest"
      "dropWhile (\<lambda>c. c \<notin> set ''/?#'') (netloc @ rest) = dropWhile (\<lambda>c. c \<notin> set ''/?#'') rest"
      by (blast intro: takeWhile_append2 dropWhile_append2)+
    then show "takeWhile (\<lambda>c. c \<notin> set ''/?#'') (netloc @ rest) = netloc"
      "dropWhile (\<lambda>c. c \<notin> set ''/?#'') (netloc @ rest) = rest"
      by (simp_all add: r(1))
  qed
  have "CHR ''#'' \<notin> set rest" using r by auto
  then have nf: "before CHR ''#'' rest = rest" "after CHR ''#'' rest = []"
    by (simp_all add: before_absent after_absent)
  have "CHR ''?'' \<notin> set (''/'' @ p)" using r(2) by auto
  then have q: "before CHR ''?'' rest = ''/'' @ p" "after CHR ''?'' rest = q"
    using before_append [of "CHR ''?''" "''/'' @ p" q] after_append [of "CHR ''?''" "''/'' @ p" q]
    by (auto simp: r(1) before_absent after_absent)
  have "urlparse (''ws://'' @ netloc @ rest) =
     Inr \<lparr>up_scheme = ''ws'', up_netloc = netloc, up_path = ''/'' @ p, up_query = q, up_fragment = []\<rparr>"
    unfolding urlparse_def cl ss Let_def using tw nf q netloc(1) by auto
  with r(1) that show thesis by blast
qed

lemma url_hostname_plain:
  assumes "plain_host h" "set port \<inter> set ''@[]'' = {}"
  shows "url_hostname (h @ '':'' @ port) = Some h" "url_username (h @ '':'' @ port) = None"
proof -
  have at: "CHR ''@'' \<notin> set (h @ '':'' @ port)" and br: "CHR ''['' \<notin> set (h @ '':'' @ port)"
    and colon: "CHR '':'' \<notin> set h" and pc: "CHR ''%'' \<notin> set h"
    using assms by (auto simp: plain_host_def)
  show "url_username (h @ '':'' @ port) = None"
    using at by (simp add: url_username_def)
  have "rafter CHR ''@'' (h @ '':'' @ port) = h @ '':'' @ port"
    using at by (simp add: rafter_def before_absent)
  moreover have "before CHR '':'' (h @ '':'' @ port) = h"
    using colon by simp
  ultimately show "url_hostname (h @ '':'' @ port) = Some h"
    using br pc assms(1) by (simp add: url_hostname_def Let_def before_absent plain_host_def)
qed

lemma resolve_url_port:
  assumes h: "plain_host h" and p: "isdigit_str p" and t: "isdigit_str t" and r: "plain_rest rest"
  shows "resolve_url (Some t) (''ws://'' @ (h @ '':'' @ p) @ rest) = Inr (''ws://'' @ (h @ '':'' @ t) @ rest)"
proof -
  note cp = isdigit_str_clean [OF p]
  have n: "set (h @ '':'' @ p) \<inter> set ''/?#[]'' = {}"
    using h cp by (auto simp: plain_host_def)
  have c: "\<forall>c\<in>set (h @ '':'' @ p). 32 < (of_char c :: nat)"
    using h isdigit_str_chars(2) [OF p] by (fastforce simp: plain_host_def)
  obtain pa q where rest: "rest = ''/'' @ pa @ (if q = [] then [] else ''?'' @ q)"
    and up: "urlparse (''ws://'' @ (h @ '':'' @ p) @ rest) = Inr \<lparr>up_scheme = ''ws'', up_netloc = h @ '':'' @ p,
      up_path = ''/'' @ pa, up_query = q, up_fragment = []\<rparr>"
    by (rule urlparse_ws [OF n c r])
  have "new_netloc (h @ '':'' @ p) t = h @ '':'' @ t"
    using url_hostname_plain [OF h, of p] cp by (simp add: new_netloc_def)
  with up t show ?thesis
    by (simp add: resolve_url_def urlunparse_def Let_def rest)
qed

lemma py_int_digits:
  assumes "isdigit_str t" "py_int t = Some i"
  shows "0 \<le> i"
proof -
  have "strip t = t"
    using isdigit_str_chars(1) [OF assms(1)] digit_not_ws by (intro strip_id) blast
  moreover have "hd t \<noteq> CHR ''-''" "t \<noteq> []"
    using isdigit_str_chars(1) [OF assms(1), of "hd t"] assms(1)
    by (auto simp: isdigit_str_def is_digit_def digit_val_def)
  ultimately show ?thesis
    using assms(2) by (auto simp: py_int_def split: list.splits if_splits)
qed

lemma discover_shape:
  assumes "override = None" "env ''ESR_HANDLER_HUB_URL'' = None" "env ''ESR_ADAPTER_HUB_URL'' = None"
    "env ''ESR_RUNTIME_URL'' = None"
  shows "\<exists>h p. plain_host h \<and> isdigit_str p \<and>
    discover_runtime_url env uh rp override kind = ''ws://'' @ (h @ '':'' @ p) @
      (if kind = Some KHandler then ''/handler_hub/socket/websocket?vsn=2.0.0''
       else ''/adapter_hub/socket/websocket?vsn=2.0.0'')"
proof (cases "read_port_file env uh rp")
  case None
  have "plain_host ''localhost''" "isdigit_str ''4001''"
    by (code_simp)+
  moreover have "discover_runtime_url env uh rp override kind = ''ws://'' @ (''localhost'' @ '':'' @ ''4001'') @
      (if kind = Some KHandler then ''/handler_hub/socket/websocket?vsn=2.0.0''
       else ''/adapter_hub/socket/websocket?vsn=2.0.0'')"
    using assms None by (simp add: discover_runtime_url_def env_get_def default_with_port_file_def
        DEFAULT_HANDLER_HUB_URL_def DEFAULT_ADAPTER_HUB_URL_def)
  ultimately show ?thesis by blast
next
  case (Some i)
  then have "0 \<le> i"
    using py_int_digits by (auto simp: read_port_file_def split: option.splits if_splits)
  then have "isdigit_str (show_int i)"
    using show_nat_digits by (auto simp: isdigit_str_def list_all_iff show_int_def)
  moreover have "plain_host ''127.0.0.1''" by code_simp
  moreover have "discover_runtime_url env uh rp override kind = ''ws://'' @ (''127.0.0.1'' @ '':'' @ show_int i) @
      (if kind = Some KHandler then ''/handler_hub/socket/websocket?vsn=2.0.0''
       else ''/adapter_hub/socket/websocket?vsn=2.0.0'')"
    using assms Some by (simp add: discover_runtime_url_def env_get_def default_with_port_file_def)
  ultimately show ?thesis by blast
qed

lemma plain_rest_hub:
  "plain_rest ''/handler_hub/socket/websocket?vsn=2.0.0''" "plain_rest ''/adapter_hub/socket/websocket?vsn=2.0.0''"
  unfolding plain_rest_def
   apply (rule exI [of _ "''handler_hub/socket/websocket''"], rule exI [of _ "''vsn=2.0.0''"], code_simp)
  apply (rule exI [of _ "''adapter_hub/socket/websocket''"], rule exI [of _ "''vsn=2.0.0''"], code_simp)
  done

text \<open>The loop, turn by turn.\<close>

lemma reconnect_delays:
  assumes "schedule \<noteq> []" "\<forall>(pf, out)\<in>set script. is_ok (resolve_url pf fallback) \<and> out \<noteq> Cancelled"
  shows "length (fst (reconnect_loop schedule fallback a script)) = length script \<and>
    snd (reconnect_loop schedule fallback a script) = StillRunning"
  using assms(2)
proof (induction script arbitrary: a)
  case (Cons s script)
  obtain pf out where s: "s = (pf, out)" by (cases s)
  with Cons.prems obtain url where url: "resolve_url pf fallback = Inr url" "out \<noteq> Cancelled"
    by (auto simp: is_ok_iff)
  with Cons.IH [of "(if out = Clean then 0 else a) + 1"] Cons.prems show ?case
    using assms(1) by (auto simp: s Let_def split: prod.splits)
qed simp

lemma reconnect_nth:
  assumes "schedule \<noteq> []" "\<forall>(pf, out)\<in>set script. is_ok (resolve_url pf fallback) \<and> out \<noteq> Cancelled"
    "\<forall>j\<le>i. snd (script ! j) \<noteq> Clean" "i < length script"
  shows "fst (reconnect_loop schedule fallback a script) ! i =
    (projr (resolve_url (fst (script ! i)) fallback), schedule ! min (a + i) (length schedule - 1))"
  using assms(2-)
proof (induction script arbitrary: a i)
  case (Cons s script)
  obtain pf out where s: "s = (pf, out)" by (cases s)
  with Cons.prems obtain url where url: "resolve_url pf fallback = Inr url" "out \<noteq> Cancelled"
    by (auto simp: is_ok_iff)
  have out: "out \<noteq> Clean" using Cons.prems(2) s by force
  show ?case
  proof (cases i)
    case 0
    with s url out assms(1) show ?thesis by (simp add: Let_def split: prod.splits)
  next
    case (Suc j)
    have "\<forall>k\<le>j. snd (script ! k) \<noteq> Clean"
      using Cons.prems(2) Suc by (metis Suc_le_mono nth_Cons_Suc)
    with Cons.IH [of j "a + 1"] Cons.prems Suc s url out assms(1) show ?thesis
      by (auto simp: Let_def split: prod.splits)
  qed
qed simp


section \<open>Properties\<close>

text \<open>
  A process that discovered its URL from the defaults keeps reaching the runtime on the socket of its
  own kind wherever the runtime restarts: whatever the port file held at discovery, resolving the URL
  again with a new port gives the same host, the adapter or handler socket that was asked for, and the
  new port.
\<close>

theorem discovered_url_follows_port:
  assumes "env ''ESR_HANDLER_HUB_URL'' = None" "env ''ESR_ADAPTER_HUB_URL'' = None"
    "env ''ESR_RUNTIME_URL'' = None" "isdigit_str t"
  shows "\<exists>h p. discover_runtime_url env uh rp None kind = ''ws://'' @ h @ '':'' @ p @
      (if kind = Some KHandler then ''/handler_hub/socket/websocket?vsn=2.0.0''
       else ''/adapter_hub/socket/websocket?vsn=2.0.0'') \<and>
    resolve_url (Some t) (discover_runtime_url env uh rp None kind) = Inr (''ws://'' @ h @ '':'' @ t @
      (if kind = Some KHandler then ''/handler_hub/socket/websocket?vsn=2.0.0''
       else ''/adapter_hub/socket/websocket?vsn=2.0.0''))"
proof -
  obtain h p where hp: "plain_host h" "isdigit_str p" and d: "discover_runtime_url env uh rp None kind =
      ''ws://'' @ (h @ '':'' @ p) @ (if kind = Some KHandler then ''/handler_hub/socket/websocket?vsn=2.0.0''
       else ''/adapter_hub/socket/websocket?vsn=2.0.0'')"
    using discover_shape [OF refl assms(1-3), of uh rp kind] by blast
  have "plain_rest (if kind = Some KHandler then ''/handler_hub/socket/websocket?vsn=2.0.0''
       else ''/adapter_hub/socket/websocket?vsn=2.0.0'')"
    using plain_rest_hub by simp
  from resolve_url_port [OF hp assms(4) this] show ?thesis
    unfolding d by (intro exI [of _ h] exI [of _ p]) simp
qed

theorem discovered_url_follows_port_witness:
  "\<exists>h p. discover_runtime_url (\<lambda>_. None) ''/h'' (\<lambda>_ _. Some ''4002'') None (Some KHandler) = ''ws://'' @ h @ '':'' @ p @
      ''/handler_hub/socket/websocket?vsn=2.0.0'' \<and>
    resolve_url (Some ''5001'') (discover_runtime_url (\<lambda>_. None) ''/h'' (\<lambda>_ _. Some ''4002'') None (Some KHandler)) =
      Inr (''ws://'' @ h @ '':'' @ ''5001'' @ ''/handler_hub/socket/websocket?vsn=2.0.0'')"
proof -
  have "isdigit_str ''5001''" by code_simp
  from discovered_url_follows_port [of "\<lambda>_. None", OF refl refl refl this, of "''/h''" "\<lambda>_ _. Some ''4002''" "Some KHandler"]
  show ?thesis by simp
qed

text \<open>
  C26. The reconnect loop is live and backs off: as long as the URL resolves and nobody cancels it, every
  disconnection (and every unexpected exception) is followed by another attempt, with the URL resolved
  afresh from the port file of that moment; while connections keep failing, the delay after the \<open>i\<close>-th
  failure is the \<open>i\<close>-th entry of the schedule, and its last entry from then on.
\<close>

theorem reconnect_loop_live:
  assumes "schedule \<noteq> []" "\<forall>(pf, out)\<in>set script. is_ok (resolve_url pf fallback) \<and> out \<noteq> Cancelled"
  shows "length (fst (reconnect_loop schedule fallback 0 script)) = length script \<and>
    snd (reconnect_loop schedule fallback 0 script) = StillRunning \<and>
    (\<forall>i<length script. (\<forall>j\<le>i. snd (script ! j) \<noteq> Clean) \<longrightarrow>
      fst (reconnect_loop schedule fallback 0 script) ! i =
        (projr (resolve_url (fst (script ! i)) fallback), schedule ! min i (length schedule - 1)))"
  using reconnect_delays [OF assms, of 0] reconnect_nth [OF assms, of _ 0] by simp

theorem reconnect_loop_live_witness:
  "fst (reconnect_loop RECONNECT_BACKOFF_SCHEDULE ''ws://h:1/x'' 0
     (replicate 7 (None, Failed (Exc ''ConnectionError'' ''gone'')))) ! 6 = (''ws://h:1/x'', 50)"
  using reconnect_loop_live [of RECONNECT_BACKOFF_SCHEDULE
      "replicate 7 (None, Failed (Exc ''ConnectionError'' ''gone''))" "''ws://h:1/x''"]
  by (simp add: RECONNECT_BACKOFF_SCHEDULE_def resolve_url_def)

text \<open>A malformed fallback URL escapes the loop: \<open>resolve_url\<close> runs outside its exception handlers.\<close>

lemma reconnect_loop_resolve_error:
  "resolve_url pf fallback = Inl e \<Longrightarrow> reconnect_loop schedule fallback a ((pf, out) # script) = ([], LoopRaised e)"
  by simp

text \<open>
  Substituting the port breaks IPv6 authorities: the brackets are lost, and the result names a
  different host and port.
\<close>

theorem resolve_url_ipv6:
  "resolve_url (Some ''5001'') ''ws://[::1]:4001/adapter_hub/socket'' = Inr ''ws://::1:5001/adapter_hub/socket''"
  by code_simp

text \<open>The watcher raises at the first poll that sees the connection down, and not before.\<close>

lemma watch_disconnect_spec:
  "watch_disconnect cs =
     (length (takeWhile (\<lambda>c. c \<noteq> Some False) cs),
      if Some False \<in> set cs then Some (Exc ''ConnectionError'' ''ws disconnected'') else None)"
  by (induction cs) (auto simp: Let_def)

end
