(* ===== verification/Channel_Client.thy ===== *)
theory Channel_Client
  imports ESR_Prelude
begin

text \<open>
  \<^verbatim>\<open>py/src/esr/ipc/channel_client.py\<close>, \<^verbatim>\<open>channel_pusher.py\<close> and \<^verbatim>\<open>_ipc_common/frame.py\<close>: the Phoenix v2 channel
  client with its correlated replies, its push buffer and its reconnection.

  A coroutine is modelled by its segments between suspension points: what \<open>join\<close> or \<open>call\<close> does before
  waiting for the reply, and what it does with the reply. A future is its reference; \<open>ch_results\<close> holds
  the futures that have been resolved. The socket is one of three states and a log of the texts sent;
  \<open>json_dumps\<close> and \<open>json_loads\<close> are parameters. A topic callback is an opaque value; what the read loop
  delivers to it is an output.
\<close>

section \<open>State\<close>

definition PENDING_PUSH_CAP :: nat where
  "PENDING_PUSH_CAP = 1000"

datatype ws_state = NoWs | WsOpen | WsClosed

type_synonym pending_push = "string \<times> string \<times> py_val"

record 'h chan =
  ch_auto_reconnect :: bool
  ch_ws :: ws_state
  ch_shutdown :: bool
  ch_heartbeat :: bool
  ch_reconnecting :: bool
  ch_next_ref :: nat
  ch_join_refs :: "(string \<times> string) list"
  ch_handlers :: "(string \<times> 'h) list"
  ch_pending :: "(string \<times> unit) list"
  ch_results :: "(string \<times> py_val) list"
  ch_disconnected :: bool
  ch_pending_pushes :: "pending_push list"
  ch_sent :: "string list"

definition new_client :: "bool \<Rightarrow> 'h chan" where
  "new_client auto_reconnect =
     \<lparr>ch_auto_reconnect = auto_reconnect, ch_ws = NoWs, ch_shutdown = False, ch_heartbeat = False,
      ch_reconnecting = False, ch_next_ref = 1, ch_join_refs = [], ch_handlers = [], ch_pending = [],
      ch_results = [], ch_disconnected = False, ch_pending_pushes = [], ch_sent = []\<rparr>"

definition connected :: "'h chan \<Rightarrow> bool" where
  "connected c = (ch_ws c = WsOpen)"


section \<open>Operations\<close>

text \<open>\<open>str(next(self._ref_counter))\<close>.\<close>

definition next_ref :: "'h chan \<Rightarrow> string \<times> 'h chan" where
  "next_ref c = (show_nat (ch_next_ref c), c\<lparr>ch_next_ref := ch_next_ref c + 1\<rparr>)"

definition send_frame :: "(py_val \<Rightarrow> string res) \<Rightarrow> py_val list \<Rightarrow> 'h chan \<Rightarrow> unit res \<times> 'h chan" where
  "send_frame json_dumps frame c =
     (case ch_ws c of
        NoWs \<Rightarrow> (Inl (Exc ''RuntimeError'' ''ws not connected''), c)
      | WsClosed \<Rightarrow> (Inl (Exc ''ClientConnectionResetError'' ''Cannot write to closing transport''), c)
      | WsOpen \<Rightarrow>
          (case json_dumps (PyList frame) of
             Inl e \<Rightarrow> (Inl e, c)
           | Inr t \<Rightarrow> (Inr (), c\<lparr>ch_sent := ch_sent c @ [t]\<rparr>)))"

text \<open>\<open>connect\<close>, given how \<open>ws_connect\<close> ends.\<close>

definition connect :: "py_exc option \<Rightarrow> 'h chan \<Rightarrow> unit res \<times> 'h chan" where
  "connect failure c =
     (case failure of
        Some e \<Rightarrow> (Inl e, c)
      | None \<Rightarrow> (Inr (), c\<lparr>ch_ws := WsOpen, ch_disconnected := False, ch_heartbeat := True\<rparr>))"

definition close :: "'h chan \<Rightarrow> 'h chan" where
  "close c = c\<lparr>ch_shutdown := True, ch_heartbeat := False, ch_reconnecting := False, ch_ws := NoWs\<rparr>"

text \<open>Registering a future under a fresh reference.\<close>

definition open_future :: "unit \<Rightarrow> 'h chan \<Rightarrow> string \<times> 'h chan" where
  "open_future w c =
     (case next_ref c of (ref, c1) \<Rightarrow> (ref, c1\<lparr>ch_pending := dset ref w (ch_pending c1)\<rparr>))"

definition pop_future :: "string \<Rightarrow> 'h chan \<Rightarrow> unit option \<times> 'h chan" where
  "pop_future ref c = (map_of (ch_pending c) ref, c\<lparr>ch_pending := ddel ref (ch_pending c)\<rparr>)"

text \<open>\<open>_join_internal\<close> up to \<open>await fut\<close>; the result is the reference waited for.\<close>

definition join_internal_start ::
  "(py_val \<Rightarrow> string res) \<Rightarrow> string \<Rightarrow> 'h \<Rightarrow> 'h chan \<Rightarrow> string res \<times> 'h chan"
where
  "join_internal_start json_dumps topic on_msg c =
     (case open_future () c of (ref, c1) \<Rightarrow>
        let c2 = c1\<lparr>ch_join_refs := dset topic ref (ch_join_refs c1),
                    ch_handlers := dset topic on_msg (ch_handlers c1)\<rparr>
        in case send_frame json_dumps [PyStr ref, PyStr ref, PyStr topic, PyStr ''phx_join'', PyDict []] c2 of
             (Inl e, c3) \<Rightarrow> (Inl e, c3)
           | (Inr _, c3) \<Rightarrow> (Inr ref, c3))"

definition join_start ::
  "(py_val \<Rightarrow> string res) \<Rightarrow> string \<Rightarrow> 'h \<Rightarrow> 'h chan \<Rightarrow> string res \<times> 'h chan"
where
  "join_start json_dumps topic on_msg c =
     (if ch_ws c = NoWs then (Inl (Exc ''RuntimeError'' ''join() called before connect()''), c)
      else join_internal_start json_dumps topic on_msg c)"

text \<open>\<open>_join_internal\<close> after \<open>await fut\<close> returned \<open>reply\<close>.\<close>

definition join_finish :: "string \<Rightarrow> py_val \<Rightarrow> 'h chan \<Rightarrow> py_val res \<times> 'h chan" where
  "join_finish topic reply c =
     (case py_get reply ''status'' PyNone of
        Inl e \<Rightarrow> (Inl e, c)
      | Inr status \<Rightarrow>
          if status \<noteq> PyStr ''ok'' then
            (Inl (Exc ''RuntimeError'' (''join rejected: '' @ py_repr reply)),
             c\<lparr>ch_join_refs := ddel topic (ch_join_refs c), ch_handlers := ddel topic (ch_handlers c)\<rparr>)
          else (Inr reply, c))"

text \<open>The bounded buffer of a disconnected client: at the cap, the oldest push is dropped.\<close>

definition buffer_push :: "pending_push \<Rightarrow> 'h chan \<Rightarrow> 'h chan" where
  "buffer_push p c =
     (let kept = (if length (ch_pending_pushes c) = PENDING_PUSH_CAP
                  then tl (ch_pending_pushes c) else ch_pending_pushes c)
      in c\<lparr>ch_pending_pushes := kept @ [p]\<rparr>)"

definition push :: "(py_val \<Rightarrow> string res) \<Rightarrow> pending_push \<Rightarrow> 'h chan \<Rightarrow> unit res \<times> 'h chan" where
  "push json_dumps p c =
     (case p of (topic, event, payload) \<Rightarrow>
        case map_of (ch_join_refs c) topic of
          None \<Rightarrow> (Inl (value_error (''push to topic '' @ repr_str topic @ '': not joined'')), c)
        | Some join_ref \<Rightarrow>
            if ch_disconnected c then (Inr (), buffer_push p c)
            else (case next_ref c of (ref, c1) \<Rightarrow>
                    send_frame json_dumps [PyStr join_ref, PyStr ref, PyStr topic, PyStr event, payload] c1))"

text \<open>\<open>call\<close> up to \<open>wait_for\<close>, and its end: the reply, or \<open>TimeoutError\<close>. The \<open>finally\<close> drops the future.\<close>

definition call_start ::
  "(py_val \<Rightarrow> string res) \<Rightarrow> pending_push \<Rightarrow> 'h chan \<Rightarrow> string res \<times> 'h chan"
where
  "call_start json_dumps p c =
     (case p of (topic, event, payload) \<Rightarrow>
        case map_of (ch_join_refs c) topic of
          None \<Rightarrow> (Inl (value_error (''call on topic '' @ repr_str topic @ '': not joined'')), c)
        | Some join_ref \<Rightarrow>
            (case open_future () c of (ref, c1) \<Rightarrow>
               case send_frame json_dumps [PyStr join_ref, PyStr ref, PyStr topic, PyStr event, payload] c1 of
                 (Inl e, c2) \<Rightarrow> (Inl e, snd (pop_future ref c2))
               | (Inr _, c2) \<Rightarrow> (Inr ref, c2)))"

definition call_finish :: "string \<Rightarrow> 'h chan \<Rightarrow> py_val res \<times> 'h chan" where
  "call_finish ref c =
     ((case map_of (ch_results c) ref of
         Some reply \<Rightarrow> Inr reply
       | None \<Rightarrow> Inl (Exc ''TimeoutError'' [])), snd (pop_future ref c))"

text \<open>One turn of the heartbeat loop, after its sleep; it ends when the socket is gone.\<close>

definition heartbeat :: "(py_val \<Rightarrow> string res) \<Rightarrow> 'h chan \<Rightarrow> 'h chan" where
  "heartbeat json_dumps c =
     (if ch_ws c \<noteq> WsOpen then c\<lparr>ch_heartbeat := False\<rparr>
      else (case next_ref c of (ref, c1) \<Rightarrow>
              case send_frame json_dumps [PyNone, PyStr ref, PyStr ''phoenix'', PyStr ''heartbeat'', PyDict []] c1 of
                (Inl _, c2) \<Rightarrow> c2\<lparr>ch_heartbeat := False\<rparr>
              | (Inr _, c2) \<Rightarrow> c2))"

text \<open>The body of the read loop for one text message.\<close>

datatype 'h read_result = Ignored | Resolved string | Delivered 'h py_val | LoopDies py_exc

definition unhashable :: "py_val \<Rightarrow> py_exc" where
  "unhashable v = type_error (''unhashable type: '' @ repr_str (type_name v))"

text \<open>\<open>_join_ref, ref, topic, event, payload = frame\<close>.\<close>

definition unpack5 :: "py_val \<Rightarrow> (py_val \<times> py_val \<times> py_val \<times> py_val) option" where
  "unpack5 frame =
     (case py_iter frame of
        Inr [join_ref, ref, topic, event, payload] \<Rightarrow> Some (ref, topic, event, payload)
      | _ \<Rightarrow> None)"

definition on_reply :: "string \<Rightarrow> py_val \<Rightarrow> 'h chan \<Rightarrow> 'h read_result \<times> 'h chan" where
  "on_reply r payload c =
     (case pop_future r c of
        (Some _, c1) \<Rightarrow>
          if map_of (ch_results c1) r = None
          then (Resolved r, c1\<lparr>ch_results := dset r payload (ch_results c1)\<rparr>)
          else (Ignored, c1)
      | (None, c1) \<Rightarrow> (Ignored, c1))"

definition on_message :: "string \<Rightarrow> py_val \<Rightarrow> 'h chan \<Rightarrow> 'h read_result \<times> 'h chan" where
  "on_message t frame c =
     (case map_of (ch_handlers c) t of Some h \<Rightarrow> (Delivered h frame, c) | None \<Rightarrow> (Ignored, c))"

definition read_text :: "(string \<Rightarrow> py_val res) \<Rightarrow> string \<Rightarrow> 'h chan \<Rightarrow> 'h read_result \<times> 'h chan" where
  "read_text json_loads data c =
     (case json_loads data of
        Inl _ \<Rightarrow> (Ignored, c)
      | Inr frame \<Rightarrow>
          (case unpack5 frame of
             None \<Rightarrow> (Ignored, c)
           | Some (ref, topic, event, payload) \<Rightarrow>
               if event = PyStr ''phx_reply'' then
                 (if \<not> hashable ref then (LoopDies (unhashable ref), c)
                  else (case ref of PyStr r \<Rightarrow> on_reply r payload c | _ \<Rightarrow> (Ignored, c)))
               else if \<not> hashable topic then (LoopDies (unhashable topic), c)
               else (case topic of PyStr t \<Rightarrow> on_message t frame c | _ \<Rightarrow> (Ignored, c))))"

text \<open>What follows the read loop, whether the socket closed or the loop died.\<close>

definition read_loop_ended :: "bool \<Rightarrow> 'h chan \<Rightarrow> 'h chan" where
  "read_loop_ended socket_closed c =
     (let c1 = c\<lparr>ch_ws := (if socket_closed \<and> ch_ws c = WsOpen then WsClosed else ch_ws c), ch_disconnected := True\<rparr>
      in if ch_auto_reconnect c1 \<and> \<not> ch_shutdown c1 then c1\<lparr>ch_reconnecting := True\<rparr> else c1)"

text \<open>
  One attempt of the reconnect loop. \<open>reply_of\<close> gives the server's reply to the join of a topic. The
  flush loop takes fuel: each turn pops the oldest push and pushes it; \<^const>\<open>None\<close> is running out of fuel.
\<close>

fun rejoin_all ::
  "(py_val \<Rightarrow> string res) \<Rightarrow> (string \<Rightarrow> py_val) \<Rightarrow> (string \<times> 'h) list \<Rightarrow> 'h chan \<Rightarrow> 'h chan"
where
  "rejoin_all json_dumps reply_of [] c = c"
| "rejoin_all json_dumps reply_of ((topic, on_msg) # rest) c =
     rejoin_all json_dumps reply_of rest
       (case join_internal_start json_dumps topic on_msg c of
          (Inl _, c1) \<Rightarrow> c1
        | (Inr ref, c1) \<Rightarrow>
            let c2 = snd (pop_future ref c1) in
            snd (join_finish topic (reply_of topic)
              (c2\<lparr>ch_results := dset ref (reply_of topic) (ch_results c2)\<rparr>)))"

fun flush :: "(py_val \<Rightarrow> string res) \<Rightarrow> nat \<Rightarrow> 'h chan \<Rightarrow> 'h chan option" where
  "flush json_dumps fuel c =
     (case ch_pending_pushes c of
        [] \<Rightarrow> Some c
      | p # ps \<Rightarrow>
          (case fuel of
             0 \<Rightarrow> None
           | Suc n \<Rightarrow> flush json_dumps n (snd (push json_dumps p (c\<lparr>ch_pending_pushes := ps\<rparr>)))))"

declare flush.simps [simp del]

definition reopen :: "'h chan \<Rightarrow> 'h chan" where
  "reopen c = c\<lparr>ch_ws := WsOpen, ch_disconnected := False, ch_join_refs := [], ch_handlers := []\<rparr>"

definition reconnect_attempt ::
  "(py_val \<Rightarrow> string res) \<Rightarrow> (string \<Rightarrow> py_val) \<Rightarrow> py_exc option \<Rightarrow> nat \<Rightarrow> 'h chan \<Rightarrow> bool \<times> 'h chan option"
where
  "reconnect_attempt json_dumps reply_of failure fuel c =
     (case failure of
        Some _ \<Rightarrow> (False, Some (c\<lparr>ch_ws := (if ch_ws c = NoWs then NoWs else WsClosed)\<rparr>))
      | None \<Rightarrow>
          (case flush json_dumps fuel (rejoin_all json_dumps reply_of (ch_handlers c) (reopen c)) of
             None \<Rightarrow> (False, None)
           | Some c' \<Rightarrow> (True, Some (c'\<lparr>ch_reconnecting := False\<rparr>))))"


section \<open>The frame filter and the pusher\<close>

text \<open>\<open>make_envelope_filter(kind, queue)\<close>: the callback on a frame that is a list.\<close>

definition envelope_filter :: "string \<Rightarrow> py_val list \<Rightarrow> py_kvs list \<Rightarrow> py_kvs list" where
  "envelope_filter kind frame queue =
     (if length frame < 5 then queue
      else (case frame ! 4 of
              PyDict payload \<Rightarrow>
                if frame ! 3 \<noteq> PyStr ''envelope'' then queue
                else if dget_or ''kind'' PyNone payload \<noteq> PyStr kind then queue
                else queue @ [payload]
            | _ \<Rightarrow> queue))"

record pusher =
  pu_topic :: string
  pu_source_uri :: string

definition push_envelope :: "(py_val \<Rightarrow> string res) \<Rightarrow> pusher \<Rightarrow> py_kvs \<Rightarrow> 'h chan \<Rightarrow> unit res \<times> 'h chan" where
  "push_envelope json_dumps p envelope c = push json_dumps (pu_topic p, ''envelope'', PyDict envelope) c"

section \<open>The invariant\<close>

lemma show_nat_inj: "show_nat m = show_nat n \<Longrightarrow> m = n"
  using int_magnitude_show_nat by (metis option.inject)

text \<open>
  Every reference in use was handed out by the counter, a future is pending or resolved but not both,
  the two topic tables have the same topics, and the push buffer respects its cap.
\<close>

definition refs_used :: "'h chan \<Rightarrow> string set" where
  "refs_used c = fst ` set (ch_pending c) \<union> fst ` set (ch_results c) \<union> snd ` set (ch_join_refs c)"

definition chan_inv :: "'h chan \<Rightarrow> bool" where
  [inv_simps]: "chan_inv c \<longleftrightarrow>
     refs_used c \<subseteq> show_nat ` {..<ch_next_ref c} \<and>
     fst ` set (ch_pending c) \<inter> fst ` set (ch_results c) = {} \<and>
     fst ` set (ch_join_refs c) = fst ` set (ch_handlers c) \<and> distinct (map fst (ch_handlers c)) \<and>
     length (ch_pending_pushes c) \<le> PENDING_PUSH_CAP"

lemma chan_inv_new [simp]: "chan_inv (new_client auto)"
  by (simp add: chan_inv_def new_client_def refs_used_def)

lemma fresh_ref: "chan_inv c \<Longrightarrow> show_nat (ch_next_ref c) \<notin> refs_used c"
  by (auto simp: chan_inv_def dest!: show_nat_inj)

lemma snd_set_dset: "snd ` set (dset k v d) \<subseteq> insert v (snd ` set d)"
  by (induction k v d rule: dset.induct) auto

lemma fst_set_ddel [simp]: "fst ` set (ddel k d) = fst ` set d - {k}"
  by (auto simp: ddel_def image_iff)

lemma snd_set_ddel: "snd ` set (ddel k d) \<subseteq> snd ` set d"
  by (auto simp: ddel_def)

lemma open_future_inv:
  assumes "chan_inv c" "open_future w c = (ref, c')"
  shows "chan_inv c' \<and> ref \<notin> refs_used c \<and> ref \<in> show_nat ` {..<ch_next_ref c'} \<and>
    c' = c\<lparr>ch_next_ref := ch_next_ref c + 1, ch_pending := dset ref w (ch_pending c)\<rparr>"
proof -
  have ref: "ref = show_nat (ch_next_ref c)"
    and c': "c' = c\<lparr>ch_next_ref := ch_next_ref c + 1, ch_pending := dset ref w (ch_pending c)\<rparr>"
    using assms(2) by (auto simp: open_future_def next_ref_def)
  have "refs_used c' = insert ref (refs_used c)" by (auto simp: refs_used_def c')
  moreover have "ref \<notin> refs_used c" using fresh_ref [OF assms(1)] ref by simp
  moreover have "refs_used c \<subseteq> show_nat ` {..<ch_next_ref c'}"
    using assms(1) by (auto simp: chan_inv_def c')
  ultimately show ?thesis
    using assms(1) ref by (auto simp: chan_inv_def c' refs_used_def)
qed

lemma pop_future_inv: "chan_inv c \<Longrightarrow> chan_inv (snd (pop_future r c))"
  by (auto simp: chan_inv_def pop_future_def refs_used_def ddel_def)

interpretation replies: reply_table "\<lambda>c. map_of (ch_pending c)" open_future pop_future chan_inv
proof
  fix c :: "'h chan" and w ref c'
  assume *: "chan_inv c" "open_future w c = (ref, c')"
  note f = open_future_inv [OF *]
  then have "map_of (ch_pending c) ref = None"
    by (simp add: refs_used_def map_of_eq_None_iff)
  with f show "map_of (ch_pending c) ref = None \<and> map_of (ch_pending c') = (map_of (ch_pending c))(ref \<mapsto> w) \<and>
    chan_inv c'" by auto
next
  fix c :: "'h chan" and ref r c'
  assume "chan_inv c" "pop_future ref c = (r, c')"
  then show "r = map_of (ch_pending c) ref \<and> map_of (ch_pending c') = (map_of (ch_pending c))(ref := None) \<and>
    chan_inv c'"
    using pop_future_inv [of c ref] by (auto simp: pop_future_def map_of_ddel)
qed

lemma send_frame_sent:
  "send_frame d f c = (r, c') \<Longrightarrow> \<exists>ts. c' = c\<lparr>ch_sent := ch_sent c @ ts\<rparr>"
  by (auto simp: send_frame_def split: ws_state.splits sum.splits intro: exI [of _ "[]"])

lemma chan_inv_sent [simp]: "chan_inv (c\<lparr>ch_sent := x\<rparr>) = chan_inv c"
  by (simp add: chan_inv_def refs_used_def)

lemma send_frame_inv: "chan_inv c \<Longrightarrow> chan_inv (snd (send_frame d f c))"
  using send_frame_sent [of d f c "fst (send_frame d f c)" "snd (send_frame d f c)"] by auto

lemma chan_inv_flags [simp]:
  "chan_inv (c\<lparr>ch_ws := w\<rparr>) = chan_inv c" "chan_inv (c\<lparr>ch_disconnected := b\<rparr>) = chan_inv c"
  "chan_inv (c\<lparr>ch_heartbeat := b\<rparr>) = chan_inv c" "chan_inv (c\<lparr>ch_reconnecting := b\<rparr>) = chan_inv c"
  "chan_inv (c\<lparr>ch_shutdown := b\<rparr>) = chan_inv c"
  by (simp_all add: chan_inv_def refs_used_def)

lemma chan_inv_next: "chan_inv c \<Longrightarrow> chan_inv (c\<lparr>ch_next_ref := Suc (ch_next_ref c)\<rparr>)"
  by (auto simp: chan_inv_def refs_used_def)

lemma chan_inv_topic:
  assumes "chan_inv c" "ref \<in> show_nat ` {..<ch_next_ref c}"
  shows "chan_inv (c\<lparr>ch_join_refs := dset t ref (ch_join_refs c), ch_handlers := dset t h (ch_handlers c)\<rparr>)"
proof -
  have "insert ref (snd ` set (ch_join_refs c)) \<subseteq> show_nat ` {..<ch_next_ref c}"
    using assms by (simp add: chan_inv_def refs_used_def)
  with snd_set_dset have "snd ` set (dset t ref (ch_join_refs c)) \<subseteq> show_nat ` {..<ch_next_ref c}"
    by (rule subset_trans)
  with assms show ?thesis by (simp add: chan_inv_def refs_used_def)
qed

lemma chan_inv_drop_topic:
  "chan_inv c \<Longrightarrow> chan_inv (c\<lparr>ch_join_refs := ddel t (ch_join_refs c), ch_handlers := ddel t (ch_handlers c)\<rparr>)"
proof -
  assume inv: "chan_inv c"
  then have "snd ` set (ch_join_refs c) \<subseteq> show_nat ` {..<ch_next_ref c}"
    by (simp add: chan_inv_def refs_used_def)
  with snd_set_ddel have "snd ` set (ddel t (ch_join_refs c)) \<subseteq> show_nat ` {..<ch_next_ref c}"
    by (rule subset_trans)
  with inv show ?thesis by (simp add: chan_inv_def refs_used_def)
qed

lemma chan_inv_buffer: "chan_inv c \<Longrightarrow> chan_inv (buffer_push p c)"
  by (auto simp: chan_inv_def refs_used_def buffer_push_def PENDING_PUSH_CAP_def)

lemma join_internal_start_inv:
  assumes "chan_inv c"
  shows "chan_inv (snd (join_internal_start d t h c))"
proof -
  obtain ref c1 where o: "open_future () c = (ref, c1)" by fastforce
  note f = open_future_inv [OF assms o]
  have "chan_inv (c1\<lparr>ch_join_refs := dset t ref (ch_join_refs c1), ch_handlers := dset t h (ch_handlers c1)\<rparr>)"
    using f by (intro chan_inv_topic) blast+
  note s = send_frame_inv [OF this, of d "[PyStr ref, PyStr ref, PyStr t, PyStr ''phx_join'', PyDict []]"]
  obtain r c3 where "send_frame d [PyStr ref, PyStr ref, PyStr t, PyStr ''phx_join'', PyDict []]
    (c1\<lparr>ch_join_refs := dset t ref (ch_join_refs c1), ch_handlers := dset t h (ch_handlers c1)\<rparr>) = (r, c3)"
    by fastforce
  with s o show ?thesis by (cases r) (simp_all add: join_internal_start_def Let_def)
qed

lemma join_finish_inv: "chan_inv c \<Longrightarrow> chan_inv (snd (join_finish t r c))"
  by (auto simp: join_finish_def chan_inv_drop_topic split: sum.splits)

lemma push_inv: "chan_inv c \<Longrightarrow> chan_inv (snd (push d p c))"
  by (auto simp: push_def next_ref_def chan_inv_buffer send_frame_inv chan_inv_next split: prod.splits option.splits)

lemma call_start_inv:
  assumes "chan_inv c"
  shows "chan_inv (snd (call_start d p c))"
proof -
  obtain ref c1 where o: "open_future () c = (ref, c1)" by fastforce
  have "chan_inv c1" using open_future_inv [OF assms o] by (rule conjunct1)
  note s = send_frame_inv [OF this]
  obtain t e v where p: "p = (t, e, v)" by (cases p)
  show ?thesis
  proof (cases "map_of (ch_join_refs c) t")
    case (Some jr)
    obtain r c2 where "send_frame d [PyStr jr, PyStr ref, PyStr t, PyStr e, v] c1 = (r, c2)" by fastforce
    with s [of d "[PyStr jr, PyStr ref, PyStr t, PyStr e, v]"] Some p o show ?thesis
      by (cases r) (simp_all add: call_start_def pop_future_inv)
  qed (simp add: call_start_def p assms)
qed

lemma on_reply_inv: "chan_inv c \<Longrightarrow> chan_inv (snd (on_reply r v c))"
proof -
  assume inv: "chan_inv c"
  show ?thesis
  proof (cases "map_of (ch_pending c) r")
    case None
    with pop_future_inv [OF inv, of r] show ?thesis by (simp add: on_reply_def pop_future_def)
  next
    case (Some u)
    then have "r \<in> fst ` set (ch_pending c)" by (metis map_of_eq_None_iff option.distinct(1))
    with inv Some show ?thesis
      by (auto simp: on_reply_def pop_future_def chan_inv_def refs_used_def map_of_eq_None_iff ddel_def)
  qed
qed

lemma read_text_inv: "chan_inv c \<Longrightarrow> chan_inv (snd (read_text l x c))"
  by (auto simp: read_text_def on_message_def on_reply_inv split: sum.splits option.splits py_val.splits)

lemma rejoin_all_inv: "chan_inv c \<Longrightarrow> chan_inv (rejoin_all d rep ts c)"
proof (induction d rep ts c rule: rejoin_all.induct)
  case (2 d rep t h ts c)
  obtain r c1 where j: "join_internal_start d t h c = (r, c1)" by fastforce
  have c1: "chan_inv c1" using join_internal_start_inv [OF "2.prems", of d t h] j by simp
  show ?case
  proof (cases r)
    case (Inl e)
    with j c1 "2.IH" show ?thesis by simp
  next
    case (Inr ref)
    have ref: "ref = show_nat (ch_next_ref c)" "ch_next_ref c1 = Suc (ch_next_ref c)"
      using j Inr by (auto simp: join_internal_start_def open_future_def next_ref_def Let_def send_frame_def
          split: prod.splits sum.splits ws_state.splits)
    have "chan_inv ((snd (pop_future ref c1))\<lparr>ch_results := dset ref (rep t) (ch_results (snd (pop_future ref c1)))\<rparr>)"
      using c1 ref by (auto simp: pop_future_def chan_inv_def refs_used_def ddel_def)
    from join_finish_inv [OF this] j Inr "2.IH" show ?thesis by (simp add: Let_def)
  qed
qed simp

lemma flush_inv: "chan_inv c \<Longrightarrow> flush d n c = Some c' \<Longrightarrow> chan_inv c'"
proof (induction d n c rule: flush.induct)
  case (1 d n c)
  show ?case
  proof (cases "ch_pending_pushes c")
    case Nil
    with 1 show ?thesis by (simp add: flush.simps [of d n c])
  next
    case (Cons p ps)
    then obtain m where n: "n = Suc m" using 1 by (cases n) (auto simp: flush.simps [of d 0 c])
    have "chan_inv (c\<lparr>ch_pending_pushes := ps\<rparr>)"
      using "1.prems"(1) Cons by (simp add: chan_inv_def refs_used_def)
    from push_inv [OF this] 1 Cons n show ?thesis
      by (auto simp: flush.simps [of d "Suc m" c])
  qed
qed

lemma reopen_inv: "chan_inv c \<Longrightarrow> chan_inv (reopen c)"
  by (auto simp: reopen_def chan_inv_def refs_used_def)


section \<open>Reachable states\<close>

text \<open>Every operation of the client, in any order the callers, the server and the network choose.\<close>

inductive chan_step ::
  "(py_val \<Rightarrow> string res) \<Rightarrow> (string \<Rightarrow> py_val res) \<Rightarrow> 'h chan \<Rightarrow> 'h chan \<Rightarrow> bool"
  for json_dumps json_loads
where
  connect: "connect failure c = (r, c') \<Longrightarrow> chan_step json_dumps json_loads c c'"
| close: "chan_step json_dumps json_loads c (close c)"
| join_start: "join_start json_dumps topic on_msg c = (r, c') \<Longrightarrow> chan_step json_dumps json_loads c c'"
| join_finish: "map_of (ch_results c) ref = Some reply \<Longrightarrow> join_finish topic reply c = (r, c') \<Longrightarrow>
    chan_step json_dumps json_loads c c'"
| push: "push json_dumps p c = (r, c') \<Longrightarrow> chan_step json_dumps json_loads c c'"
| call_start: "call_start json_dumps p c = (r, c') \<Longrightarrow> chan_step json_dumps json_loads c c'"
| call_finish: "call_finish ref c = (r, c') \<Longrightarrow> chan_step json_dumps json_loads c c'"
| heartbeat: "ch_heartbeat c \<Longrightarrow> chan_step json_dumps json_loads c (heartbeat json_dumps c)"
| read_text: "read_text json_loads data c = (r, c') \<Longrightarrow> chan_step json_dumps json_loads c c'"
| read_loop_ended: "chan_step json_dumps json_loads c (read_loop_ended socket_closed c)"
| reconnect: "ch_reconnecting c \<Longrightarrow> \<not> ch_shutdown c \<Longrightarrow>
    reconnect_attempt json_dumps reply_of failure fuel c = (b, Some c') \<Longrightarrow> chan_step json_dumps json_loads c c'"

inductive_cases chan_stepE: "chan_step json_dumps json_loads c c'"

definition chan_reachable :: "(py_val \<Rightarrow> string res) \<Rightarrow> (string \<Rightarrow> py_val res) \<Rightarrow> 'h chan \<Rightarrow> bool" where
  "chan_reachable json_dumps json_loads c \<longleftrightarrow>
     (\<exists>auto. (chan_step json_dumps json_loads)\<^sup>*\<^sup>* (new_client auto) c)"

lemma heartbeat_inv:
  assumes "chan_inv c"
  shows "chan_inv (heartbeat d c)"
proof -
  let ?f = "[PyNone, PyStr (show_nat (ch_next_ref c)), PyStr ''phoenix'', PyStr ''heartbeat'', PyDict []]"
  let ?c1 = "c\<lparr>ch_next_ref := ch_next_ref c + 1\<rparr>"
  obtain r c2 where s: "send_frame d ?f ?c1 = (r, c2)" by fastforce
  have "chan_inv c2" using send_frame_inv [of ?c1 d ?f] chan_inv_next [OF assms] s by simp
  with s assms show ?thesis by (cases r) (simp_all add: heartbeat_def next_ref_def)
qed

lemma reconnect_attempt_inv:
  assumes "chan_inv c" "reconnect_attempt d rep f n c = (b, Some c')"
  shows "chan_inv c'"
proof (cases f)
  case None
  with assms(2) obtain c1 where
    "flush d n (rejoin_all d rep (ch_handlers c) (reopen c)) = Some c1" "c' = c1\<lparr>ch_reconnecting := False\<rparr>"
    by (auto simp: reconnect_attempt_def split: option.splits)
  with flush_inv [OF rejoin_all_inv [OF reopen_inv [OF assms(1)]]] show ?thesis by simp
qed (use assms in \<open>auto simp: reconnect_attempt_def\<close>)

lemma chan_step_inv: "chan_step d l c c' \<Longrightarrow> chan_inv c \<Longrightarrow> chan_inv c'"
proof (induction rule: chan_step.induct)
  case (connect f c r c')
  then show ?case by (auto simp: connect_def split: option.splits)
next
  case (close c)
  then show ?case by (simp add: close_def)
next
  case (join_start t h c r c')
  then show ?case
    using join_internal_start_inv [of c d t h] by (auto simp: join_start_def split: if_splits)
next
  case (join_finish c ref reply t r c')
  then show ?case using join_finish_inv [of c t reply] by simp
next
  case (push p c r c')
  then show ?case using push_inv [of c d p] by simp
next
  case (call_start p c r c')
  then show ?case using call_start_inv [of c d p] by simp
next
  case (call_finish ref c r c')
  then show ?case using pop_future_inv [of c ref] by (auto simp: call_finish_def)
next
  case (heartbeat c)
  then show ?case by (simp add: heartbeat_inv)
next
  case (read_text x c r c')
  then show ?case using read_text_inv [of c l x] by simp
next
  case (read_loop_ended c b)
  then show ?case by (simp add: read_loop_ended_def Let_def)
next
  case (reconnect c rep f n b c')
  then show ?case using reconnect_attempt_inv by blast
qed

lemma chan_reachable_inv: "chan_reachable d l c \<Longrightarrow> chan_inv c"
proof -
  assume "chan_reachable d l c"
  then obtain auto where "(chan_step d l)\<^sup>*\<^sup>* (new_client auto) c" by (auto simp: chan_reachable_def)
  then show ?thesis by (induction rule: rtranclp_induct) (auto intro: chan_step_inv)
qed

section \<open>The push buffer\<close>

lemma buffer_push_entries:
  assumes "length (ch_pending_pushes c) \<le> PENDING_PUSH_CAP"
  shows "ch_pending_pushes (buffer_push p c) = last_n PENDING_PUSH_CAP (ch_pending_pushes c @ [p])"
proof (cases "length (ch_pending_pushes c) = PENDING_PUSH_CAP")
  case True
  moreover have "0 < PENDING_PUSH_CAP" by (simp add: PENDING_PUSH_CAP_def)
  ultimately show ?thesis
    by (cases "ch_pending_pushes c") (auto simp: buffer_push_def last_n_def)
qed (use assms in \<open>simp add: buffer_push_def last_n_all\<close>)

interpretation buffer: bounded_log ch_pending_pushes buffer_push "\<lambda>_ _. False"
    "\<lambda>c. length (ch_pending_pushes c) \<le> PENDING_PUSH_CAP" PENDING_PUSH_CAP
  by unfold_locales (simp_all add: buffer_push_entries)

lemma accepted_all: "buffer.accepted ps c = ps"
  by (induction ps arbitrary: c) simp_all

text \<open>Pushes made one after another.\<close>

definition push_all :: "(py_val \<Rightarrow> string res) \<Rightarrow> pending_push list \<Rightarrow> 'h chan \<Rightarrow> 'h chan" where
  "push_all json_dumps ps c = fold (\<lambda>p c. snd (push json_dumps p c)) ps c"

lemma push_all_disconnected:
  assumes "ch_disconnected c" "\<forall>p\<in>set ps. has_key (fst p) (ch_join_refs c)"
  shows "push_all d ps c = fold buffer_push ps c \<and> ch_sent (fold buffer_push ps c) = ch_sent c \<and>
    ch_disconnected (fold buffer_push ps c) \<and> ch_join_refs (fold buffer_push ps c) = ch_join_refs c"
  using assms
proof (induction ps arbitrary: c)
  case (Cons p ps)
  have b: "ch_disconnected (buffer_push p c)" "ch_join_refs (buffer_push p c) = ch_join_refs c"
    "ch_sent (buffer_push p c) = ch_sent c"
    using Cons.prems(1) by (simp_all add: buffer_push_def Let_def)
  have "snd (push d p c) = buffer_push p c"
    using Cons.prems by (auto simp: push_def split: prod.splits option.splits)
  with Cons.IH [OF b(1)] Cons.prems(2) b show ?case by (simp add: push_all_def)
qed (simp add: push_all_def)

text \<open>While the client is disconnected, the flush loop queues every push it takes and never ends.\<close>

lemma flush_disconnected:
  assumes "ch_disconnected c" "ch_pending_pushes c \<noteq> []" "length (ch_pending_pushes c) \<le> PENDING_PUSH_CAP"
    "\<forall>p\<in>set (ch_pending_pushes c). has_key (fst p) (ch_join_refs c)"
  shows "flush d n c = None"
  using assms
proof (induction n arbitrary: c)
  case 0
  then show ?case by (cases "ch_pending_pushes c") (simp_all add: flush.simps)
next
  case (Suc n)
  then obtain p ps where ps: "ch_pending_pushes c = p # ps" by (cases "ch_pending_pushes c") auto
  define c1 where "c1 = snd (push d p (c\<lparr>ch_pending_pushes := ps\<rparr>))"
  have key: "has_key (fst p) (ch_join_refs c)" using Suc.prems(4) ps by simp
  have len: "length ps \<noteq> PENDING_PUSH_CAP" using Suc.prems(3) ps by simp
  obtain jr where "map_of (ch_join_refs c) (fst p) = Some jr" using key by blast
  then have c1: "c1 = c\<lparr>ch_pending_pushes := ps @ [p]\<rparr>"
    using Suc.prems(1) len by (cases p) (simp add: c1_def push_def buffer_push_def Let_def)
  have "flush d n c1 = None"
    using Suc.prems ps by (intro Suc.IH) (auto simp: c1)
  with ps show ?case by (simp add: flush.simps [of d "Suc n" c] c1_def)
qed


section \<open>Re-joining and flushing\<close>

text \<open>The frame of a join and of a push, as texts.\<close>

definition join_text :: "(py_val \<Rightarrow> string) \<Rightarrow> string \<Rightarrow> string \<Rightarrow> string" where
  "join_text enc topic ref = enc (PyList [PyStr ref, PyStr ref, PyStr topic, PyStr ''phx_join'', PyDict []])"

definition push_text :: "(py_val \<Rightarrow> string) \<Rightarrow> (string \<times> string) list \<Rightarrow> pending_push \<Rightarrow> string \<Rightarrow> string" where
  "push_text enc join_refs p ref =
     (case p of (topic, event, payload) \<Rightarrow>
        enc (PyList [PyStr (the (map_of join_refs topic)), PyStr ref, PyStr topic, PyStr event, payload]))"

definition refs_from :: "nat \<Rightarrow> nat \<Rightarrow> string list" where
  "refs_from n k = map show_nat [n..<n + k]"

lemma refs_from_Suc: "refs_from n (Suc k) = show_nat n # refs_from (Suc n) k"
proof -
  have "[n..<n + Suc k] = n # [Suc n..<Suc n + k]" by (simp add: upt_conv_Cons)
  then show ?thesis by (simp add: refs_from_def)
qed

lemma length_refs_from [simp]: "length (refs_from n k) = k"
  by (simp add: refs_from_def)

definition joined_after :: "(py_val \<Rightarrow> string) \<Rightarrow> (string \<times> 'h) list \<Rightarrow> 'h chan \<Rightarrow> 'h chan \<Rightarrow> bool" where
  "joined_after enc hs c c' \<longleftrightarrow>
     (let refs = refs_from (ch_next_ref c) (length hs) in
      ch_join_refs c' = ch_join_refs c @ zip (map fst hs) refs \<and> ch_handlers c' = ch_handlers c @ hs \<and>
      ch_next_ref c' = ch_next_ref c + length hs \<and>
      ch_sent c' = ch_sent c @ map2 (\<lambda>h ref. join_text enc (fst h) ref) hs refs \<and>
      ch_ws c' = ch_ws c \<and> ch_disconnected c' = ch_disconnected c \<and> ch_pending_pushes c' = ch_pending_pushes c)"

lemma rejoin_one:
  assumes "\<And>v. d v = Inr (enc v)" "ch_ws c = WsOpen" "rep t = PyDict kvs" "dget ''status'' kvs = Some (PyStr ''ok'')"
    "t \<notin> fst ` set (ch_join_refs c)" "t \<notin> fst ` set (ch_handlers c)"
  shows "\<exists>c1. rejoin_all d rep ((t, h) # hs) c = rejoin_all d rep hs c1 \<and> joined_after enc [(t, h)] c c1"
proof -
  define ref where "ref = show_nat (ch_next_ref c)"
  define c1 where "c1 = c\<lparr>ch_next_ref := ch_next_ref c + 1, ch_join_refs := ch_join_refs c @ [(t, ref)],
     ch_handlers := ch_handlers c @ [(t, h)], ch_sent := ch_sent c @ [join_text enc t ref],
     ch_pending := ddel ref (dset ref () (ch_pending c)), ch_results := dset ref (rep t) (ch_results c)\<rparr>"
  have "rejoin_all d rep ((t, h) # hs) c = rejoin_all d rep hs c1"
    using assms by (simp add: join_internal_start_def open_future_def next_ref_def send_frame_def join_finish_def
        pop_future_def Let_def dset_fresh dget_or_def join_text_def ref_def c1_def)
  moreover have "joined_after enc [(t, h)] c c1"
    by (simp add: joined_after_def c1_def ref_def refs_from_def)
  ultimately show ?thesis by blast
qed

lemma joined_after_trans:
  assumes "joined_after enc hs c c1" "joined_after enc hs' c1 c2"
  shows "joined_after enc (hs @ hs') c c2"
proof -
  have "refs_from n (k + m) = refs_from n k @ refs_from (n + k) m" for n k m
    using upt_add_eq_append [of n "n + k" m] by (simp add: refs_from_def add.assoc del: upt_add_eq_append)
  with assms show ?thesis by (simp add: joined_after_def Let_def)
qed

lemma rejoin_all_ok:
  assumes d: "\<And>v. d v = Inr (enc v)"
    and rep: "\<forall>t\<in>fst ` set hs. \<exists>kvs. rep t = PyDict kvs \<and> dget ''status'' kvs = Some (PyStr ''ok'')"
    and ws: "ch_ws c = WsOpen" and dist: "distinct (map fst hs)"
    and fresh: "fst ` set hs \<inter> (fst ` set (ch_join_refs c) \<union> fst ` set (ch_handlers c)) = {}"
  shows "joined_after enc hs c (rejoin_all d rep hs c)"
  using rep ws dist fresh
proof (induction hs arbitrary: c)
  case Nil
  then show ?case by (simp add: joined_after_def refs_from_def)
next
  case (Cons th hs)
  obtain t h where th: "th = (t, h)" by (cases th)
  obtain kvs where "rep t = PyDict kvs" "dget ''status'' kvs = Some (PyStr ''ok'')" using Cons.prems(1) th by auto
  with rejoin_one [of d enc c rep t kvs h hs] d Cons.prems th obtain c1 where
    c1: "rejoin_all d rep (th # hs) c = rejoin_all d rep hs c1" "joined_after enc [th] c c1"
    by auto
  have "joined_after enc hs c1 (rejoin_all d rep hs c1)"
    using Cons.prems c1(2) th by (intro Cons.IH) (auto simp: joined_after_def refs_from_def)
  with joined_after_trans [OF c1(2)] c1(1) show ?case by simp
qed

lemma flush_connected:
  assumes d: "\<And>v. d v = Inr (enc v)" and c: "ch_ws c = WsOpen" "\<not> ch_disconnected c"
    and ps: "\<forall>p\<in>set (ch_pending_pushes c). has_key (fst p) (ch_join_refs c)"
    and n: "length (ch_pending_pushes c) \<le> n"
  shows "flush d n c = Some (c\<lparr>ch_next_ref := ch_next_ref c + length (ch_pending_pushes c),
    ch_pending_pushes := [],
    ch_sent := ch_sent c @ map2 (push_text enc (ch_join_refs c)) (ch_pending_pushes c)
      (refs_from (ch_next_ref c) (length (ch_pending_pushes c)))\<rparr>)"
  using c ps n
proof (induction "ch_pending_pushes c" arbitrary: c n)
  case Nil
  then have "ch_pending_pushes c = []" by simp
  then show ?case by (simp add: flush.simps [of d n c] refs_from_def)
next
  case (Cons p ps)
  note pp = Cons.hyps(2) [symmetric]
  obtain m where n: "n = Suc m" using Cons.prems(4) pp by (cases n) auto
  obtain t e v where p: "p = (t, e, v)" by (cases p)
  obtain jr where jr: "map_of (ch_join_refs c) t = Some jr" using Cons.prems(3) pp p by auto
  define c1 where "c1 = c\<lparr>ch_pending_pushes := ps, ch_next_ref := Suc (ch_next_ref c),
    ch_sent := ch_sent c @ [push_text enc (ch_join_refs c) p (show_nat (ch_next_ref c))]\<rparr>"
  have step: "snd (push d p (c\<lparr>ch_pending_pushes := ps\<rparr>)) = c1"
    using Cons.prems(1,2) jr d by (simp add: p push_def next_ref_def send_frame_def c1_def push_text_def)
  have "flush d m c1 = Some (c1\<lparr>ch_next_ref := ch_next_ref c1 + length (ch_pending_pushes c1),
    ch_pending_pushes := [],
    ch_sent := ch_sent c1 @ map2 (push_text enc (ch_join_refs c1)) (ch_pending_pushes c1)
      (refs_from (ch_next_ref c1) (length (ch_pending_pushes c1)))\<rparr>)"
    using Cons.prems pp n by (intro Cons.hyps(1)) (auto simp: c1_def)
  then show ?case
    using pp by (simp add: flush.simps [of d "Suc m" c] n step) (simp add: c1_def refs_from_Suc)
qed


section \<open>Properties\<close>


lemma new_client_reachable: "chan_reachable d l (new_client auto)"
  by (auto simp: chan_reachable_def)



definition demo_chan :: "unit chan" where
  "demo_chan = (new_client True)\<lparr>ch_ws := WsClosed, ch_disconnected := True, ch_next_ref := 2,
     ch_join_refs := [(''t'', ''1'')], ch_handlers := [(''t'', ())], ch_pending_pushes := [(''t'', ''e'', PyNone)]\<rparr>"

lemma demo_chan_inv: "chan_inv demo_chan"
proof -
  have "show_nat 1 = ''1''" by code_simp
  then have "''1'' \<in> show_nat ` {..<2}" by (metis image_eqI lessThan_iff one_less_numeral_iff semiring_norm(76))
  then show ?thesis
    by (simp add: demo_chan_def new_client_def chan_inv_def refs_used_def PENDING_PUSH_CAP_def)
qed


text \<open>
  C31. A disconnected client buffers: pushes to joined topics send nothing and raise nothing, and the buffer
  afterwards is the most recent 1000 of the old entries followed by the new ones, in order.
\<close>

theorem disconnected_pushes_buffered:
  assumes "chan_inv c" "ch_disconnected c" "\<forall>p\<in>set ps. fst p \<in> fst ` set (ch_join_refs c)"
  shows "ch_pending_pushes (push_all json_dumps ps c) = last_n PENDING_PUSH_CAP (ch_pending_pushes c @ ps) \<and>
    ch_sent (push_all json_dumps ps c) = ch_sent c"
proof -
  have "\<forall>p\<in>set ps. has_key (fst p) (ch_join_refs c)"
    using assms(3) by (simp only: map_of_eq_None_iff not_not)
  from push_all_disconnected [OF assms(2) this, of json_dumps] buffer.fold_add_entries [of c ps] assms(1)
  show ?thesis by (simp add: accepted_all chan_inv_def)
qed

theorem disconnected_pushes_buffered_witness:
  "ch_pending_pushes (push_all (\<lambda>v. Inr (py_repr v)) [(''t'', ''f'', PyNone)] demo_chan) =
     last_n PENDING_PUSH_CAP [(''t'', ''e'', PyNone), (''t'', ''f'', PyNone)] \<and>
   ch_sent (push_all (\<lambda>v. Inr (py_repr v)) [(''t'', ''f'', PyNone)] demo_chan) = []"
proof -
  have f: "ch_disconnected demo_chan" "ch_join_refs demo_chan = [(''t'', ''1'')]"
    "ch_pending_pushes demo_chan = [(''t'', ''e'', PyNone)]" "ch_sent demo_chan = []"
    by (simp_all add: demo_chan_def new_client_def)
  show ?thesis
    using disconnected_pushes_buffered [OF demo_chan_inv f(1), of "[(''t'', ''f'', PyNone)]" "\<lambda>v. Inr (py_repr v)"]
    by (simp add: f)
qed

text \<open>
  C33. A call gets the reply to its own message: the reference it waits for was in use by nobody, a
  \<open>phx_reply\<close> with that reference completes it with the reply's payload, and a reply with any other
  reference leaves it waiting (where its timeout would still apply).
\<close>

theorem call_gets_own_reply:
  assumes "chan_inv c" "call_start json_dumps p c = (Inr ref, c1)"
    and "json_loads text1 = Inr (PyList [jr, PyStr ref, t, PyStr ''phx_reply'', payload])"
    and "json_loads text2 = Inr (PyList [jr', PyStr ref', t', PyStr ''phx_reply'', payload'])" "ref' \<noteq> ref"
  shows "ref \<notin> refs_used c \<and>
    fst (call_finish ref (snd (read_text json_loads text1 c1))) = Inr payload \<and>
    fst (call_finish ref (snd (read_text json_loads text1 (snd (read_text json_loads text2 c1))))) = Inr payload \<and>
    fst (call_finish ref (snd (read_text json_loads text2 c1))) = Inl (Exc ''TimeoutError'' [])"
proof -
  obtain tp ev v where p: "p = (tp, ev, v)" by (cases p)
  obtain ref0 c0 where o: "open_future () c = (ref0, c0)" by fastforce
  note f = open_future_inv [OF assms(1) o]
  have s: "ref0 = ref \<and> (\<exists>ts. c1 = c0\<lparr>ch_sent := ts\<rparr>)"
    using assms(2) o p by (auto simp: call_start_def dest: send_frame_sent split: option.splits prod.splits sum.splits)
  have fresh: "ref \<notin> refs_used c" using f s by blast
  have c1: "map_of (ch_pending c1) ref = Some ()" "map_of (ch_results c1) ref = None"
    using f s fresh by (auto simp: refs_used_def map_of_eq_None_iff)
  have r1: "read_text json_loads text1 x = on_reply ref payload x"
    and r2: "read_text json_loads text2 x = on_reply ref' payload' x" for x :: "'a chan"
    using assms(3,4) by (simp_all add: read_text_def unpack5_def)
  have own: "map_of (ch_results (snd (on_reply ref payload x))) ref = Some payload"
    if "map_of (ch_pending x) ref = Some ()" "map_of (ch_results x) ref = None" for x :: "'a chan"
    using that by (simp add: on_reply_def pop_future_def)
  have other: "map_of (ch_pending (snd (on_reply ref' payload' x))) ref = map_of (ch_pending x) ref"
    "map_of (ch_results (snd (on_reply ref' payload' x))) ref = map_of (ch_results x) ref" for x :: "'a chan"
    using assms(5) by (auto simp: on_reply_def pop_future_def map_of_ddel split: option.splits)
  show ?thesis
    using fresh own [of c1] own [of "snd (on_reply ref' payload' c1)"] other [of c1] c1
    by (simp add: r1 r2 call_finish_def)
qed

theorem call_gets_own_reply_witness:
  "\<exists>ref c1. call_start (\<lambda>v. Inr (py_repr v)) (''t'', ''ping'', PyDict []) (demo_chan\<lparr>ch_ws := WsOpen\<rparr>) = (Inr ref, c1) \<and>
     fst (call_finish ref (snd (read_text (\<lambda>x. Inr (PyList [PyNone, PyStr x, PyStr ''t'', PyStr ''phx_reply'', PyInt 7])) ref c1)))
       = Inr (PyInt 7)"
proof -
  let ?c = "demo_chan\<lparr>ch_ws := WsOpen\<rparr>"
  let ?l = "\<lambda>x. Inr (PyList [PyNone, PyStr x, PyStr ''t'', PyStr ''phx_reply'', PyInt 7])"
  obtain ref c1 where s: "call_start (\<lambda>v. Inr (py_repr v)) (''t'', ''ping'', PyDict []) ?c = (Inr ref, c1)"
    by (simp add: call_start_def open_future_def next_ref_def send_frame_def demo_chan_def new_client_def)
  have "chan_inv ?c" using demo_chan_inv by simp
  from call_gets_own_reply [OF this s, of ?l ref PyNone "PyStr ''t''" "PyInt 7" "ref @ ''x''" PyNone "ref @ ''x''" "PyStr ''t''" "PyInt 7"] s
  show ?thesis by simp
qed

text \<open>
  C37. The flush loop hangs when the connection drops under it: once the client is disconnected again, every
  turn takes a push from the buffer and \<open>push\<close> puts it back, so no number of turns is enough, and no turn
  suspends.
\<close>

theorem flush_hangs_when_disconnected:
  assumes "ch_disconnected c" "ch_pending_pushes c \<noteq> []" "length (ch_pending_pushes c) \<le> PENDING_PUSH_CAP"
    "\<forall>p\<in>set (ch_pending_pushes c). fst p \<in> fst ` set (ch_join_refs c)"
  shows "flush json_dumps n c = None"
  by (rule flush_disconnected [OF assms(1-3)]) (use assms(4) in \<open>simp only: map_of_eq_None_iff not_not\<close>)

theorem flush_hangs_when_disconnected_witness:
  "flush (\<lambda>v. Inr (py_repr v)) 1000000 demo_chan = None"
  by (rule flush_hangs_when_disconnected)
    (simp_all add: demo_chan_def new_client_def PENDING_PUSH_CAP_def)

text \<open>
  Which messages end the read loop: only well-formed frames whose reference (for a reply) or topic (for
  anything else) is not hashable; every other malformed text is ignored and changes nothing.
\<close>

lemma read_loop_dies_iff:
  "(\<exists>e. fst (read_text json_loads data c) = LoopDies e) \<longleftrightarrow>
     (\<exists>frame ref topic event payload. json_loads data = Inr frame \<and>
        unpack5 frame = Some (ref, topic, event, payload) \<and>
        \<not> hashable (if event = PyStr ''phx_reply'' then ref else topic))"
proof (cases "json_loads data")
  case (Inr frame)
  show ?thesis
  proof (cases "unpack5 frame")
    case (Some q)
    obtain ref topic event payload where q: "q = (ref, topic, event, payload)" by (cases q)
    have "fst (case v of PyStr r \<Rightarrow> on_reply r payload c | _ \<Rightarrow> (Ignored, c)) \<noteq> LoopDies e"
      "fst (case v of PyStr t \<Rightarrow> on_message t frame c | _ \<Rightarrow> (Ignored, c)) \<noteq> LoopDies e" for v e
      by (cases v; simp add: on_reply_def on_message_def split: option.splits prod.splits)+
    with Inr Some q show ?thesis by (auto simp: read_text_def)
  qed (use Inr in \<open>simp add: read_text_def\<close>)
qed (simp add: read_text_def)

end
