(* ===== verification/Handlers.thy ===== *)
theory Handlers
  imports Envelope
begin

text \<open>
  The four message handlers under \<^verbatim>\<open>handlers/\<close>: \<open>feishu_app\<close>, \<open>feishu_thread\<close>, \<open>cc_session\<close> and
  \<open>cc_adapter_runner\<close>, with their frozen state models. A handler is a pure function from a state and
  an event to a new state and a list of actions; each one implements the contract
  \<open>reactive\<close> of the prelude.
\<close>

section \<open>feishu_app\<close>

record feishu_app_state =
  fa_app_id :: string
  fa_bound_threads :: "string set"
  fa_active_thread_by_chat :: "(string \<times> string) list"
  fa_last_chat_id :: string

definition feishu_app_init :: feishu_app_state where
  "feishu_app_init =
     \<lparr>fa_app_id = [], fa_bound_threads = {}, fa_active_thread_by_chat = [], fa_last_chat_id = []\<rparr>"

definition with_added_thread :: "string \<Rightarrow> feishu_app_state \<Rightarrow> feishu_app_state" where
  "with_added_thread thread_id s = s\<lparr>fa_bound_threads := insert thread_id (fa_bound_threads s)\<rparr>"

definition with_active_thread :: "string \<Rightarrow> string \<Rightarrow> feishu_app_state \<Rightarrow> feishu_app_state" where
  "with_active_thread chat_id thread_id s =
     s\<lparr>fa_active_thread_by_chat := dset chat_id thread_id (fa_active_thread_by_chat s)\<rparr>"

definition with_last_chat_id :: "string \<Rightarrow> feishu_app_state \<Rightarrow> feishu_app_state" where
  "with_last_chat_id chat_id s = s\<lparr>fa_last_chat_id := chat_id\<rparr>"

text \<open>\<open>str(event.args.get(k, ""))\<close>.\<close>

definition arg_str :: "event \<Rightarrow> string \<Rightarrow> string" where
  "arg_str e k = py_str (dget_or k (PyStr []) (ev_args e))"

definition NEW_SESSION_PREFIX :: string where
  "NEW_SESSION_PREFIX = ''/new-session ''"

definition NEW_THREAD_PREFIX :: string where
  "NEW_THREAD_PREFIX = ''/new-thread ''"

text \<open>The named arguments of \<open>/new-session\<close>: name, cwd and worktree.\<close>

fun session_args :: "string list \<Rightarrow> string \<times> string \<times> string \<Rightarrow> string \<times> string \<times> string" where
  "session_args [] acc = acc"
| "session_args (p # ps) (name, cwd, worktree) =
     session_args ps
       (if startswith p ''name='' then (drop 5 p, cwd, worktree)
        else if startswith p ''cwd='' then (name, drop 4 p, worktree)
        else if startswith p ''worktree='' then (name, cwd, drop (length ''worktree='') p)
        else if startswith p ''tag='' then (if name = [] then drop 4 p else name, cwd, worktree)
        else (name, cwd, worktree))"

definition default_name :: "event \<Rightarrow> string" where
  "default_name event =
     (let mid = arg_str event ''message_id'';
          slug = take 12 (if CHR ''_'' \<in> set mid then after CHR ''_'' mid else mid)
      in if slug = [] then ''sess'' else slug)"

definition handle_new_session ::
  "feishu_app_state \<Rightarrow> event \<Rightarrow> string \<Rightarrow> string \<Rightarrow> string \<Rightarrow> feishu_app_state \<times> action list"
where
  "handle_new_session state event content prefix default_workspace =
     (let body = strip (drop (length prefix) content) in
      if body = [] then (state, [])
      else
        let parts = split_ws body in
        if default_workspace \<noteq> [] \<and> parts = [] then (state, [])
        else
          let (workspace, name0, cwd, worktree) =
                (if default_workspace \<noteq> [] then (default_workspace, parts ! 0, [], [])
                 else (if parts \<noteq> [] then parts ! 0 else [], session_args (drop 1 parts) ([], [], [])))
          in if workspace = [] then (state, [])
             else
               let name = (if name0 = [] then default_name event else name0);
                   chat_id = arg_str event ''chat_id'';
                   state1 = with_added_thread name state;
                   state2 = (if chat_id \<noteq> [] then with_active_thread chat_id name state1 else state1)
               in (state2,
                   [InvokeCommand (PyStr ''feishu-thread-session'')
                      (mkdict [(''thread_id'', PyStr name), (''chat_id'', PyStr chat_id),
                               (''workspace'', PyStr workspace), (''tag'', PyStr name), (''name'', PyStr name),
                               (''cwd'', PyStr cwd), (''worktree'', PyStr worktree)])]))"

definition thread_target :: "string \<Rightarrow> py_val" where
  "thread_target t = PyStr (''thread:'' @ t)"

definition inner_event :: "string \<Rightarrow> py_kvs \<Rightarrow> py_val" where
  "inner_event ty args = PyDict (mkdict [(''event_type'', PyStr ty), (''args'', PyDict args)])"

definition handle_at_routed :: "feishu_app_state \<Rightarrow> event \<Rightarrow> string \<Rightarrow> feishu_app_state \<times> action list" where
  "handle_at_routed state event content =
     (let rest = drop 1 content in
      if CHR '' '' \<notin> set rest then (state, [])
      else
        let tag = before CHR '' '' rest; body = after CHR '' '' rest in
        if tag \<notin> fa_bound_threads state then (state, [])
        else (state, [Route (thread_target tag)
               (inner_event ''msg_received'' (dset (PyStr ''content'') (PyStr body) (ev_args event)))]))"

definition feishu_app_on_msg :: "feishu_app_state \<Rightarrow> event \<Rightarrow> feishu_app_state \<times> action list" where
  "feishu_app_on_msg state event =
     (if ev_event_type event \<noteq> PyStr ''msg_received'' then (state, [])
      else
        let content = arg_str event ''content'';
            chat_id = arg_str event ''chat_id'';
            new_state = (if chat_id \<noteq> [] \<and> chat_id \<noteq> fa_last_chat_id state
                         then with_last_chat_id chat_id state else state)
        in if startswith content NEW_SESSION_PREFIX then
             handle_new_session new_state event content NEW_SESSION_PREFIX []
           else if startswith content NEW_THREAD_PREFIX then
             handle_new_session new_state event content NEW_THREAD_PREFIX ''legacy''
           else if startswith content ''@'' then handle_at_routed new_state event content
           else
             (case map_of (fa_active_thread_by_chat new_state) chat_id of
                Some thread_id \<Rightarrow>
                  if thread_id \<noteq> [] \<and> thread_id \<in> fa_bound_threads new_state
                  then (new_state, [Route (thread_target thread_id) (inner_event ''msg_received'' (ev_args event))])
                  else (new_state, [])
              | None \<Rightarrow> (new_state, [])))"


section \<open>feishu_thread\<close>

definition DEDUP_CAP :: nat where
  "DEDUP_CAP = 1000"

record feishu_thread_state =
  ft_thread_id :: string
  ft_chat_id :: string
  ft_dedup :: "string set"
  ft_dedup_order :: "string list"
  ft_ack_msg_id :: "string option"

definition with_added_dedup :: "string \<Rightarrow> feishu_thread_state \<Rightarrow> feishu_thread_state" where
  "with_added_dedup msg_id s =
     (if msg_id \<in> ft_dedup s then s
      else
        let new_order = ft_dedup_order s @ [msg_id];
            new_dedup = insert msg_id (ft_dedup s)
        in if length new_order > DEDUP_CAP
           then s\<lparr>ft_dedup := new_dedup - {hd new_order}, ft_dedup_order := tl new_order\<rparr>
           else s\<lparr>ft_dedup := new_dedup, ft_dedup_order := new_order\<rparr>)"

definition with_chat_id :: "string \<Rightarrow> feishu_thread_state \<Rightarrow> feishu_thread_state" where
  "with_chat_id chat_id s = s\<lparr>ft_chat_id := chat_id\<rparr>"

definition with_ack :: "string \<Rightarrow> feishu_thread_state \<Rightarrow> feishu_thread_state" where
  "with_ack msg_id s = s\<lparr>ft_ack_msg_id := Some msg_id\<rparr>"

definition notify_action :: "feishu_thread_state \<Rightarrow> event \<Rightarrow> action" where
  "notify_action state event =
     Emit (PyStr ''esr-channel'') (PyStr ''notify_session'')
       (mkdict [(''session_id'', PyStr (ft_thread_id state)), (''source'', PyStr ''feishu''),
                (''chat_id'', PyStr (arg_str event ''chat_id'')),
                (''message_id'', PyStr (arg_str event ''message_id'')),
                (''user'', PyStr (arg_str event ''sender_id'')),
                (''content'', PyStr (arg_str event ''content''))])"

definition handle_inbound :: "feishu_thread_state \<Rightarrow> event \<Rightarrow> feishu_thread_state \<times> action list" where
  "handle_inbound state event =
     (let msg_id = arg_str event ''message_id'' in
      if msg_id \<noteq> [] \<and> msg_id \<in> ft_dedup state then (state, [])
      else
        let state1 = (if msg_id \<noteq> [] then with_added_dedup msg_id state else state);
            chat_id = arg_str event ''chat_id'';
            state2 = (if chat_id \<noteq> [] \<and> ft_chat_id state1 = [] then with_chat_id chat_id state1 else state1)
        in (state2, [notify_action state event]))"

definition handle_outbound :: "feishu_thread_state \<Rightarrow> event \<Rightarrow> feishu_thread_state \<times> action list" where
  "handle_outbound state event =
     (if ft_chat_id state = [] then (state, [])
      else (state, [Emit (PyStr ''feishu'') (PyStr ''send_message'')
             (mkdict [(''chat_id'', PyStr (ft_chat_id state)), (''content'', PyStr (arg_str event ''text''))])]))"

definition feishu_thread_on_msg :: "feishu_thread_state \<Rightarrow> event \<Rightarrow> feishu_thread_state \<times> action list" where
  "feishu_thread_on_msg state event =
     (if ev_event_type event = PyStr ''msg_received'' then handle_inbound state event
      else if ev_event_type event = PyStr ''cc_output'' then handle_outbound state event
      else (state, []))"


section \<open>cc_session and cc_adapter_runner\<close>

record cc_session_state =
  cs_session_name :: string
  cs_parent_thread :: string
  cs_pending_outputs :: "string list"

definition cc_session_on_msg :: "cc_session_state \<Rightarrow> event \<Rightarrow> cc_session_state \<times> action list" where
  "cc_session_on_msg state event =
     (if ev_event_type event = PyStr ''cc_output'' then
        (if cs_parent_thread state = [] then (state, [])
         else (state, [Route (thread_target (cs_parent_thread state)) (inner_event ''cc_output'' (ev_args event))]))
      else (state, []))"

record cc_adapter_runner_state =
  ca_message_count :: int

definition cc_adapter_runner_on_msg ::
  "cc_adapter_runner_state \<Rightarrow> event \<Rightarrow> cc_adapter_runner_state \<times> action list"
where
  "cc_adapter_runner_on_msg state event =
     (if ev_event_type event = PyStr ''text'' then
        (\<lparr>ca_message_count = ca_message_count state + 1\<rparr>,
         [SendInput (dget_or ''text'' (PyStr []) (ev_args event))])
      else (state, []))"

section \<open>Invariants\<close>

text \<open>Every active thread of a chat is bound.\<close>

definition app_inv :: "feishu_app_state \<Rightarrow> bool" where
  [inv_simps]: "app_inv s \<longleftrightarrow>
     distinct (map fst (fa_active_thread_by_chat s)) \<and>
     snd ` set (fa_active_thread_by_chat s) \<subseteq> fa_bound_threads s"

text \<open>Messages are routed to bound threads only; a session command names the thread it binds.\<close>

fun app_good :: "feishu_app_state \<Rightarrow> event \<Rightarrow> action \<Rightarrow> bool" where
  "app_good s e (Route tgt msg) =
     (ev_event_type e = PyStr ''msg_received'' \<and> (\<exists>t\<in>fa_bound_threads s. tgt = thread_target t))"
| "app_good s e (InvokeCommand n params) =
     (ev_event_type e = PyStr ''msg_received'' \<and> n = PyStr ''feishu-thread-session'' \<and>
      (\<exists>t\<in>fa_bound_threads s. t \<noteq> [] \<and> dget ''thread_id'' params = Some (PyStr t) \<and>
         (arg_str e ''chat_id'' = [] \<or> map_of (fa_active_thread_by_chat s) (arg_str e ''chat_id'') = Some t)) \<and>
      (\<exists>w. w \<noteq> [] \<and> dget ''workspace'' params = Some (PyStr w)))"
| "app_good s e _ = False"

lemma app_inv_init [simp]: "app_inv feishu_app_init"
  by (simp add: app_inv_def feishu_app_init_def)

lemma set_dset: "set (dset k v d) \<subseteq> insert (k, v) (set d)"
  by (induction k v d rule: dset.induct) auto

lemma app_inv_updates [simp]:
  "app_inv s \<Longrightarrow> app_inv (with_added_thread t s)"
  "app_inv s \<Longrightarrow> t \<in> fa_bound_threads s \<Longrightarrow> app_inv (with_active_thread c t s)"
  "app_inv (with_last_chat_id c s) = app_inv s"
  using set_dset [of c t "fa_active_thread_by_chat s"]
  by (fastforce simp: app_inv_def with_added_thread_def with_active_thread_def with_last_chat_id_def)+

lemma default_name_not_Nil: "default_name e \<noteq> []"
  by (simp add: default_name_def Let_def)

lemma handle_new_session_ok:
  assumes "app_inv s" "ev_event_type e = PyStr ''msg_received''"
    "handle_new_session s e content prefix dw = (s', acts)"
  shows "app_inv s' \<and> (\<forall>a\<in>set acts. app_good s' e a)"
proof (cases "acts = []")
  case True
  with assms show ?thesis by (auto simp: handle_new_session_def Let_def split: if_splits prod.splits)
next
  case False
  define body where "body = strip (drop (length prefix) content)"
  define parts where "parts = split_ws body"
  obtain w name0 cwd wt where w: "(if dw \<noteq> [] then (dw, parts ! 0, [], [])
      else (if parts \<noteq> [] then parts ! 0 else [], session_args (drop 1 parts) ([], [], []))) = (w, name0, cwd, wt)"
    by (metis prod_cases4)
  define name where "name = (if name0 = [] then default_name e else name0)"
  define s1 where "s1 = with_added_thread name s"
  define s2 where "s2 = (if arg_str e ''chat_id'' \<noteq> [] then with_active_thread (arg_str e ''chat_id'') name s1 else s1)"
  have eq: "w \<noteq> []" "s' = s2" "acts = [InvokeCommand (PyStr ''feishu-thread-session'')
     (mkdict [(''thread_id'', PyStr name), (''chat_id'', PyStr (arg_str e ''chat_id'')),
       (''workspace'', PyStr w), (''tag'', PyStr name), (''name'', PyStr name), (''cwd'', PyStr cwd), (''worktree'', PyStr wt)])]"
    using assms(3) False unfolding handle_new_session_def body_def [symmetric] parts_def [symmetric] Let_def w
    by (auto simp: name_def s1_def s2_def split: if_splits)
  have "name \<noteq> []" by (simp add: name_def default_name_not_Nil)
  moreover have "name \<in> fa_bound_threads s1" by (simp add: s1_def with_added_thread_def)
  moreover have "app_inv s1" using assms(1) by (simp add: s1_def)
  ultimately show ?thesis
    using eq assms(2) by (auto simp: s2_def with_active_thread_def [of _ _ s1, THEN arg_cong [of _ _ fa_bound_threads]]
        with_active_thread_def [of _ _ s1, THEN arg_cong [of _ _ fa_active_thread_by_chat]])
qed

lemma feishu_app_step:
  assumes "app_inv s" "feishu_app_on_msg s e = (s', acts)"
  shows "app_inv s' \<and> (\<forall>a\<in>set acts. app_good s' e a)"
proof (cases "ev_event_type e = PyStr ''msg_received''")
  case True
  define s0 where "s0 = (if arg_str e ''chat_id'' \<noteq> [] \<and> arg_str e ''chat_id'' \<noteq> fa_last_chat_id s
    then with_last_chat_id (arg_str e ''chat_id'') s else s)"
  have s0: "app_inv s0" using assms(1) by (simp add: s0_def)
  show ?thesis
  proof (cases "startswith (arg_str e ''content'') NEW_SESSION_PREFIX \<or> startswith (arg_str e ''content'') NEW_THREAD_PREFIX")
    case new: True
    with assms(2) True obtain p dw where
      "handle_new_session s0 e (arg_str e ''content'') p dw = (s', acts)"
      by (auto simp: feishu_app_on_msg_def Let_def s0_def split: if_splits)
    with handle_new_session_ok [OF s0 True] show ?thesis by blast
  next
    case old: False
    with assms(2) True s0 show ?thesis
      unfolding feishu_app_on_msg_def Let_def s0_def [symmetric]
      by (auto simp: handle_at_routed_def Let_def split: if_splits option.splits)
  qed
next
  case False
  with assms show ?thesis by (simp add: feishu_app_on_msg_def)
qed

interpretation app: reactive feishu_app_on_msg app_inv app_good
  by unfold_locales (metis feishu_app_step prod.collapse)+

text \<open>The de-duplication window of a thread.\<close>

definition thread_inv :: "feishu_thread_state \<Rightarrow> bool" where
  [inv_simps]: "thread_inv s \<longleftrightarrow>
     set (ft_dedup_order s) = ft_dedup s \<and> distinct (ft_dedup_order s) \<and> length (ft_dedup_order s) \<le> DEDUP_CAP"

lemma with_added_dedup_order:
  assumes "thread_inv s"
  shows "ft_dedup_order (with_added_dedup m s) =
    (if m \<in> ft_dedup s then ft_dedup_order s else last_n DEDUP_CAP (ft_dedup_order s @ [m]))"
proof (cases "length (ft_dedup_order s) = DEDUP_CAP")
  case True
  then have "ft_dedup_order s \<noteq> []" by (auto simp: DEDUP_CAP_def)
  moreover have "Suc 0 - DEDUP_CAP = 0" by (simp add: DEDUP_CAP_def)
  ultimately show ?thesis
    using True by (simp add: with_added_dedup_def Let_def last_n_def drop_Suc)
next
  case False
  with assms have "length (ft_dedup_order s @ [m]) \<le> DEDUP_CAP" by (simp add: thread_inv_def)
  with False show ?thesis by (simp add: with_added_dedup_def Let_def last_n_all)
qed

lemma with_added_dedup_inv:
  assumes "thread_inv s"
  shows "thread_inv (with_added_dedup m s)"
proof (cases "m \<in> ft_dedup s")
  case False
  have cap: "0 < DEDUP_CAP" by (simp add: DEDUP_CAP_def)
  show ?thesis
  proof (cases "length (ft_dedup_order s) = DEDUP_CAP")
    case True
    with cap obtain x xs where "ft_dedup_order s = x # xs" by (cases "ft_dedup_order s") auto
    with False True assms show ?thesis
      by (auto simp: thread_inv_def with_added_dedup_def Let_def)
  next
    case small: False
    with False assms show ?thesis by (auto simp: thread_inv_def with_added_dedup_def Let_def)
  qed
qed (use assms in \<open>simp add: with_added_dedup_def\<close>)

interpretation dedup: bounded_log ft_dedup_order with_added_dedup "\<lambda>s m. m \<in> ft_dedup s" thread_inv DEDUP_CAP
  by unfold_locales (simp_all add: with_added_dedup_order with_added_dedup_inv, simp add: thread_inv_def)

lemma handle_inbound_state:
  "thread_inv s \<Longrightarrow> thread_inv (fst (handle_inbound s e))"
  using with_added_dedup_inv [of s] by (auto simp: handle_inbound_def Let_def with_chat_id_def thread_inv_def)

lemma with_added_dedup_fields [simp]:
  "ft_chat_id (with_added_dedup m s) = ft_chat_id s" "ft_thread_id (with_added_dedup m s) = ft_thread_id s"
  by (simp_all add: with_added_dedup_def Let_def)

lemma with_added_dedup_mem: "thread_inv s \<Longrightarrow> m \<in> ft_dedup (with_added_dedup m s)"
  by (cases "ft_dedup_order s") (simp_all add: with_added_dedup_def Let_def thread_inv_def DEDUP_CAP_def, fastforce)

text \<open>
  A notification carries the id and content of the message it answers, and the thread remembers the
  message; output goes to the chat the thread belongs to.
\<close>

fun thread_good :: "feishu_thread_state \<Rightarrow> event \<Rightarrow> action \<Rightarrow> bool" where
  "thread_good s e (Emit adapter act args) =
     (adapter = PyStr ''esr-channel'' \<and> act = PyStr ''notify_session'' \<and>
        ev_event_type e = PyStr ''msg_received'' \<and>
        dget ''session_id'' args = Some (PyStr (ft_thread_id s)) \<and>
        dget ''message_id'' args = Some (PyStr (arg_str e ''message_id'')) \<and>
        dget ''content'' args = Some (PyStr (arg_str e ''content'')) \<and>
        (arg_str e ''message_id'' \<noteq> [] \<longrightarrow> arg_str e ''message_id'' \<in> ft_dedup s) \<or>
      adapter = PyStr ''feishu'' \<and> act = PyStr ''send_message'' \<and> ev_event_type e = PyStr ''cc_output'' \<and>
        ft_chat_id s \<noteq> [] \<and> dget ''chat_id'' args = Some (PyStr (ft_chat_id s)))"
| "thread_good s e _ = False"

lemma feishu_thread_inv: "thread_inv s \<Longrightarrow> thread_inv (fst (feishu_thread_on_msg s e))"
  by (simp add: feishu_thread_on_msg_def handle_inbound_state handle_outbound_def)

lemma feishu_thread_good:
  assumes "thread_inv s" "a \<in> set (snd (feishu_thread_on_msg s e))"
  shows "thread_good (fst (feishu_thread_on_msg s e)) e a"
proof (cases "ev_event_type e = PyStr ''msg_received''")
  case True
  with assms with_added_dedup_mem [of s "arg_str e ''message_id''"] show ?thesis
    by (auto simp: feishu_thread_on_msg_def handle_inbound_def Let_def notify_action_def with_chat_id_def
        split: if_splits)
next
  case False
  with assms show ?thesis
    by (auto simp: feishu_thread_on_msg_def handle_outbound_def split: if_splits)
qed

interpretation thread: reactive feishu_thread_on_msg thread_inv thread_good
  by unfold_locales (simp_all add: feishu_thread_inv feishu_thread_good)

interpretation cc_session: reactive cc_session_on_msg "\<lambda>s. cs_parent_thread s = p"
    "\<lambda>s e a. ev_event_type e = PyStr ''cc_output'' \<and> p \<noteq> [] \<and>
       a = Route (thread_target p) (inner_event ''cc_output'' (ev_args e))" for p
  by unfold_locales (auto simp: cc_session_on_msg_def split: if_splits)

interpretation cc_runner: reactive cc_adapter_runner_on_msg "\<lambda>_. True"
    "\<lambda>s e a. ev_event_type e = PyStr ''text'' \<and> a = SendInput (dget_or ''text'' (PyStr []) (ev_args e))"
  by unfold_locales (auto simp: cc_adapter_runner_on_msg_def split: if_splits)


section \<open>Exactly-once notification\<close>

text \<open>The message ids that a run notifies about.\<close>

fun notify_id :: "action \<Rightarrow> string list" where
  "notify_id (Emit adapter act args) =
     (if adapter = PyStr ''esr-channel'' \<and> act = PyStr ''notify_session''
      then (case dget ''message_id'' args of Some (PyStr m) \<Rightarrow> [m] | _ \<Rightarrow> []) else [])"
| "notify_id _ = []"

definition notified :: "feishu_thread_state \<Rightarrow> event list \<Rightarrow> string list" where
  "notified s es =
     filter (\<lambda>m. m \<noteq> []) (concat (map (\<lambda>(e, s', acts). concat (map notify_id acts)) (thread.run s es)))"

text \<open>The non-empty ids of the inbound messages.\<close>

definition inbound_ids :: "event list \<Rightarrow> string list" where
  "inbound_ids es =
     filter (\<lambda>m. m \<noteq> []) (map (\<lambda>e. arg_str e ''message_id'')
       (filter (\<lambda>e. ev_event_type e = PyStr ''msg_received'') es))"

lemma with_added_dedup_set:
  assumes "m \<notin> ft_dedup s \<Longrightarrow> length (ft_dedup_order s) < DEDUP_CAP"
  shows "ft_dedup (with_added_dedup m s) = insert m (ft_dedup s)"
  using assms by (cases "m \<in> ft_dedup s") (simp_all add: with_added_dedup_def Let_def insert_absorb)

lemma notified_step:
  assumes "thread_inv s" "card (insert m (ft_dedup s)) \<le> DEDUP_CAP"
    "m = arg_str e ''message_id''" "ev_event_type e = PyStr ''msg_received''" "m \<noteq> []"
  shows "concat (map notify_id (snd (feishu_thread_on_msg s e))) = (if m \<in> ft_dedup s then [] else [m])"
    "ft_dedup (fst (feishu_thread_on_msg s e)) = insert m (ft_dedup s)"
proof -
  have "length (ft_dedup_order s) < DEDUP_CAP" if "m \<notin> ft_dedup s"
  proof -
    have "card (ft_dedup s) = length (ft_dedup_order s)"
      using assms(1) by (metis distinct_card thread_inv_def)
    moreover have "finite (ft_dedup s)"
      using assms(1) by (metis List.finite_set thread_inv_def)
    ultimately show ?thesis using assms(2) that by simp
  qed
  note d = with_added_dedup_set [OF this]
  show "ft_dedup (fst (feishu_thread_on_msg s e)) = insert m (ft_dedup s)"
    using assms d by (simp add: feishu_thread_on_msg_def handle_inbound_def Let_def with_chat_id_def insert_absorb)
  show "concat (map notify_id (snd (feishu_thread_on_msg s e))) = (if m \<in> ft_dedup s then [] else [m])"
    using assms by (simp add: feishu_thread_on_msg_def handle_inbound_def Let_def notify_action_def)
qed

lemma notified_other:
  assumes "ev_event_type e = PyStr ''msg_received'' \<longrightarrow> arg_str e ''message_id'' = []"
  shows "filter (\<lambda>m. m \<noteq> []) (concat (map notify_id (snd (feishu_thread_on_msg s e)))) = []"
    "ft_dedup (fst (feishu_thread_on_msg s e)) = ft_dedup s"
  using assms
  by (auto simp: feishu_thread_on_msg_def handle_inbound_def handle_outbound_def Let_def notify_action_def
      with_chat_id_def)

lemma notified_Cons:
  "notified s (e # es) = filter (\<lambda>m. m \<noteq> []) (concat (map notify_id (snd (feishu_thread_on_msg s e)))) @
     notified (fst (feishu_thread_on_msg s e)) es"
  by (simp add: notified_def case_prod_unfold)

lemma notified_exactly_once:
  assumes "thread_inv s" "card (ft_dedup s \<union> set (inbound_ids es)) \<le> DEDUP_CAP"
  shows "distinct (notified s es) \<and> set (notified s es) = set (inbound_ids es) - ft_dedup s"
  using assms
proof (induction es arbitrary: s)
  case Nil
  then show ?case by (simp add: notified_def inbound_ids_def)
next
  case (Cons e es)
  define m where "m = arg_str e ''message_id''"
  define s' where "s' = fst (feishu_thread_on_msg s e)"
  have inv: "thread_inv s'" using Cons.prems(1) by (simp add: s'_def feishu_thread_inv)
  have fin: "finite (ft_dedup s)" using Cons.prems(1) by (metis List.finite_set thread_inv_def)
  show ?case
  proof (cases "ev_event_type e = PyStr ''msg_received'' \<and> m \<noteq> []")
    case True
    then have ids: "inbound_ids (e # es) = m # inbound_ids es"
      by (simp add: inbound_ids_def m_def)
    have "insert m (ft_dedup s) \<subseteq> ft_dedup s \<union> set (inbound_ids (e # es))" by (auto simp: ids)
    then have "card (insert m (ft_dedup s)) \<le> DEDUP_CAP"
      using Cons.prems(2) fin by (meson List.finite_set card_mono finite_UnI le_trans)
    note st = notified_step [OF Cons.prems(1) this m_def] True
    have d: "ft_dedup s' = insert m (ft_dedup s)" using st(2) True by (simp add: s'_def)
    have "ft_dedup s' \<union> set (inbound_ids es) = ft_dedup s \<union> set (inbound_ids (e # es))" by (auto simp: d ids)
    with Cons.IH [OF inv] Cons.prems(2)
    have IH: "distinct (notified s' es) \<and> set (notified s' es) = set (inbound_ids es) - ft_dedup s'" by simp
    have "notified s (e # es) = (if m \<in> ft_dedup s then [] else [m]) @ notified s' es"
      using st(1) True by (simp add: notified_Cons s'_def)
    with IH show ?thesis by (auto simp: ids d)
  next
    case False
    then have o: "ev_event_type e = PyStr ''msg_received'' \<longrightarrow> arg_str e ''message_id'' = []" by (auto simp: m_def)
    from False have ids: "inbound_ids (e # es) = inbound_ids es" by (auto simp: inbound_ids_def m_def)
    have "ft_dedup s' = ft_dedup s" using notified_other(2) [OF o] by (simp add: s'_def)
    with Cons.IH [OF inv] Cons.prems(2) notified_other(1) [OF o] show ?thesis
      by (simp add: ids notified_Cons s'_def)
  qed
qed

section \<open>Parsing of commands\<close>

lemma words_acc_word: "(\<And>c. c \<in> set w \<Longrightarrow> \<not> is_ws c) \<Longrightarrow> words_acc acc (w @ s) = words_acc (rev w @ acc) s"
  by (induction w arbitrary: acc) auto

lemma split_ws_two:
  assumes "\<And>c. c \<in> set v \<union> set w \<Longrightarrow> \<not> is_ws c" "v \<noteq> []" "w \<noteq> []"
  shows "split_ws (v @ CHR '' '' # w) = [v, w]"
proof -
  have sp: "is_ws CHR '' ''" by (simp add: is_ws_def)
  have "words_acc [] (v @ CHR '' '' # w) = words_acc (rev v) (CHR '' '' # w)"
    using assms(1) words_acc_word [of v "[]"] by auto
  also have "\<dots> = v # words_acc [] w" using sp assms(2) by simp
  also have "words_acc [] w = [w]"
    using assms(1,3) words_acc_word [of w "[]" "[]"] by auto
  finally show ?thesis by (simp add: split_ws_def)
qed

lemma strip_id_ends:
  assumes "s \<noteq> []" "\<not> is_ws (hd s)" "\<not> is_ws (last s)"
  shows "strip s = s"
proof -
  have "lstrip_ws s = s" using assms by (cases s) (auto simp: lstrip_ws_def)
  moreover have "lstrip_ws (rev s) = rev s"
    using assms by (cases s rule: rev_cases) (auto simp: lstrip_ws_def)
  ultimately show ?thesis by (simp add: strip_def)
qed

lemma new_session_creates:
  assumes ty: "ev_event_type e = PyStr ''msg_received''"
    and content: "arg_str e ''content'' = NEW_SESSION_PREFIX @ w @ '' name='' @ n"
    and words: "\<And>x. x \<in> set w \<union> set n \<Longrightarrow> \<not> is_ws x" "w \<noteq> []" "n \<noteq> []"
    and chat: "arg_str e ''chat_id'' = c" "c \<noteq> []"
    and st: "feishu_app_on_msg s e = (s', acts)"
  shows "n \<in> fa_bound_threads s' \<and> map_of (fa_active_thread_by_chat s') c = Some n \<and>
    acts = [InvokeCommand (PyStr ''feishu-thread-session'')
      (mkdict [(''thread_id'', PyStr n), (''chat_id'', PyStr c), (''workspace'', PyStr w), (''tag'', PyStr n),
               (''name'', PyStr n), (''cwd'', PyStr []), (''worktree'', PyStr [])])]"
proof -
  have nw: "\<not> is_ws x" if "x \<in> set ''name=''" for x
    using that by (auto simp: is_ws_def)
  define body where "body = w @ CHR '' '' # (''name='' @ n)"
  have "drop (length NEW_SESSION_PREFIX) (arg_str e ''content'') = body"
    by (simp add: content body_def)
  moreover have "strip body = body"
    using words by (intro strip_id_ends) (auto simp: body_def hd_append last_append)
  moreover have "split_ws body = [w, ''name='' @ n]"
    unfolding body_def using words nw by (intro split_ws_two) auto
  moreover have "body \<noteq> []" by (simp add: body_def)
  moreover have "startswith (arg_str e ''content'') NEW_SESSION_PREFIX" by (simp add: content)
  ultimately show ?thesis
    using st ty words(2,3) chat
    by (auto simp: feishu_app_on_msg_def handle_new_session_def Let_def with_active_thread_def with_added_thread_def)
qed


section \<open>Properties\<close>

text \<open>
  C1. A thread notifies its session exactly once per message: over any sequence of events (messages
  delivered again and again, output of the session, anything else) with at most 1000 distinct message
  ids, starting from an empty window, the notified ids are distinct and are exactly the ids received.
\<close>

theorem thread_notifies_exactly_once:
  assumes "ft_dedup s = {}" "ft_dedup_order s = []" "card (set (inbound_ids es)) \<le> DEDUP_CAP"
  shows "distinct (notified s es) \<and> set (notified s es) = set (inbound_ids es)"
  using notified_exactly_once [of s es] assms by (simp add: thread_inv_def)

definition demo_msg :: "string \<Rightarrow> event" where
  "demo_msg m = \<lparr>ev_source = PyStr ''esr://h/adapters/a'', ev_event_type = PyStr ''msg_received'',
     ev_args = mkdict [(''message_id'', PyStr m), (''content'', PyStr ''hi''), (''chat_id'', PyStr ''oc_1'')]\<rparr>"

definition demo_thread :: feishu_thread_state where
  "demo_thread = \<lparr>ft_thread_id = ''t'', ft_chat_id = [], ft_dedup = {}, ft_dedup_order = [], ft_ack_msg_id = None\<rparr>"

lemma demo_msg_args [simp]:
  "arg_str (demo_msg m) ''message_id'' = m" "ev_event_type (demo_msg m) = PyStr ''msg_received''"
  by (simp_all add: demo_msg_def arg_str_def dget_or_def)

theorem thread_notifies_exactly_once_witness:
  "distinct (notified demo_thread [demo_msg ''a'', demo_msg ''b'', demo_msg ''a'']) \<and>
   set (notified demo_thread [demo_msg ''a'', demo_msg ''b'', demo_msg ''a'']) = {''a'', ''b''}"
proof -
  have ids: "set (inbound_ids [demo_msg ''a'', demo_msg ''b'', demo_msg ''a'']) = {''a'', ''b''}"
    by (auto simp: inbound_ids_def)
  show ?thesis
    using thread_notifies_exactly_once [of demo_thread "[demo_msg ''a'', demo_msg ''b'', demo_msg ''a'']"]
    unfolding ids by (simp add: demo_thread_def DEDUP_CAP_def)
qed

text \<open>
  C29. The de-duplication window is bounded and keeps the most recent ids: after recording any sequence of
  ids, the order is the last 1000 of the old entries followed by the accepted ids, without duplicates,
  and the set used for the membership test is exactly the ids in the order.
\<close>

theorem dedup_window:
  assumes "thread_inv s"
  shows "ft_dedup_order (fold with_added_dedup ms s) =
      last_n DEDUP_CAP (ft_dedup_order s @ dedup.accepted ms s) \<and>
    length (ft_dedup_order (fold with_added_dedup ms s)) \<le> DEDUP_CAP \<and>
    distinct (ft_dedup_order (fold with_added_dedup ms s)) \<and>
    ft_dedup (fold with_added_dedup ms s) = set (ft_dedup_order (fold with_added_dedup ms s))"
  using dedup.fold_add_entries [OF assms] dedup.fold_add_invar [OF assms, of ms]
  by (simp add: thread_inv_def)

theorem dedup_window_witness:
  "length (ft_dedup_order (fold with_added_dedup (map show_nat [0..<1200]) demo_thread)) \<le> 1000"
  using dedup_window [of demo_thread "map show_nat [0..<1200]"]
  by (simp add: demo_thread_def thread_inv_def DEDUP_CAP_def)

text \<open>
  C30. Routing safety of the app handler: in every run from the initial state, messages are routed only to
  threads bound by then, a session command carries a non-empty thread id that is bound and active for the
  chat, and every active thread is bound.
\<close>

theorem app_routes_to_bound_threads:
  assumes "(e, s, acts) \<in> set (app.run feishu_app_init es)"
  shows "app_inv s \<and> (\<forall>a\<in>set acts. app_good s e a)"
  using app.run_inv [OF app_inv_init assms] app.run_good [OF app_inv_init assms] by blast

definition demo_text :: "string \<Rightarrow> event" where
  "demo_text t = \<lparr>ev_source = PyStr [], ev_event_type = PyStr ''msg_received'',
     ev_args = mkdict [(''content'', PyStr t), (''chat_id'', PyStr ''c'')]\<rparr>"

theorem app_routes_to_bound_threads_witness:
  "app_inv (fst (feishu_app_on_msg feishu_app_init (demo_text ''hello'')))"
  by (rule app_routes_to_bound_threads [of "demo_text ''hello''" _ "snd (feishu_app_on_msg feishu_app_init (demo_text ''hello''))"
      "[demo_text ''hello'']", THEN conjunct1]) simp

text \<open>
  A session reaches its chat: after \<open>/new-session <workspace> name=<name>\<close> in a chat, whatever happened
  before, the command starts the thread \<open><name>\<close> of that workspace, and the next ordinary message of the
  same chat is routed to that thread with its arguments unchanged.
\<close>

theorem new_session_then_message:
  assumes "ev_event_type e1 = PyStr ''msg_received''" "ev_event_type e2 = PyStr ''msg_received''"
    and "arg_str e1 ''content'' = NEW_SESSION_PREFIX @ w @ '' name='' @ n"
    and "\<forall>x\<in>set w \<union> set n. \<not> is_ws x" "w \<noteq> []" "n \<noteq> []"
    and "arg_str e1 ''chat_id'' = c" "arg_str e2 ''chat_id'' = c" "c \<noteq> []"
    and "\<not> startswith (arg_str e2 ''content'') ''/new-''" "\<not> startswith (arg_str e2 ''content'') ''@''"
  shows "(\<exists>params. snd (feishu_app_on_msg s e1) = [InvokeCommand (PyStr ''feishu-thread-session'') params] \<and>
      dget ''thread_id'' params = Some (PyStr n) \<and> dget ''workspace'' params = Some (PyStr w)) \<and>
    snd (feishu_app_on_msg (fst (feishu_app_on_msg s e1)) e2) =
      [Route (thread_target n) (inner_event ''msg_received'' (ev_args e2))]"
proof -
  obtain s' acts where st: "feishu_app_on_msg s e1 = (s', acts)" by (cases "feishu_app_on_msg s e1")
  have words: "\<And>x. x \<in> set w \<union> set n \<Longrightarrow> \<not> is_ws x" using assms(4) by blast
  note created = new_session_creates [OF assms(1,3) words assms(5,6,7,9) st]
  have "\<not> startswith (arg_str e2 ''content'') NEW_SESSION_PREFIX"
    "\<not> startswith (arg_str e2 ''content'') NEW_THREAD_PREFIX"
    using assms(10) by (auto simp: startswith_iff NEW_SESSION_PREFIX_def NEW_THREAD_PREFIX_def)
  with created st assms(2,6,8,11) show ?thesis
    by (auto simp: feishu_app_on_msg_def Let_def with_last_chat_id_def)
qed

theorem new_session_then_message_witness:
  "snd (feishu_app_on_msg (fst (feishu_app_on_msg feishu_app_init (demo_text ''/new-session ws name=foo''))) (demo_text ''hi'')) =
     [Route (thread_target ''foo'') (inner_event ''msg_received'' (ev_args (demo_text ''hi'')))]"
proof -
  have a: "arg_str (demo_text t) ''content'' = t" "arg_str (demo_text t) ''chat_id'' = ''c''" for t
    by (simp_all add: demo_text_def arg_str_def dget_or_def)
  show ?thesis
    using new_session_then_message [of "demo_text ''/new-session ws name=foo''" "demo_text ''hi''" "''ws''" "''foo''" "''c''" feishu_app_init]
    by (simp add: a NEW_SESSION_PREFIX_def is_ws_def) (simp add: demo_text_def)
qed

end
