(* ===== verification/Handler_Worker.thy ===== *)
theory Handler_Worker
  imports Envelope Registry Channel_Client Handlers Uri
begin

text \<open>
  \<^verbatim>\<open>py/src/esr/ipc/handler_worker.py\<close>: dispatch of a \<open>handler_call\<close> payload to a registered handler, the
  conversion of its result, and the loop that answers calls over a channel.

  A state model is what the worker uses of a pydantic class: \<open>sc_construct\<close> stands for \<open>Model(**fields)\<close> and
  \<open>sc_dump\<close> for \<open>model_dump()\<close>. A handler function returns, or raises; the unpacking of its result into a
  pair is part of it, since it happens under the same \<open>try\<close>.
\<close>

section \<open>Results of handlers\<close>

datatype 'st ret_state = RModel 'st | RDict py_kvs | ROther string

datatype ret_actions = RItems "ret_item list" | RNotIterable string

record 'st state_class =
  sc_construct :: "py_kvs \<Rightarrow> 'st res"
  sc_dump :: "'st \<Rightarrow> py_kvs"

type_synonym 'st handler_fn = "'st \<Rightarrow> event \<Rightarrow> ('st ret_state \<times> ret_actions) res"

definition error_reply :: "string \<Rightarrow> string \<Rightarrow> py_kvs" where
  "error_reply ty message =
     mkdict [(''error'', PyDict (mkdict [(''type'', PyStr ty), (''message'', PyStr message)]))]"

text \<open>\<open>_to_json_native\<close>: sets become lists sorted by \<open>str\<close>, tuples become lists.\<close>

fun to_json_native :: "py_val \<Rightarrow> py_val" where
  "to_json_native (PySet xs) = PyList (sort_key py_str xs)"
| "to_json_native (PyDict kvs) = PyDict (map (\<lambda>kv. (fst kv, to_json_native (snd kv))) kvs)"
| "to_json_native (PyList xs) = PyList (map to_json_native xs)"
| "to_json_native (PyTuple xs) = PyList (map to_json_native xs)"
| "to_json_native v = v"

definition native_kvs :: "py_kvs \<Rightarrow> py_kvs" where
  "native_kvs kvs = map (\<lambda>kv. (fst kv, to_json_native (snd kv))) kvs"

definition dump_state :: "'st state_class \<Rightarrow> 'st ret_state \<Rightarrow> py_kvs res" where
  "dump_state cls st =
     (case st of
        RModel s \<Rightarrow> Inr (native_kvs (sc_dump cls s))
      | RDict d \<Rightarrow> Inr (native_kvs d)
      | ROther c \<Rightarrow> Inl (type_error (''handler returned non-state value: '' @ c)))"


section \<open>process_handler_call\<close>

definition caught_malformed :: "py_exc \<Rightarrow> bool" where
  "caught_malformed e = (exc_type e \<in> {''KeyError'', ''TypeError'', ''AttributeError''})"

text \<open>The fields read from the payload: handler key, state, event type, source and arguments.\<close>

definition read_call :: "py_val \<Rightarrow> (py_val \<times> py_val \<times> event) res" where
  "read_call payload =
     rbind (py_index payload ''handler'') (\<lambda>hkey.
     rbind (py_get payload ''state'' (PyDict [])) (\<lambda>state_dict.
     rbind (py_get payload ''event'' (PyDict [])) (\<lambda>event_dict.
     rbind (py_index event_dict ''event_type'') (\<lambda>event_type.
     rbind (py_get event_dict ''source'' (PyStr [])) (\<lambda>event_source.
     rbind (py_get event_dict ''args'' (PyDict [])) (\<lambda>args.
     rbind (py_dict args) (\<lambda>event_args.
       Inr (hkey, state_dict,
         \<lparr>ev_source = event_source, ev_event_type = event_type, ev_args = event_args\<rparr>))))))))"

text \<open>From the constructed state on: run the handler and convert its result.\<close>

definition run_handler ::
  "'st state_class \<Rightarrow> int \<Rightarrow> 'st handler_fn \<Rightarrow> py_kvs \<Rightarrow> event \<Rightarrow> py_kvs res"
where
  "run_handler cls version fn clean_state event =
     (case sc_construct cls clean_state of
        Inl e \<Rightarrow> Inr (error_reply (exc_type e) (exc_msg e))
      | Inr state \<Rightarrow>
          (case fn state event of
             Inl e \<Rightarrow> Inr (error_reply (exc_type e) (exc_msg e))
           | Inr (new_state, actions) \<Rightarrow>
               rbind (dump_state cls new_state) (\<lambda>dumped.
                 case actions of
                   RNotIterable c \<Rightarrow> Inl (type_error (repr_str c @ '' object is not iterable''))
                 | RItems items \<Rightarrow>
                     rbind (mapM serialise_item items) (\<lambda>acts.
                       Inr (mkdict
                         [(''new_state'', PyDict (dset (PyStr ''_schema_version'') (PyInt version) dumped)),
                          (''actions'', PyList (map PyDict acts))])))))"

definition process_handler_call ::
  "'st handler_fn handler_registry \<Rightarrow> 'st state_class state_registry \<Rightarrow> py_val \<Rightarrow> py_kvs res"
where
  "process_handler_call handlers states payload =
     (case read_call payload of
        Inl e \<Rightarrow> if caught_malformed e then Inr (error_reply ''MalformedEnvelope'' (exc_msg e)) else Inl e
      | Inr (hkey, state_dict, event) \<Rightarrow>
          if \<not> hashable hkey then Inl (unhashable hkey)
          else
            (case (case hkey of PyStr k \<Rightarrow> map_of handlers k | _ \<Rightarrow> None) of
               None \<Rightarrow> Inr (error_reply ''HandlerNotRegistered'' (py_str hkey @ '' not registered''))
             | Some entry \<Rightarrow>
                 (case map_of states (he_actor_type entry) of
                    None \<Rightarrow> Inr (error_reply ''StateNotRegistered''
                      (''state model for actor_type '' @ he_actor_type entry @ '' not registered''))
                  | Some se \<Rightarrow>
                      (case state_dict of
                         PyDict kvs \<Rightarrow>
                           let incoming = dget_or ''_schema_version'' PyNone kvs in
                           if incoming \<noteq> PyNone \<and> \<not> py_eq incoming (PyInt (se_schema_version se)) then
                             Inr (error_reply ''SchemaVersionMismatch''
                               (''state for '' @ he_actor_type entry @ '' is at schema_version '' @ py_str incoming
                                @ ''; this worker expects '' @ show_int (se_schema_version se)))
                           else run_handler (sm_model (se_model se)) (se_schema_version se) (he_fn entry)
                                  (filter (\<lambda>kv. fst kv \<noteq> PyStr ''_schema_version'') kvs) event
                       | v \<Rightarrow> Inl (attr_error v ''get'')))))"


section \<open>The call loop\<close>

text \<open>The channel as the loop uses it: the topic it joined, and what it has pushed.\<close>

definition reply_envelope :: "string \<Rightarrow> py_val \<Rightarrow> py_kvs \<Rightarrow> py_kvs" where
  "reply_envelope topic ident payload =
     mkdict [(''kind'', PyStr ''handler_reply''), (''id'', ident),
             (''source'', PyStr (''esr://localhost/'' @ topic)), (''payload'', PyDict payload)]"

text \<open>
  \<open>_handler_call_loop\<close> on the envelopes taken from the queue (\<^const>\<open>None\<close> is the sentinel). The result is the
  list of envelopes pushed, and how the loop ended: waiting for more, returned, or raised.
\<close>

datatype call_loop_end = Waiting | Returned | Raised py_exc

fun handler_call_loop ::
  "'st handler_fn handler_registry \<Rightarrow> 'st state_class state_registry \<Rightarrow> string \<Rightarrow> py_kvs option list \<Rightarrow>
   py_kvs list \<times> call_loop_end"
where
  "handler_call_loop handlers states topic [] = ([], Waiting)"
| "handler_call_loop handlers states topic (None # q) = ([], Returned)"
| "handler_call_loop handlers states topic (Some envelope # q) =
     (case rbind (py_index (PyDict envelope) ''payload'') (\<lambda>p.
           rbind (process_handler_call handlers states p) (\<lambda>reply.
           rbind (py_index (PyDict envelope) ''id'') (\<lambda>i. Inr (reply_envelope topic i reply)))) of
        Inl e \<Rightarrow> ([], Raised e)
      | Inr out \<Rightarrow> (case handler_call_loop handlers states topic q of (outs, fin) \<Rightarrow> (out # outs, fin)))"

text \<open>
  \<open>run_with_client\<close> after connecting and joining: the hello envelope, then the calls. The watcher is the
  sibling task that ends the loop when the connection drops.
\<close>

definition run_with_client ::
  "string \<Rightarrow> string \<Rightarrow> 'st handler_fn handler_registry \<Rightarrow> 'st state_class state_registry \<Rightarrow> string \<Rightarrow>
   string list \<Rightarrow> py_kvs option list \<Rightarrow> py_kvs list \<times> call_loop_end"
where
  "run_with_client uuid now handlers states topic sorted_permissions q =
     (case make_handler_hello uuid now (''esr://localhost/'' @ topic) sorted_permissions of
        Inl e \<Rightarrow> ([], Raised e)
      | Inr hello \<Rightarrow>
          (case handler_call_loop handlers states topic q of (outs, fin) \<Rightarrow> (hello # outs, fin)))"

text \<open>The package and the topic of \<open>run\<close>.\<close>

definition handler_package :: "string \<Rightarrow> string" where
  "handler_package handler_module = ''esr_handler_'' @ hd (split_on CHR ''.'' handler_module) @ ''.on_msg''"

definition handler_topic :: "string \<Rightarrow> string \<Rightarrow> string" where
  "handler_topic handler_module worker_id = ''handler:'' @ handler_module @ ''/'' @ worker_id"

section \<open>Lemmas\<close>

text \<open>A call as the runtime sends it: a handler name, a state object, an event object with an argument object.\<close>

definition wf_call :: "py_val \<Rightarrow> bool" where
  "wf_call payload \<longleftrightarrow>
     (\<exists>kvs ekvs. payload = PyDict kvs \<and> (\<exists>k. dget ''handler'' kvs = Some (PyStr k)) \<and>
        (\<exists>st. dget_or ''state'' (PyDict []) kvs = PyDict st) \<and>
        dget_or ''event'' (PyDict []) kvs = PyDict ekvs \<and>
        (\<exists>args. dget_or ''args'' (PyDict []) ekvs = PyDict args))"

text \<open>A handler that keeps its contract: it may raise, but what it returns is a state and actions.\<close>

definition fn_ok :: "'st handler_fn \<Rightarrow> bool" where
  "fn_ok fn \<longleftrightarrow> (\<forall>s e ns acts. fn s e = Inr (ns, acts) \<longrightarrow>
     (\<forall>c. ns \<noteq> ROther c) \<and> (\<exists>xs. acts = RItems (map IsAction xs)))"

definition is_error_reply :: "py_kvs \<Rightarrow> bool" where
  "is_error_reply r \<longleftrightarrow> (\<exists>ty m. r = error_reply ty m)"

definition is_success_reply :: "int \<Rightarrow> py_kvs \<Rightarrow> bool" where
  "is_success_reply v r \<longleftrightarrow> (\<exists>st acts. r = mkdict [(''new_state'', PyDict st), (''actions'', PyList (map (PyDict \<circ> serialise_action) acts))] \<and>
     dget ''_schema_version'' st = Some (PyInt v))"

lemma read_call_error:
  assumes "wf_call p" "read_call p = Inl e"
  shows "caught_malformed e"
  using assms
  by (auto simp: wf_call_def read_call_def py_index_def caught_malformed_def key_error_def rbind_def
      split: sum.splits option.splits)

lemma read_call_Inr:
  assumes "wf_call p" "read_call p = Inr (k, sd, e)"
  shows "(\<exists>n. k = PyStr n) \<and> (\<exists>kvs. sd = PyDict kvs)"
  using assms by (auto simp: wf_call_def read_call_def py_index_def rbind_Inr_iff split: option.splits)

lemma run_handler_ok:
  assumes "fn_ok fn"
  shows "\<exists>r. run_handler cls v fn st e = Inr r \<and> (is_error_reply r \<or> is_success_reply v r)"
proof (cases "sc_construct cls st")
  case (Inl x)
  then show ?thesis by (auto simp: run_handler_def is_error_reply_def)
next
  case (Inr s)
  show ?thesis
  proof (cases "fn s e")
    case (Inl x)
    with Inr show ?thesis by (auto simp: run_handler_def is_error_reply_def)
  next
    case ret: (Inr r)
    obtain ns acts where r: "r = (ns, acts)" by (cases r)
    with assms ret obtain xs where xs: "acts = RItems (map IsAction xs)" "\<forall>c. ns \<noteq> ROther c"
      unfolding fn_ok_def by metis
    then obtain d where "dump_state cls ns = Inr d" by (cases ns) (auto simp: dump_state_def)
    with Inr ret r xs(1) show ?thesis
      by (auto simp: run_handler_def serialise_items is_success_reply_def
          intro!: exI [of _ "dset (PyStr ''_schema_version'') (PyInt v) d"] exI [of _ xs])
  qed
qed

text \<open>The state as it travels: the dumped fields with the schema version.\<close>

definition wire_state :: "'st state_class \<Rightarrow> int \<Rightarrow> 'st \<Rightarrow> py_val" where
  "wire_state cls v s = PyDict (dset (PyStr ''_schema_version'') (PyInt v) (native_kvs (sc_dump cls s)))"

text \<open>Dumping and constructing a state gives it back, and the version is no field of the model.\<close>

definition faithful_class :: "'st state_class \<Rightarrow> bool" where
  "faithful_class cls \<longleftrightarrow>
     (\<forall>s. sc_construct cls (native_kvs (sc_dump cls s)) = Inr s \<and> dget ''_schema_version'' (sc_dump cls s) = None)"

lemma dget_native_None: "dget k (native_kvs d) = None \<longleftrightarrow> dget k d = None"
  by (induction d) (auto simp: native_kvs_def)

lemma filter_version:
  assumes "dget ''_schema_version'' d = None"
  shows "filter (\<lambda>kv. fst kv \<noteq> PyStr ''_schema_version'') (dset (PyStr ''_schema_version'') v d) = d"
proof -
  have k: "PyStr ''_schema_version'' \<notin> fst ` set d"
    using assms by (simp add: dget_def map_of_eq_None_iff)
  then have "filter (\<lambda>kv. fst kv \<noteq> PyStr ''_schema_version'') d = d"
    by (intro filter_True) force
  with k show ?thesis by (simp add: dset_fresh)
qed

text \<open>A registry in which a pure handler and its state model are registered.\<close>

definition serves ::
  "'st handler_fn handler_registry \<Rightarrow> 'st state_class state_registry \<Rightarrow> string \<Rightarrow> 'st state_class \<Rightarrow> int \<Rightarrow>
   ('st \<Rightarrow> event \<Rightarrow> 'st \<times> action list) \<Rightarrow> bool"
where
  "serves handlers states key cls v step \<longleftrightarrow>
     (\<exists>he se. map_of handlers key = Some he \<and> map_of states (he_actor_type he) = Some se \<and>
        sm_model (se_model se) = cls \<and> se_schema_version se = v \<and>
        he_fn he = (\<lambda>s e. Inr (RModel (fst (step s e)), RItems (map IsAction (snd (step s e))))))"

definition call_payload :: "string \<Rightarrow> py_val \<Rightarrow> event \<Rightarrow> py_val" where
  "call_payload key st e =
     PyDict (mkdict [(''handler'', PyStr key), (''state'', st),
       (''event'', PyDict (mkdict [(''source'', ev_source e), (''event_type'', ev_event_type e),
         (''args'', PyDict (ev_args e))]))])"

lemma process_pure:
  assumes "serves handlers states key cls v step" "faithful_class cls"
  shows "process_handler_call handlers states (call_payload key (wire_state cls v s) e) =
    Inr (mkdict [(''new_state'', wire_state cls v (fst (step s e))),
                 (''actions'', PyList (map PyDict (map serialise_action (snd (step s e)))))])"
proof -
  obtain he se where reg: "map_of handlers key = Some he" "map_of states (he_actor_type he) = Some se"
    "sm_model (se_model se) = cls" "se_schema_version se = v"
    "he_fn he = (\<lambda>s e. Inr (RModel (fst (step s e)), RItems (map IsAction (snd (step s e)))))"
    using assms(1) by (auto simp: serves_def)
  have read: "read_call (call_payload key (wire_state cls v s) e) = Inr (PyStr key, wire_state cls v s, e)"
    by (simp add: read_call_def call_payload_def py_index_def dget_or_def)
  define d where "d = native_kvs (sc_dump cls s)"
  have d: "dget ''_schema_version'' d = None" "sc_construct cls d = Inr s"
    using assms(2) by (auto simp: d_def faithful_class_def dget_native_None)
  have "run_handler cls v (he_fn he) d e =
    Inr (mkdict [(''new_state'', wire_state cls v (fst (step s e))),
                 (''actions'', PyList (map PyDict (map serialise_action (snd (step s e)))))])"
    using d(2) by (simp add: run_handler_def reg(5) dump_state_def serialise_items wire_state_def)
  with filter_version [OF d(1)] reg show ?thesis
    unfolding process_handler_call_def read
    by (simp add: wire_state_def d_def [symmetric] dget_or_def py_eq_def py_num_def)
qed

text \<open>Calls in sequence, as the runtime makes them: each carries the state of the previous reply.\<close>

primrec worker_session ::
  "'st handler_fn handler_registry \<Rightarrow> 'st state_class state_registry \<Rightarrow> string \<Rightarrow> py_val \<Rightarrow> event list \<Rightarrow> py_val list res"
where
  "worker_session handlers states key st [] = Inr []"
| "worker_session handlers states key st (e # es) =
     rbind (process_handler_call handlers states (call_payload key st e)) (\<lambda>reply.
     rbind (py_index (PyDict reply) ''new_state'') (\<lambda>st'.
     rbind (py_index (PyDict reply) ''actions'') (\<lambda>acts.
     rbind (worker_session handlers states key st' es) (\<lambda>rest. Inr (acts # rest)))))"

primrec handler_outputs :: "('st \<Rightarrow> event \<Rightarrow> 'st \<times> action list) \<Rightarrow> 'st \<Rightarrow> event list \<Rightarrow> action list list" where
  "handler_outputs step s [] = []"
| "handler_outputs step s (e # es) = snd (step s e) # handler_outputs step (fst (step s e)) es"

lemma worker_session_pure:
  assumes "serves handlers states key cls v step" "faithful_class cls"
  shows "worker_session handlers states key (wire_state cls v s) es =
    Inr (map (\<lambda>acts. PyList (map (PyDict \<circ> serialise_action) acts)) (handler_outputs step s es))"
  by (induction es arbitrary: s) (simp_all add: process_pure [OF assms] py_index_def)

text \<open>The source URI the worker stamps on its envelopes is not an \<open>esr://\<close> URI the parser accepts.\<close>

lemma split_on_prefix:
  assumes "c \<notin> set p"
  shows "\<exists>y ys. split_on c (p @ s) = (p @ y) # ys"
  using assms
proof (induction p)
  case Nil
  then show ?case by (cases "split_on c s") auto
next
  case (Cons x p)
  then obtain y ys where "split_on c (p @ s) = (p @ y) # ys" by auto
  with Cons.prems show ?case by auto
qed

lemma not_valid_type: "x = ''handler:'' @ y \<Longrightarrow> x \<notin> set valid_types"
  by (simp add: valid_types_def legacy_types_def path_style_types_def)

lemma before_prefix: "c \<notin> set p \<Longrightarrow> before c (p @ s) = p @ before c s"
  by (induction p) (auto simp: before_def)

lemma worker_source_unparsable:
  "\<not> is_ok (parse (''esr://localhost/'' @ handler_topic m w))"
proof -
  define pq where "pq = fst (split_query (''localhost/'' @ handler_topic m w))"
  define q where "q = snd (split_query (''localhost/'' @ handler_topic m w))"
  have "\<exists>r. pq = ''localhost/handler:'' @ r"
    using before_prefix [of "CHR ''?''" "''localhost/handler:''" "m @ ''/'' @ w"]
    by (auto simp: pq_def split_query_def handler_topic_def)
  then obtain r where pq: "pq = ''localhost/handler:'' @ r" by blast
  have b: "before CHR ''/'' pq = ''localhost''" "after CHR ''/'' pq = ''handler:'' @ r"
    by (simp_all add: pq before_def after_def)
  obtain y ys where sp: "split_on CHR ''/'' (''handler:'' @ r) = (''handler:'' @ y) # ys"
    using split_on_prefix [of "CHR ''/''" "''handler:''" r] by auto
  have "\<not> is_ok (parse_path s (''handler:'' @ r))" for s
    unfolding parse_path_def sp by (simp add: Let_def not_valid_type)
  then obtain e where e: "parse_path (''esr://localhost/'' @ handler_topic m w) (after CHR ''/'' pq) = Inl e"
    unfolding b(2) is_ok_def by (metis sum.case_eq_if sum.collapse(1))
  have sq: "split_query (drop (length ''esr://'') (''esr://localhost/'' @ handler_topic m w)) = (pq, q)"
    by (simp add: pq_def q_def)
  show ?thesis
    unfolding parse_def sq Let_def prod.case e by (auto simp: rbind_def split: sum.splits prod.splits)
qed


section \<open>Properties\<close>

text \<open>
  C2. A worker session is the handler: when the runtime feeds the state of each reply into the next call,
  the replies carry exactly the actions the pure handler produces on the sequence of events, in order,
  and no call fails; dumping the state, tagging it with the schema version, checking and stripping the
  version and rebuilding the model are invisible.
\<close>

theorem worker_session_refines_handler:
  assumes "serves handlers states key cls v step" "faithful_class cls"
  shows "worker_session handlers states key (wire_state cls v s) es =
    Inr (map (\<lambda>acts. PyList (map (PyDict \<circ> serialise_action) acts)) (handler_outputs step s es))"
  using assms by (rule worker_session_pure)

definition demo_state_class :: "cc_adapter_runner_state state_class" where
  "demo_state_class = \<lparr>sc_construct = (\<lambda>kvs. case dget_or ''message_count'' (PyInt 0) kvs of
       PyInt n \<Rightarrow> Inr \<lparr>ca_message_count = n\<rparr> | _ \<Rightarrow> Inl (Exc ''ValidationError'' [])),
     sc_dump = (\<lambda>s. mkdict [(''message_count'', PyInt (ca_message_count s))])\<rparr>"

definition demo_handlers :: "cc_adapter_runner_state handler_fn handler_registry" where
  "demo_handlers = [(''cc_adapter_runner.on_msg'', mk_handler_entry ''cc_adapter_runner'' ''on_msg'' (Some [])
     (\<lambda>s e. Inr (RModel (fst (cc_adapter_runner_on_msg s e)), RItems (map IsAction (snd (cc_adapter_runner_on_msg s e))))))]"

definition demo_states :: "cc_adapter_runner_state state_class state_registry" where
  "demo_states = [(''cc_adapter_runner'', \<lparr>se_actor_type = ''cc_adapter_runner'', se_schema_version = 1,
     se_model = \<lparr>sm_config = DictConfig (mkdict [(''frozen'', PyBool True)]), sm_model = demo_state_class\<rparr>\<rparr>)]"

lemma demo_serves: "serves demo_handlers demo_states ''cc_adapter_runner.on_msg'' demo_state_class 1 cc_adapter_runner_on_msg"
  by (simp add: serves_def demo_handlers_def demo_states_def mk_handler_entry_def)

lemma demo_state_class_faithful: "faithful_class demo_state_class"
  by (simp add: faithful_class_def demo_state_class_def native_kvs_def dget_or_def)

theorem worker_session_refines_handler_witness:
  "worker_session demo_handlers demo_states ''cc_adapter_runner.on_msg'' (wire_state demo_state_class 1 \<lparr>ca_message_count = 0\<rparr>)
     [\<lparr>ev_source = PyStr [], ev_event_type = PyStr ''text'', ev_args = mkdict [(''text'', PyStr ''hi'')]\<rparr>] =
   Inr [PyList [PyDict (mkdict [(''type'', PyStr ''send_input''), (''text'', PyStr ''hi'')])]]"
  by (subst worker_session_refines_handler [OF demo_serves demo_state_class_faithful])
    (simp add: cc_adapter_runner_on_msg_def dget_or_def)

lemma wf_call_answered:
  assumes "wf_call payload" "\<forall>he\<in>snd ` set handlers. fn_ok (he_fn he)"
  shows "\<exists>r. process_handler_call handlers states payload = Inr r \<and>
    (is_error_reply r \<or> (\<exists>se\<in>snd ` set states. is_success_reply (se_schema_version se) r))"
proof (cases "read_call payload")
  case (Inl e)
  with read_call_error [OF assms(1) Inl] show ?thesis
    by (auto simp: process_handler_call_def is_error_reply_def)
next
  case (Inr q)
  then obtain n kvs e where q: "read_call payload = Inr (PyStr n, PyDict kvs, e)"
    using read_call_Inr [OF assms(1)] by (cases q) blast
  show ?thesis
  proof (cases "map_of handlers n")
    case None
    with q show ?thesis by (auto simp: process_handler_call_def is_error_reply_def)
  next
    case he: (Some he)
    then have "fn_ok (he_fn he)" using assms(2) by (force dest: map_of_SomeD)
    note run = run_handler_ok [OF this]
    show ?thesis
    proof (cases "map_of states (he_actor_type he)")
      case None
      with q he show ?thesis by (auto simp: process_handler_call_def is_error_reply_def)
    next
      case (Some se)
      then have "se \<in> snd ` set states" by (force dest: map_of_SomeD)
      with q he Some run [of "sm_model (se_model se)" "se_schema_version se"
          "filter (\<lambda>kv. fst kv \<noteq> PyStr ''_schema_version'') kvs" e]
      show ?thesis by (auto simp: process_handler_call_def Let_def is_error_reply_def)
    qed
  qed
qed

text \<open>The loop on well-formed calls: one reply for each, in order, and it waits for more.\<close>

definition wf_call_env :: "py_kvs \<Rightarrow> bool" where
  "wf_call_env env \<longleftrightarrow> (\<exists>p i. dget ''payload'' env = Some p \<and> wf_call p \<and> dget ''id'' env = Some i)"

definition reply_to :: "'st handler_fn handler_registry \<Rightarrow> 'st state_class state_registry \<Rightarrow> string \<Rightarrow> py_kvs \<Rightarrow> py_kvs \<Rightarrow> bool" where
  "reply_to handlers states topic env out \<longleftrightarrow>
     (\<exists>p i r. dget ''payload'' env = Some p \<and> dget ''id'' env = Some i \<and> process_handler_call handlers states p = Inr r \<and>
        out = reply_envelope topic i r \<and> (is_error_reply r \<or> (\<exists>se\<in>snd ` set states. is_success_reply (se_schema_version se) r)))"

lemma handler_call_loop_ok:
  assumes "\<forall>he\<in>snd ` set handlers. fn_ok (he_fn he)"
  shows "\<forall>env\<in>set envs. wf_call_env env \<Longrightarrow>
    \<exists>outs. handler_call_loop handlers states topic (map Some envs) = (outs, Waiting) \<and> list_all2 (reply_to handlers states topic) envs outs"
proof (induction envs)
  case (Cons env envs)
  from Cons.prems obtain p i where e: "dget ''payload'' env = Some p" "wf_call p" "dget ''id'' env = Some i"
    by (auto simp: wf_call_env_def)
  obtain r where r: "process_handler_call handlers states p = Inr r"
    "is_error_reply r \<or> (\<exists>se\<in>snd ` set states. is_success_reply (se_schema_version se) r)"
    using wf_call_answered [OF e(2) assms] by blast
  obtain outs where o: "handler_call_loop handlers states topic (map Some envs) = (outs, Waiting)" "list_all2 (reply_to handlers states topic) envs outs"
    using Cons by auto
  have "reply_to handlers states topic env (reply_envelope topic i r)" unfolding reply_to_def using e r by blast
  with o e r(1) show ?case by (simp add: py_index_def rbind_def)
qed simp

text \<open>
  C25. \<open>process_handler_call\<close> answers every well-formed call: whatever is registered and whatever the handler
  raises, the reply is an error reply, or it carries the new state tagged with the registered schema
  version and the list of serialised actions; it never raises, provided handlers return states and actions.
\<close>

theorem well_formed_call_is_answered:
  assumes "wf_call payload" "\<forall>he\<in>snd ` set handlers. fn_ok (he_fn he)"
  shows "\<exists>r. process_handler_call handlers states payload = Inr r \<and>
    (is_error_reply r \<or> (\<exists>se\<in>snd ` set states. is_success_reply (se_schema_version se) r))"
  by (rule wf_call_answered [OF assms])

theorem well_formed_call_is_answered_witness:
  "\<exists>r. process_handler_call demo_handlers demo_states (call_payload ''nobody'' (PyDict [])
      \<lparr>ev_source = PyStr [], ev_event_type = PyStr ''x'', ev_args = []\<rparr>) = Inr r \<and>
    (is_error_reply r \<or> (\<exists>se\<in>snd ` set demo_states. is_success_reply (se_schema_version se) r))"
  by (rule well_formed_call_is_answered)
    (auto simp: wf_call_def call_payload_def dget_or_def demo_handlers_def mk_handler_entry_def fn_ok_def)

text \<open>
  \<open>process_handler_call\<close> can raise, which ends the call loop: a call whose state is null raises
  \<open>AttributeError\<close>, and one whose event arguments are a string raises \<open>ValueError\<close>, when the handler and its
  state model are registered.
\<close>

theorem process_handler_call_can_raise:
  assumes "map_of handlers key = Some he" "map_of states (he_actor_type he) = Some se"
  shows "(\<exists>x. process_handler_call handlers states (PyDict (mkdict [(''handler'', PyStr key), (''state'', PyNone),
       (''event'', PyDict (mkdict [(''event_type'', PyStr ''t'')]))])) = Inl x \<and> exc_type x = ''AttributeError'') \<and>
    (\<exists>x. process_handler_call handlers states (PyDict (mkdict [(''handler'', PyStr key),
       (''event'', PyDict (mkdict [(''event_type'', PyStr ''t''), (''args'', PyStr ''ab'')]))])) = Inl x \<and>
       exc_type x = ''ValueError'')"
  using assms
  by (simp add: process_handler_call_def read_call_def py_index_def dget_or_def attr_error_def py_dict_def py_iter_def
      value_error_def caught_malformed_def)

theorem process_handler_call_can_raise_witness:
  "\<exists>x. process_handler_call demo_handlers demo_states (PyDict (mkdict [(''handler'', PyStr ''cc_adapter_runner.on_msg''),
     (''state'', PyNone), (''event'', PyDict (mkdict [(''event_type'', PyStr ''t'')]))])) = Inl x \<and> exc_type x = ''AttributeError''"
  using process_handler_call_can_raise [of demo_handlers "''cc_adapter_runner.on_msg''" _ demo_states]
  by (simp add: demo_handlers_def demo_states_def mk_handler_entry_def)

end
