(* ===== verification/Adapter_Runner.thy ===== *)
theory Adapter_Runner
  imports Envelope Registry Uri Ipc_Url Channel_Client
begin

text \<open>
  \<^verbatim>\<open>py/src/_adapter_common/runner_core.py\<close> and \<^verbatim>\<open>main.py\<close>, with the allowlists of the three sidecars: dispatch
  of directives to an adapter and their acknowledgements, the stream of its events, the end of a
  connection, and the command line's gate.

  An adapter is a state with \<open>on_directive\<close>, which returns or raises, and optionally a stream of events;
  the clock and \<open>uuid4\<close> are arguments, one value per envelope built.
\<close>

section \<open>Directives\<close>

type_synonym 's on_directive = "'s \<Rightarrow> py_val \<Rightarrow> py_val \<Rightarrow> py_val res \<times> 's"

definition process_directive :: "'s on_directive \<Rightarrow> 's \<Rightarrow> py_val \<Rightarrow> py_kvs res \<times> 's" where
  "process_directive on_directive a payload =
     (case rbind (py_index payload ''action'') (\<lambda>act.
           rbind (py_get payload ''args'' (PyDict [])) (\<lambda>args. Inr (act, args))) of
        Inl e \<Rightarrow> (Inl e, a)
      | Inr (act, args) \<Rightarrow>
          (case on_directive a act args of
             (Inl e, a') \<Rightarrow>
               (Inr (mkdict [(''ok'', PyBool False),
                  (''error'', PyDict (mkdict [(''type'', PyStr (exc_type e)), (''message'', PyStr (exc_msg e))]))]), a')
           | (Inr result, a') \<Rightarrow> (Inr (mkdict [(''ok'', PyBool True), (''result'', result)]), a')))"

text \<open>One turn of \<open>directive_loop\<close>: the acknowledgement it pushes.\<close>

definition directive_step ::
  "string \<Rightarrow> string \<Rightarrow> 's on_directive \<Rightarrow> 's \<Rightarrow> py_kvs \<Rightarrow> py_kvs res \<times> 's"
where
  "directive_step now source_uri on_directive a envelope =
     (case py_index (PyDict envelope) ''payload'' of
        Inl e \<Rightarrow> (Inl e, a)
      | Inr payload \<Rightarrow>
          (case process_directive on_directive a payload of
             (Inl e, a') \<Rightarrow> (Inl e, a')
           | (Inr ack, a') \<Rightarrow>
               (rbind (py_index (PyDict envelope) ''id'') (\<lambda>ident.
                  make_directive_ack now ident source_uri (dget_or ''ok'' PyNone ack = PyBool True)
                    (dget_or ''result'' PyNone ack) (dget_or ''error'' PyNone ack)), a')))"

datatype loop_status = LWaiting | LReturned | LRaised py_exc

fun directive_loop ::
  "(nat \<Rightarrow> string) \<Rightarrow> string \<Rightarrow> 's on_directive \<Rightarrow> 's \<Rightarrow> py_kvs option list \<Rightarrow> py_kvs list \<times> loop_status \<times> 's"
where
  "directive_loop clock source_uri on_directive a [] = ([], LWaiting, a)"
| "directive_loop clock source_uri on_directive a (None # q) = ([], LReturned, a)"
| "directive_loop clock source_uri on_directive a (Some envelope # q) =
     (case directive_step (clock 0) source_uri on_directive a envelope of
        (Inl e, a') \<Rightarrow> ([], LRaised e, a')
      | (Inr ack, a') \<Rightarrow>
          (case directive_loop (\<lambda>n. clock (Suc n)) source_uri on_directive a' q of
             (acks, st, a'') \<Rightarrow> (ack # acks, st, a'')))"


section \<open>Events\<close>

definition event_envelope :: "string \<Rightarrow> string \<Rightarrow> string \<Rightarrow> py_kvs \<Rightarrow> py_kvs res" where
  "event_envelope uuid now source_uri ev =
     rbind (py_index (PyDict ev) ''event_type'') (\<lambda>event_type.
     rbind (py_dict (dget_or ''args'' (PyDict []) ev)) (\<lambda>args.
       make_event uuid now source_uri event_type args
         (dget_or ''principal_id'' PyNone ev) (dget_or ''workspace_name'' PyNone ev)))"

text \<open>\<open>event_loop\<close>: \<^const>\<open>None\<close> is an adapter without \<open>emit_events\<close>; the flag says whether the stream has ended.\<close>

fun push_events ::
  "(nat \<Rightarrow> string) \<Rightarrow> (nat \<Rightarrow> string) \<Rightarrow> string \<Rightarrow> py_kvs list \<Rightarrow> bool \<Rightarrow> py_kvs list \<times> loop_status"
where
  "push_events uuid clock source_uri [] ended = ([], if ended then LReturned else LWaiting)"
| "push_events uuid clock source_uri (ev # evs) ended =
     (case event_envelope (uuid 0) (clock 0) source_uri ev of
        Inl e \<Rightarrow> ([], LRaised e)
      | Inr env \<Rightarrow>
          (case push_events (\<lambda>n. uuid (Suc n)) (\<lambda>n. clock (Suc n)) source_uri evs ended of
             (envs, st) \<Rightarrow> (env # envs, st)))"

definition event_loop ::
  "(nat \<Rightarrow> string) \<Rightarrow> (nat \<Rightarrow> string) \<Rightarrow> string \<Rightarrow> (py_kvs list \<times> bool) option \<Rightarrow> py_kvs list \<times> loop_status"
where
  "event_loop uuid clock source_uri emit =
     (case emit of
        None \<Rightarrow> ([], LReturned)
      | Some (evs, ended) \<Rightarrow> push_events uuid clock source_uri evs ended)"


section \<open>A connection\<close>

definition adapter_topic :: "string \<Rightarrow> string \<Rightarrow> string" where
  "adapter_topic adapter_name instance_id = ''adapter:'' @ adapter_name @ ''/'' @ instance_id"

definition source_uri_of :: "string \<Rightarrow> string res" where
  "source_uri_of topic =
     build_path [''adapters'', removeprefix (before CHR ''/'' topic) ''adapter:'', after CHR ''/'' topic]
       ''localhost'' None None None []"

text \<open>
  \<open>asyncio.wait(..., FIRST_COMPLETED)\<close> over the three tasks and what follows: as soon as one task is done
  the others are cancelled, an exception of a done task is raised, otherwise the connection ends cleanly.
  \<^const>\<open>None\<close> is a connection that is still running.
\<close>

definition first_completed :: "loop_status list \<Rightarrow> outcome option" where
  "first_completed tasks =
     (if \<forall>t\<in>set tasks. t = LWaiting then None
      else (case [e. LRaised e \<leftarrow> tasks] of [] \<Rightarrow> Some Clean | e # _ \<Rightarrow> Some (Failed e)))"

definition watch_status :: "bool option list \<Rightarrow> loop_status" where
  "watch_status samples = (case snd (watch_disconnect samples) of None \<Rightarrow> LWaiting | Some e \<Rightarrow> LRaised e)"

text \<open>\<open>run_with_client\<close> after connecting and joining: source, hello, then the three tasks.\<close>

definition run_with_client ::
  "(nat \<Rightarrow> string) \<Rightarrow> (nat \<Rightarrow> string) \<Rightarrow> string \<Rightarrow> string list \<Rightarrow> 's on_directive \<Rightarrow> 's \<Rightarrow>
   (py_kvs list \<times> bool) option \<Rightarrow> py_kvs option list \<Rightarrow> bool option list \<Rightarrow>
   (py_kvs \<times> py_kvs list \<times> py_kvs list \<times> outcome option) res"
where
  "run_with_client uuid clock topic perms on_directive a emit q samples =
     rbind (source_uri_of topic) (\<lambda>src.
     rbind (make_handler_hello (uuid 0) (clock 0) src perms) (\<lambda>hello.
       let (acks, d, a') = directive_loop clock src on_directive a q;
           (evs, ev) = event_loop uuid clock src emit
       in Inr (hello, acks, evs, first_completed [d, ev, watch_status samples])))"


section \<open>The command line\<close>

record runner_args =
  ra_adapter :: string
  ra_instance_id :: string
  ra_url :: string
  ra_config :: py_val
  ra_dry_run :: bool

definition check_allowlist :: "string list option \<Rightarrow> string \<Rightarrow> int option" where
  "check_allowlist allowlist adapter =
     (case allowlist of None \<Rightarrow> None | Some xs \<Rightarrow> if adapter \<in> set xs then None else Some 2)"

datatype run_end = RunReturned | RunInterrupted | RunFailed py_exc

text \<open>
  \<open>main\<close> on parsed arguments: its exit code, and whether \<open>run\<close> was called. How \<open>run\<close> ends is an argument.
\<close>

definition main :: "string list option \<Rightarrow> runner_args \<Rightarrow> run_end \<Rightarrow> int \<times> bool" where
  "main allowlist ns run_result =
     (case check_allowlist allowlist (ra_adapter ns) of
        Some code \<Rightarrow> (code, False)
      | None \<Rightarrow>
          if ra_dry_run ns then (0, False)
          else ((case run_result of RunInterrupted \<Rightarrow> 0 | RunFailed _ \<Rightarrow> 1 | RunReturned \<Rightarrow> 0), True))"

definition feishu_allowlist :: "string list" where
  "feishu_allowlist = [''feishu'']"

definition cc_allowlist :: "string list" where
  "cc_allowlist = [''cc_mcp'']"

text \<open>\<open>run\<close>: load the factory, build the adapter with a read-only configuration, and name the topic.\<close>

definition run_adapter ::
  "(string \<Rightarrow> (string \<Rightarrow> py_kvs \<Rightarrow> 's res) adapter_registry \<Rightarrow> py_exc option \<times> (string \<Rightarrow> py_kvs \<Rightarrow> 's res) adapter_registry) \<Rightarrow>
   string \<Rightarrow> string \<Rightarrow> py_kvs \<Rightarrow> (string \<Rightarrow> py_kvs \<Rightarrow> 's res) adapter_registry \<Rightarrow>
   ('s \<times> string) res \<times> (string \<Rightarrow> py_kvs \<Rightarrow> 's res) adapter_registry"
where
  "run_adapter import_module adapter_name instance_id config reg =
     (case load_adapter_factory import_module adapter_name reg of
        (Inl e, reg') \<Rightarrow> (Inl e, reg')
      | (Inr factory, reg') \<Rightarrow>
          (rbind (factory instance_id config) (\<lambda>a. Inr (a, adapter_topic adapter_name instance_id)), reg'))"


section \<open>Lemmas\<close>

text \<open>A directive as the runtime sends it, and an adapter that answers with objects.\<close>

definition wf_directive :: "py_kvs \<Rightarrow> bool" where
  "wf_directive env \<longleftrightarrow> dget ''id'' env \<noteq> None \<and>
     (\<exists>p. dget ''payload'' env = Some (PyDict p) \<and> dget ''action'' p \<noteq> None)"

definition answers_objects :: "'s on_directive \<Rightarrow> bool" where
  "answers_objects on_directive \<longleftrightarrow>
     (\<forall>a act args r a'. on_directive a act args = (Inr r, a') \<longrightarrow> r = PyNone \<or> (\<exists>kvs. r = PyDict kvs))"

definition directive_args :: "py_kvs \<Rightarrow> py_val \<times> py_val" where
  "directive_args env =
     (case dget ''payload'' env of
        Some (PyDict p) \<Rightarrow> (dget_or ''action'' PyNone p, dget_or ''args'' (PyDict []) p)
      | _ \<Rightarrow> (PyNone, PyNone))"

text \<open>The adapter alone, on the directives in order: its answers and its final state.\<close>

primrec answers :: "'s on_directive \<Rightarrow> 's \<Rightarrow> py_kvs list \<Rightarrow> py_val res list \<times> 's" where
  "answers f a [] = ([], a)"
| "answers f a (env # envs) =
     (let (r, a') = f a (fst (directive_args env)) (snd (directive_args env));
          (rs, a'') = answers f a' envs in (r # rs, a''))"

definition ack_of :: "py_kvs \<Rightarrow> py_val res \<Rightarrow> py_kvs \<Rightarrow> bool" where
  "ack_of env r ack \<longleftrightarrow> wf_envelope TYPE_DIRECTIVE_ACK ack \<and> dget ''id'' ack = dget ''id'' env \<and>
     (\<exists>p. dget ''payload'' ack = Some (PyDict p) \<and> dget ''ok'' p = Some (PyBool (is_ok r)) \<and>
        (case r of Inr v \<Rightarrow> dget_or ''result'' PyNone p = v \<and> dget ''error'' p = None
         | Inl e \<Rightarrow> dget ''result'' p = None \<and> dget ''error'' p =
             Some (PyDict (mkdict [(''type'', PyStr (exc_type e)), (''message'', PyStr (exc_msg e))]))))"

lemma directive_step_ok:
  assumes "wf_directive env" "answers_objects f" "startswith src ''esr://''"
    "f a (fst (directive_args env)) (snd (directive_args env)) = (r, a')"
  shows "\<exists>ack. directive_step now src f a env = (Inr ack, a') \<and> ack_of env r ack"
proof -
  obtain i p act where env: "dget ''id'' env = Some i" "dget ''payload'' env = Some (PyDict p)" "dget ''action'' p = Some act"
    using assms(1) by (auto simp: wf_directive_def)
  then have f: "f a act (dget_or ''args'' (PyDict []) p) = (r, a')"
    using assms(4) by (simp add: directive_args_def dget_or_def)
  show ?thesis
  proof (cases r)
    case (Inl e)
    with env f assms(3) show ?thesis
      by (simp add: directive_step_def process_directive_def py_index_def make_directive_ack_def dget_or_def
          ack_of_def wf_envelope_def)
  next
    case (Inr v)
    with f assms(2) have "v = PyNone \<or> (\<exists>kvs. v = PyDict kvs)" unfolding answers_objects_def by blast
    with Inr env f assms(3) show ?thesis
      by (auto simp: directive_step_def process_directive_def py_index_def make_directive_ack_def dget_or_def
          ack_of_def wf_envelope_def)
  qed
qed

lemma directive_loop_ok:
  assumes "\<forall>env\<in>set envs. wf_directive env" "answers_objects f" "startswith src ''esr://''"
    "answers f a envs = (rs, a')"
  shows "\<exists>acks. directive_loop clock src f a (map Some envs) = (acks, LWaiting, a') \<and>
    length acks = length envs \<and> length rs = length envs \<and> (\<forall>i<length envs. ack_of (envs ! i) (rs ! i) (acks ! i))"
  using assms(1,4)
proof (induction envs arbitrary: a clock rs)
  case (Cons env envs)
  obtain r a1 where r: "f a (fst (directive_args env)) (snd (directive_args env)) = (r, a1)" by fastforce
  obtain rs1 where rs: "answers f a1 envs = (rs1, a')" "rs = r # rs1"
    using Cons.prems(2) r by (auto split: prod.splits)
  obtain ack where ack: "directive_step (clock 0) src f a env = (Inr ack, a1)" "ack_of env r ack"
    using directive_step_ok [OF _ assms(2,3) r] Cons.prems(1) by auto
  obtain acks where "directive_loop (\<lambda>n. clock (Suc n)) src f a1 (map Some envs) = (acks, LWaiting, a')"
    "length acks = length envs" "length rs1 = length envs" "\<forall>i<length envs. ack_of (envs ! i) (rs1 ! i) (acks ! i)"
    using Cons.IH [OF _ rs(1), of "\<lambda>n. clock (Suc n)"] Cons.prems(1) by auto
  with ack rs(2) show ?case by (auto simp: nth_Cons split: nat.splits)
qed simp

lemma source_uri_of_topic:
  assumes "name \<noteq> []" "inst \<noteq> []" "set name \<inter> set ''/?'' = {}" "set inst \<inter> set ''/?'' = {}"
  shows "\<exists>s. source_uri_of (adapter_topic name inst) = Inr s \<and> startswith s ''esr://'' \<and>
    parse s = Inr \<lparr>uri_org = None, uri_host = ''localhost'', uri_port = None, uri_type = ''adapters'', uri_id = inst,
      uri_segments = [''adapters'', name, inst], uri_params = []\<rparr>"
proof -
  have "CHR ''/'' \<notin> set (''adapter:'' @ name)" using assms(3) by auto
  from before_append [OF this, of inst] after_append [OF this, of inst]
  have t: "removeprefix (before CHR ''/'' (adapter_topic name inst)) ''adapter:'' = name"
    "after CHR ''/'' (adapter_topic name inst) = inst"
    by (simp_all add: adapter_topic_def removeprefix_def)
  obtain s where s: "build_path [''adapters'', name, inst] ''localhost'' None None None [] = Inr s" "startswith s ''esr://''"
    using assms(1,2) by (simp add: build_path_Inr_iff path_style_types_def with_query_def)
  have "set x \<inter> set ''/?'' = {}" if "x \<in> set [''adapters'', name, inst]" for x
    using that assms(3,4) by auto
  from parse_build_path [OF s(1) refl _ this] s t show ?thesis
    by (simp add: source_uri_of_def wf_parts_def norm_org_def)
qed


section \<open>Properties\<close>

text \<open>
  C13. Directives are acknowledged one by one and in order: on a queue of well-formed directives the loop
  pushes exactly one acknowledgement per directive, in the order received, each a complete envelope with
  the id of its directive that says \<open>ok\<close> exactly when the adapter returned, with the adapter's result, and
  otherwise its exception's class and message; the adapter sees the directives in order and keeps its state.
\<close>

theorem directives_acknowledged_in_order:
  assumes "\<forall>env\<in>set envs. wf_directive env" "answers_objects on_directive" "startswith source_uri ''esr://''"
    "answers on_directive a envs = (rs, a')"
  shows "\<exists>acks. directive_loop clock source_uri on_directive a (map Some envs) = (acks, LWaiting, a') \<and>
    length acks = length envs \<and> (\<forall>i<length envs. ack_of (envs ! i) (rs ! i) (acks ! i))"
  using directive_loop_ok [OF assms] by blast

definition demo_on_directive :: "nat on_directive" where
  "demo_on_directive n act args =
     (if act = PyStr ''boom'' then (Inl (Exc ''ValueError'' ''no''), n) else (Inr (PyDict []), Suc n))"

definition demo_directive :: "string \<Rightarrow> string \<Rightarrow> py_kvs" where
  "demo_directive i act = mkdict [(''id'', PyStr i), (''payload'', PyDict (mkdict [(''action'', PyStr act)]))]"

theorem directives_acknowledged_in_order_witness:
  "\<exists>acks. directive_loop (\<lambda>_. ''t'') ''esr://h/adapters/a/b'' demo_on_directive 0
      (map Some [demo_directive ''d-1'' ''boom'', demo_directive ''d-2'' ''go'']) = (acks, LWaiting, 1) \<and>
    length acks = 2 \<and> ack_of (demo_directive ''d-1'' ''boom'') (Inl (Exc ''ValueError'' ''no'')) (acks ! 0)"
proof -
  let ?envs = "[demo_directive ''d-1'' ''boom'', demo_directive ''d-2'' ''go'']"
  have a: "answers demo_on_directive 0 ?envs = ([Inl (Exc ''ValueError'' ''no''), Inr (PyDict [])], 1)"
    by (simp add: demo_on_directive_def demo_directive_def directive_args_def dget_or_def)
  have "\<forall>env\<in>set ?envs. wf_directive env" by (simp add: wf_directive_def demo_directive_def)
  moreover have "answers_objects demo_on_directive"
    by (simp add: answers_objects_def demo_on_directive_def)
  moreover have "startswith ''esr://h/adapters/a/b'' ''esr://''" by simp
  ultimately show ?thesis
    using directives_acknowledged_in_order [OF _ _ _ a, of "''esr://h/adapters/a/b''" "\<lambda>_. ''t''"]
    by (auto simp: All_less_Suc numeral_2_eq_2)
qed

text \<open>
  The provenance of an adapter's envelopes: for an adapter name and instance id free of delimiters, the
  source URI computed from the channel topic is accepted by the envelope builders and parses to the
  segments \<open>adapters\<close>, name and instance.
\<close>

theorem adapter_source_uri:
  assumes "name \<noteq> []" "inst \<noteq> []" "set name \<inter> set ''/?'' = {}" "set inst \<inter> set ''/?'' = {}"
  shows "\<exists>s. source_uri_of (adapter_topic name inst) = Inr s \<and> startswith s ''esr://'' \<and>
    parse s = Inr \<lparr>uri_org = None, uri_host = ''localhost'', uri_port = None, uri_type = ''adapters'', uri_id = inst,
      uri_segments = [''adapters'', name, inst], uri_params = []\<rparr>"
  using assms by (rule source_uri_of_topic)

theorem adapter_source_uri_witness:
  "\<exists>s. source_uri_of (adapter_topic ''feishu'' ''cli_1'') = Inr s \<and> startswith s ''esr://'' \<and>
    parse s = Inr \<lparr>uri_org = None, uri_host = ''localhost'', uri_port = None, uri_type = ''adapters'', uri_id = ''cli_1'',
      uri_segments = [''adapters'', ''feishu'', ''cli_1''], uri_params = []\<rparr>"
  by (rule adapter_source_uri) simp_all

text \<open>
  An adapter without \<open>emit_events\<close> never keeps its connection: its event loop returns at once, the first
  completed task ends the connection, and \<open>run_with_client\<close> returns cleanly while directives are still
  being served.
\<close>

theorem connection_without_events_ends:
  assumes "run_with_client uuid clock topic perms on_directive a None q samples = Inr (hello, acks, evs, fin)"
  shows "fin \<noteq> None \<and>
    (fst (snd (directive_loop clock (projr (source_uri_of topic)) on_directive a q)) = LWaiting \<and>
     watch_status samples = LWaiting \<longrightarrow> fin = Some Clean)"
proof -
  from assms obtain src where src: "source_uri_of topic = Inr src"
    by (auto simp: run_with_client_def rbind_Inr_iff)
  obtain acks' d a' where dl: "directive_loop clock src on_directive a q = (acks', d, a')"
    by (metis prod_cases3)
  from assms src dl have "fin = first_completed [d, LReturned, watch_status samples]"
    by (simp add: run_with_client_def rbind_Inr_iff event_loop_def)
  then show ?thesis
    using src dl by (auto simp: first_completed_def split: list.splits)
qed

theorem connection_without_events_ends_witness:
  "\<exists>hello acks evs. run_with_client (\<lambda>_. ''u'') (\<lambda>_. ''t'') ''adapter:a/b'' [] demo_on_directive 0 None [] [] =
     Inr (hello, acks, evs, Some Clean)"
proof -
  obtain s where s: "source_uri_of ''adapter:a/b'' = Inr s" "startswith s ''esr://''"
    using source_uri_of_topic [of "''a''" "''b''"] by (auto simp: adapter_topic_def)
  then obtain hello acks evs fin where
    r: "run_with_client (\<lambda>_. ''u'') (\<lambda>_. ''t'') ''adapter:a/b'' [] demo_on_directive 0 None [] [] = Inr (hello, acks, evs, fin)"
    by (simp add: run_with_client_def make_handler_hello_def event_loop_def)
  from connection_without_events_ends [OF this] have "fin = Some Clean" by (simp add: watch_status_def)
  with r show ?thesis by blast
qed

text \<open>The gate of a sidecar: a name outside its allowlist exits with code 2 before anything is loaded.\<close>

lemma main_allowlist:
  "main (Some xs) ns r = (c, started) \<Longrightarrow> ra_adapter ns \<notin> set xs \<Longrightarrow> c = 2 \<and> \<not> started"
  "main al ns r = (c, True) \<Longrightarrow> al = None \<or> (\<exists>xs. al = Some xs \<and> ra_adapter ns \<in> set xs)"
  by (auto simp: main_def check_allowlist_def split: option.splits if_splits)

end
