(* ===== verification/Processes.thy ===== *)
theory Processes
  imports Adapter_Runner Handler_Worker
begin

text \<open>
  The worker processes as a whole: \<open>run_with_reconnect\<close>, \<open>run\<close>, \<open>main\<close> and the spawn guard of the adapter sidecars
  (\<^verbatim>\<open>py/src/_adapter_common\<close> and the three runners) and of the handler worker (\<^verbatim>\<open>py/src/esr/ipc/handler_worker.py\<close>).

  A process sees a list of connections. Each begins with a reading of the port file; it fails to connect, or it brings
  events of the adapter, directives or calls, and successive readings of \<open>client.connected\<close>. The adapter
  object, unlike the client, lives through all of them.
\<close>

section \<open>The adapter sidecars\<close>

datatype conn_input =
    ConnectFails py_exc
  | Connected "(py_kvs list \<times> bool) option" "py_kvs option list" "bool option list"

text \<open>\<open>run_one\<close>: how one connection ends, with the envelopes it pushed; a connection that has not ended is \<^const>\<open>None\<close>.\<close>

definition run_one ::
  "(nat \<Rightarrow> string) \<Rightarrow> (nat \<Rightarrow> string) \<Rightarrow> string \<Rightarrow> string list \<Rightarrow> 's on_directive \<Rightarrow> 's \<Rightarrow> conn_input \<Rightarrow>
   py_kvs list \<times> py_kvs list \<times> outcome option \<times> 's"
where
  "run_one uuid clock topic perms on_directive a inp =
     (case inp of
        ConnectFails e \<Rightarrow> ([], [], Some (Failed e), a)
      | Connected emit q samples \<Rightarrow>
          (case Adapter_Runner.run_with_client uuid clock topic perms on_directive a emit q samples of
             Inl e \<Rightarrow> ([], [], Some (Failed e), a)
           | Inr (hello, acks, evs, out) \<Rightarrow>
               (acks, evs, out,
                case source_uri_of topic of Inr src \<Rightarrow> snd (snd (directive_loop clock src on_directive a q)) | Inl _ \<Rightarrow> a)))"

text \<open>The connections one after the other, up to one that has not ended: acknowledgements, outcomes, and the adapter's state.\<close>

fun sessions ::
  "(nat \<Rightarrow> string) \<Rightarrow> (nat \<Rightarrow> string) \<Rightarrow> string \<Rightarrow> string list \<Rightarrow> 's on_directive \<Rightarrow> 's \<Rightarrow> (string option \<times> conn_input) list \<Rightarrow>
   py_kvs list list \<times> (string option \<times> outcome) list \<times> 's"
where
  "sessions uuid clock topic perms on_directive a [] = ([], [], a)"
| "sessions uuid clock topic perms on_directive a ((pf, inp) # conns) =
     (case run_one uuid clock topic perms on_directive a inp of
        (acks, _, None, a') \<Rightarrow> ([acks], [], a')
      | (acks, _, Some out, a') \<Rightarrow>
          (case sessions uuid clock topic perms on_directive a' conns of (ackss, outs, a'') \<Rightarrow> (acks # ackss, (pf, out) # outs, a'')))"

definition run_with_reconnect ::
  "(nat \<Rightarrow> string) \<Rightarrow> (nat \<Rightarrow> string) \<Rightarrow> string \<Rightarrow> string list \<Rightarrow> 's on_directive \<Rightarrow> 's \<Rightarrow> string \<Rightarrow>
   (string option \<times> conn_input) list \<Rightarrow> py_kvs list list \<times> (string \<times> nat) list \<times> loop_end \<times> 's"
where
  "run_with_reconnect uuid clock topic perms on_directive a fallback_url conns =
     (case sessions uuid clock topic perms on_directive a conns of
        (ackss, outs, a') \<Rightarrow>
          (case reconnect_loop RECONNECT_BACKOFF_SCHEDULE fallback_url 0 outs of (sleeps, fin) \<Rightarrow> (ackss, sleeps, fin, a')))"

text \<open>\<open>__main__\<close>: without a non-empty spawn token the process exits with 2, otherwise with the code of \<open>main\<close>.\<close>

definition entry :: "string option \<Rightarrow> int \<Rightarrow> int" where
  "entry spawn_token code = (case spawn_token of Some (c # cs) \<Rightarrow> code | _ \<Rightarrow> 2)"

definition feishu_entry :: "string option \<Rightarrow> runner_args \<Rightarrow> run_end \<Rightarrow> int" where
  "feishu_entry spawn_token ns run_result = entry spawn_token (fst (Adapter_Runner.main (Some feishu_allowlist) ns run_result))"

definition cc_entry :: "string option \<Rightarrow> runner_args \<Rightarrow> run_end \<Rightarrow> int" where
  "cc_entry spawn_token ns run_result = entry spawn_token (fst (Adapter_Runner.main (Some cc_allowlist) ns run_result))"

definition generic_entry :: "string option \<Rightarrow> runner_args \<Rightarrow> run_end \<Rightarrow> int" where
  "generic_entry spawn_token ns run_result = entry spawn_token (fst (Adapter_Runner.main None ns run_result))"


section \<open>The handler worker\<close>

definition loop_status_of :: "call_loop_end \<Rightarrow> loop_status" where
  "loop_status_of fin = (case fin of Waiting \<Rightarrow> LWaiting | Returned \<Rightarrow> LReturned | Raised e \<Rightarrow> LRaised e)"

text \<open>One connection of a worker: what it pushed, and how it ended.\<close>

definition worker_connection ::
  "string \<Rightarrow> string \<Rightarrow> 'st handler_fn handler_registry \<Rightarrow> 'st state_class state_registry \<Rightarrow> string \<Rightarrow> string list \<Rightarrow>
   py_kvs option list \<Rightarrow> bool option list \<Rightarrow> py_kvs list \<times> outcome option"
where
  "worker_connection uuid now handlers states topic perms q samples =
     (case Handler_Worker.run_with_client uuid now handlers states topic perms q of
        ([], Raised e) \<Rightarrow> ([], Some (Failed e))
      | (outs, fin) \<Rightarrow> (outs, first_completed [loop_status_of fin, watch_status samples]))"

text \<open>\<open>run\<close>: the module whose import registers the handlers; only \<open>ImportError\<close> falls back to the raw name.\<close>

definition load_handlers :: "(string \<Rightarrow> unit res) \<Rightarrow> string \<Rightarrow> string res" where
  "load_handlers import_module handler_module =
     (case import_module (handler_package handler_module) of
        Inr _ \<Rightarrow> Inr (handler_package handler_module)
      | Inl e \<Rightarrow>
          if exc_type e \<in> {''ImportError'', ''ModuleNotFoundError''}
          then rbind (import_module handler_module) (\<lambda>_. Inr handler_module) else Inl e)"

text \<open>
  \<open>run_with_reconnect\<close> of the worker: it holds no state of its own between connections. Each connection pushes its hello envelope
  first; the identifiers and times of these are drawn anew.
\<close>

datatype worker_input = WConnectFails py_exc | WConnected "py_kvs option list" "bool option list"

definition worker_run_one ::
  "string \<Rightarrow> string \<Rightarrow> 'st handler_fn handler_registry \<Rightarrow> 'st state_class state_registry \<Rightarrow> string \<Rightarrow> string list \<Rightarrow>
   worker_input \<Rightarrow> py_kvs list \<times> outcome option"
where
  "worker_run_one uuid now handlers states topic perms inp =
     (case inp of
        WConnectFails e \<Rightarrow> ([], Some (Failed e))
      | WConnected q samples \<Rightarrow> worker_connection uuid now handlers states topic perms q samples)"

fun worker_sessions ::
  "(nat \<Rightarrow> string) \<Rightarrow> (nat \<Rightarrow> string) \<Rightarrow> 'st handler_fn handler_registry \<Rightarrow> 'st state_class state_registry \<Rightarrow> string \<Rightarrow> string list \<Rightarrow>
   nat \<Rightarrow> (string option \<times> worker_input) list \<Rightarrow> py_kvs list list \<times> (string option \<times> outcome) list"
where
  "worker_sessions uuid clock handlers states topic perms k [] = ([], [])"
| "worker_sessions uuid clock handlers states topic perms k ((pf, inp) # conns) =
     (case worker_run_one (uuid k) (clock k) handlers states topic perms inp of
        (outs, None) \<Rightarrow> ([outs], [])
      | (outs, Some e) \<Rightarrow>
          (case worker_sessions uuid clock handlers states topic perms (Suc k) conns of (outss, ends) \<Rightarrow> (outs # outss, (pf, e) # ends)))"

definition worker_reconnect ::
  "(nat \<Rightarrow> string) \<Rightarrow> (nat \<Rightarrow> string) \<Rightarrow> 'st handler_fn handler_registry \<Rightarrow> 'st state_class state_registry \<Rightarrow> string \<Rightarrow> string list \<Rightarrow>
   string \<Rightarrow> (string option \<times> worker_input) list \<Rightarrow> py_kvs list list \<times> (string \<times> nat) list \<times> loop_end"
where
  "worker_reconnect uuid clock handlers states topic perms fallback_url conns =
     (case worker_sessions uuid clock handlers states topic perms 0 conns of
        (outss, ends) \<Rightarrow> (outss, reconnect_loop RECONNECT_BACKOFF_SCHEDULE fallback_url 0 ends))"

text \<open>\<open>run\<close>: the import decides what is registered, then the topic is served.\<close>

definition worker_run ::
  "(string \<Rightarrow> unit res) \<Rightarrow> (nat \<Rightarrow> string) \<Rightarrow> (nat \<Rightarrow> string) \<Rightarrow>
   (string \<Rightarrow> 'st handler_fn handler_registry \<times> 'st state_class state_registry \<times> string list) \<Rightarrow>
   string \<Rightarrow> string \<Rightarrow> string \<Rightarrow> (string option \<times> worker_input) list \<Rightarrow> (py_kvs list list \<times> (string \<times> nat) list \<times> loop_end) res"
where
  "worker_run import_module uuid clock registered handler_module worker_id url conns =
     rbind (load_handlers import_module handler_module) (\<lambda>imported.
       case registered imported of (handlers, states, perms) \<Rightarrow>
         Inr (worker_reconnect uuid clock handlers states (handler_topic handler_module worker_id) perms url conns))"

text \<open>\<open>main\<close>: a failing import, or a run that raises, is exit code 1.\<close>

definition worker_main :: "(string \<Rightarrow> unit res) \<Rightarrow> string \<Rightarrow> run_end \<Rightarrow> int" where
  "worker_main import_module handler_module run_result =
     (case load_handlers import_module handler_module of
        Inl _ \<Rightarrow> 1
      | Inr _ \<Rightarrow> (case run_result of RunInterrupted \<Rightarrow> 0 | RunFailed _ \<Rightarrow> 1 | RunReturned \<Rightarrow> 0))"

definition worker_entry :: "string option \<Rightarrow> (string \<Rightarrow> unit res) \<Rightarrow> string \<Rightarrow> run_end \<Rightarrow> int" where
  "worker_entry spawn_token import_module handler_module run_result =
     entry spawn_token (worker_main import_module handler_module run_result)"


section \<open>Lemmas\<close>

text \<open>The directives a connection brings, when its queue holds directives only.\<close>

definition delivered :: "conn_input \<Rightarrow> py_kvs list" where
  "delivered inp = (case inp of ConnectFails _ \<Rightarrow> [] | Connected _ q _ \<Rightarrow> map the (filter (\<lambda>x. x \<noteq> None) q))"

definition all_delivered :: "(string option \<times> conn_input) list \<Rightarrow> py_kvs list" where
  "all_delivered conns = concat (map (\<lambda>c. delivered (snd c)) conns)"

lemma all_delivered_simps [simp]: "all_delivered [] = []" "all_delivered ((pf, inp) # conns) = delivered inp @ all_delivered conns"
  by (simp_all add: all_delivered_def)

text \<open>A connection that drops after its directives were handled: the queue never closes and a poll sees it down.\<close>

definition drops :: "conn_input \<Rightarrow> bool" where
  "drops inp = (case inp of ConnectFails _ \<Rightarrow> True
     | Connected _ q samples \<Rightarrow> None \<notin> set q \<and> (\<forall>env\<in>set (delivered inp). wf_directive env) \<and> Some False \<in> set samples)"

lemma watch_status_drop: "Some False \<in> set samples \<Longrightarrow> \<exists>e. watch_status samples = LRaised e"
proof -
  assume "Some False \<in> set samples"
  then have "\<exists>e. snd (watch_disconnect samples) = Some e"
    by (induction samples) (auto split: prod.splits)
  then show ?thesis by (auto simp: watch_status_def)
qed

lemma queue_all_Some: "None \<notin> set q \<Longrightarrow> map Some (map the (filter (\<lambda>x. x \<noteq> None) q)) = q"
proof (induction q)
  case (Cons a q)
  then show ?case by (cases a) auto
qed simp

text \<open>One dropped connection acknowledges exactly the directives it brought.\<close>

lemma run_one_drops:
  assumes d: "drops inp" and o: "answers_objects f" and src: "source_uri_of topic = Inr src" "startswith src ''esr://''"
    and hello: "is_ok (make_handler_hello (uuid 0) (clock 0) src perms)"
    and a: "answers f a (delivered inp) = (rs, a')"
  shows "\<exists>acks evs e. run_one uuid clock topic perms f a inp = (acks, evs, Some e, a') \<and> e \<noteq> Cancelled \<and>
    length acks = length (delivered inp) \<and> length rs = length acks \<and> (\<forall>i<length acks. ack_of (delivered inp ! i) (rs ! i) (acks ! i))"
proof (cases inp)
  case (ConnectFails e)
  with a show ?thesis by (simp add: run_one_def delivered_def)
next
  case (Connected emit q samples)
  have q: "map Some (delivered inp) = q" and wf: "\<forall>env\<in>set (delivered inp). wf_directive env" and s: "Some False \<in> set samples"
    using d queue_all_Some [of q] by (simp_all add: Connected drops_def delivered_def)
  from directive_loop_ok [OF wf o src(2) a, of clock] obtain acks where acks: "directive_loop clock src f a q = (acks, LWaiting, a')"
    "length acks = length (delivered inp)" "length rs = length (delivered inp)" "\<forall>i<length (delivered inp). ack_of (delivered inp ! i) (rs ! i) (acks ! i)"
    unfolding q by blast
  obtain h where h: "make_handler_hello (uuid 0) (clock 0) src perms = Inr h" using hello by (auto simp: is_ok_iff)
  obtain evs ev where ev: "event_loop uuid clock src emit = (evs, ev)" by fastforce
  obtain e where e: "watch_status samples = LRaised e" using watch_status_drop [OF s] by blast
  have "first_completed [LWaiting, ev, LRaised e] \<in> {Some (Failed x) | x. True}"
    by (auto simp: first_completed_def split: loop_status.splits)
  then obtain x where x: "first_completed [LWaiting, ev, LRaised e] = Some (Failed x)" by blast
  show ?thesis
    using acks h ev e x src(1) by (simp add: run_one_def Connected Adapter_Runner.run_with_client_def)
qed

lemma answers_append:
  "answers f a xs = (rs, a1) \<Longrightarrow> answers f a1 ys = (ss, a2) \<Longrightarrow> answers f a (xs @ ys) = (rs @ ss, a2)"
  by (induction xs arbitrary: a rs) (auto split: prod.splits)

lemma sessions_drop:
  assumes o: "answers_objects f" and src: "source_uri_of topic = Inr src" "startswith src ''esr://''"
    and hello: "is_ok (make_handler_hello (uuid 0) (clock 0) src perms)"
  shows "\<forall>(pf, inp)\<in>set conns. drops inp \<Longrightarrow> answers f a (all_delivered conns) = (rs, a') \<Longrightarrow>
    \<exists>ackss outs. sessions uuid clock topic perms f a conns = (ackss, outs, a') \<and> map fst outs = map fst conns \<and>
      (\<forall>(pf, out)\<in>set outs. out \<noteq> Cancelled) \<and> length (concat ackss) = length (all_delivered conns) \<and>
      list_all2 (\<lambda>(env, r) ack. ack_of env r ack) (zip (all_delivered conns) rs) (concat ackss)"
proof (induction conns arbitrary: a rs)
  case (Cons c conns)
  obtain pf inp where c: "c = (pf, inp)" by (cases c)
  obtain r1 a1 where r1: "answers f a (delivered inp) = (r1, a1)" by fastforce
  obtain r2 a2 where r2: "answers f a1 (all_delivered conns) = (r2, a2)" by fastforce
  have rs: "rs = r1 @ r2" "a2 = a'" using Cons.prems(2) answers_append [OF r1 r2] by (simp_all add: c)
  obtain acks evs e where one: "run_one uuid clock topic perms f a inp = (acks, evs, Some e, a1)" "e \<noteq> Cancelled"
    "length acks = length (delivered inp)" "length r1 = length acks" "\<forall>i<length acks. ack_of (delivered inp ! i) (r1 ! i) (acks ! i)"
    using run_one_drops [where uuid = uuid and clock = clock, OF _ o src hello r1] Cons.prems(1) by (auto simp: c)
  obtain ackss outs where rest: "sessions uuid clock topic perms f a1 conns = (ackss, outs, a')" "map fst outs = map fst conns"
    "\<forall>(pf, out)\<in>set outs. out \<noteq> Cancelled" "length (concat ackss) = length (all_delivered conns)"
    "list_all2 (\<lambda>(env, r) ack. ack_of env r ack) (zip (all_delivered conns) r2) (concat ackss)"
    using Cons.IH [of a1 r2] Cons.prems(1) r2 rs(2) by (auto simp: c)
  have "list_all2 (\<lambda>(env, r) ack. ack_of env r ack) (zip (delivered inp) r1) acks"
    using one(3-5) by (simp add: list_all2_conv_all_nth)
  then have "list_all2 (\<lambda>(env, r) ack. ack_of env r ack) (zip (delivered inp) r1 @ zip (all_delivered conns) r2) (acks @ concat ackss)"
    using rest(5) by (rule list_all2_appendI)
  then show ?case using one rest rs by (simp add: c)
qed simp

text \<open>When every connection ended otherwise than by cancellation, the process has slept after each and is still running.\<close>

lemma reconnects_forever:
  assumes "map fst outs = map fst conns" "\<forall>(pf, out)\<in>set outs. out \<noteq> Cancelled" "\<forall>(pf, inp)\<in>set conns. is_ok (resolve_url pf fallback_url)"
  shows "\<exists>sleeps. reconnect_loop RECONNECT_BACKOFF_SCHEDULE fallback_url 0 outs = (sleeps, StillRunning) \<and> length sleeps = length conns"
proof -
  have "\<forall>(pf, out)\<in>set outs. is_ok (resolve_url pf fallback_url) \<and> out \<noteq> Cancelled"
  proof (intro ballI, clarify)
    fix pf out assume o: "(pf, out) \<in> set outs"
    then have "pf \<in> set (map fst conns)" unfolding assms(1) [symmetric] by force
    with assms(2,3) o show "is_ok (resolve_url pf fallback_url) \<and> out \<noteq> Cancelled" by auto
  qed
  moreover have "RECONNECT_BACKOFF_SCHEDULE \<noteq> []" by (simp add: RECONNECT_BACKOFF_SCHEDULE_def)
  ultimately have "length (fst (reconnect_loop RECONNECT_BACKOFF_SCHEDULE fallback_url 0 outs)) = length outs \<and>
      snd (reconnect_loop RECONNECT_BACKOFF_SCHEDULE fallback_url 0 outs) = StillRunning"
    using reconnect_delays by blast
  moreover have "length outs = length conns" using arg_cong [OF assms(1), of length] by simp
  ultimately show ?thesis by (metis prod.collapse)
qed


section \<open>Properties\<close>


definition demo_conns :: "(string option \<times> conn_input) list" where
  "demo_conns = [(None, Connected None [Some (demo_directive ''d-1'' ''boom'')] [Some True, Some False]),
     (None, ConnectFails (Exc ''OSError'' ''refused'')), (Some ''5001'', Connected None [Some (demo_directive ''d-2'' ''go'')] [Some False])]"


text \<open>The calls a worker's connection brings, and a connection that drops after them.\<close>

definition calls_of :: "worker_input \<Rightarrow> py_kvs list" where
  "calls_of inp = (case inp of WConnectFails _ \<Rightarrow> [] | WConnected q _ \<Rightarrow> map the (filter (\<lambda>x. x \<noteq> None) q))"

definition all_calls :: "(string option \<times> worker_input) list \<Rightarrow> py_kvs list" where
  "all_calls conns = concat (map (\<lambda>c. calls_of (snd c)) conns)"

definition worker_drops :: "worker_input \<Rightarrow> bool" where
  "worker_drops inp = (case inp of WConnectFails _ \<Rightarrow> True
     | WConnected q samples \<Rightarrow> None \<notin> set q \<and> (\<forall>env\<in>set (calls_of inp). wf_call_env env) \<and> Some False \<in> set samples)"

lemma worker_run_one_drops:
  assumes "worker_drops inp" "\<forall>he\<in>snd ` set handlers. fn_ok (he_fn he)"
  shows "\<exists>outs e. worker_run_one uuid now handlers states topic perms inp = (outs, Some (Failed e)) \<and>
    list_all2 (reply_to handlers states topic) (calls_of inp) (drop 1 outs)"
proof (cases inp)
  case (WConnectFails e)
  then show ?thesis by (simp add: worker_run_one_def calls_of_def)
next
  case (WConnected q samples)
  have q: "map Some (calls_of inp) = q" and wf: "\<forall>env\<in>set (calls_of inp). wf_call_env env" and s: "Some False \<in> set samples"
    using assms(1) queue_all_Some [of q] by (simp_all add: WConnected worker_drops_def calls_of_def)
  from handler_call_loop_ok [OF assms(2) wf, of states topic] obtain outs where
    o: "handler_call_loop handlers states topic q = (outs, Waiting)" "list_all2 (reply_to handlers states topic) (calls_of inp) outs"
    unfolding q by blast
  obtain e where e: "watch_status samples = LRaised e" using watch_status_drop [OF s] by blast
  have "make_handler_hello uuid now (''esr://localhost/'' @ topic) perms \<noteq> Inl x" for x
    by (simp add: make_handler_hello_def check_source_def rbind_def)
  then obtain h where h: "make_handler_hello uuid now (''esr://localhost/'' @ topic) perms = Inr h" by (metis sum.exhaust)
  show ?thesis
    using o e h by (simp add: WConnected worker_run_one_def worker_connection_def Handler_Worker.run_with_client_def
        loop_status_of_def first_completed_def del: append_Cons)
qed

lemma worker_sessions_drop:
  assumes "\<forall>he\<in>snd ` set handlers. fn_ok (he_fn he)"
  shows "\<forall>(pf, inp)\<in>set conns. worker_drops inp \<Longrightarrow>
    \<exists>outss ends. worker_sessions uuid clock handlers states topic perms k conns = (outss, ends) \<and> map fst ends = map fst conns \<and>
      (\<forall>(pf, e)\<in>set ends. e \<noteq> Cancelled) \<and> list_all2 (reply_to handlers states topic) (all_calls conns) (concat (map (drop 1) outss))"
proof (induction conns arbitrary: k)
  case (Cons c conns)
  obtain pf inp where c: "c = (pf, inp)" by (cases c)
  with Cons.prems obtain outs e where one: "worker_run_one (uuid k) (clock k) handlers states topic perms inp = (outs, Some (Failed e))"
    "list_all2 (reply_to handlers states topic) (calls_of inp) (drop 1 outs)"
    using worker_run_one_drops [OF _ assms, of inp] by fastforce
  obtain outss ends where "worker_sessions uuid clock handlers states topic perms (Suc k) conns = (outss, ends)" "map fst ends = map fst conns"
      "\<forall>(pf, e)\<in>set ends. e \<noteq> Cancelled" "list_all2 (reply_to handlers states topic) (all_calls conns) (concat (map (drop 1) outss))"
    using Cons.IH [of "Suc k"] Cons.prems by (auto simp: c)
  with one show ?case by (simp add: c all_calls_def list_all2_appendI)
qed (simp add: all_calls_def)


definition demo_calls :: "(string option \<times> worker_input) list" where
  "demo_calls =
     [(None, WConnected [Some (mkdict [(''id'', PyStr ''c-1''), (''payload'', call_payload ''nobody'' (PyDict [])
         \<lparr>ev_source = PyStr [], ev_event_type = PyStr ''x'', ev_args = []\<rparr>)])] [Some True, Some False]),
      (None, WConnectFails (Exc ''OSError'' ''refused''))]"


text \<open>A sidecar refuses an adapter outside its allowlist with code 2, whatever else; the generic one never does.\<close>

lemma sidecar_refuses:
  "ra_adapter ns \<noteq> ''feishu'' \<Longrightarrow> feishu_entry token ns rr = 2" "ra_adapter ns \<noteq> ''cc_mcp'' \<Longrightarrow> cc_entry token ns rr = 2"
  by (simp_all add: feishu_entry_def cc_entry_def entry_def Adapter_Runner.main_def check_allowlist_def feishu_allowlist_def cc_allowlist_def
      split: option.splits list.splits)

text \<open>The guard of every entry point: no token, no run.\<close>

lemma entry_needs_token: "entry None code = 2" "entry (Some []) code = 2" "token \<noteq> [] \<Longrightarrow> entry (Some token) code = code"
  by (simp_all add: entry_def split: list.splits)

end
