(* ===== verification/Phx_Client.thy ===== *)
theory Phx_Client
  imports Channel_Client
begin

text \<open>
  \<^verbatim>\<open>py/src/cc_channel_runner/phx_client.py\<close>: the Phoenix v2 client of the Claude Code bridge. Unlike
  \<^verbatim>\<open>channel_client.py\<close> it does not reconnect, every push waits for its reply, the read loop leaves a
  resolved future in the table for its awaiter to remove, and frames that answer nobody are queued for
  \<open>receive()\<close>.

  Coroutines are cut at their suspension points as in \<open>Channel_Client\<close>. A future is its reference:
  \<open>bc_pending\<close> is the table \<open>_pending\<close>, \<open>bc_done\<close> the outcomes of the futures that are done, where their
  awaiters find them also after the table was cleared. How \<open>websockets.connect\<close> and \<open>send\<close> end is an
  argument (\<^const>\<open>None\<close> for success), and so are \<open>json.dumps\<close> and \<open>json.loads\<close>.
\<close>

section \<open>State\<close>

record phx_client =
  bc_ws :: bool
  bc_ref_counter :: nat
  bc_join_refs :: "(string \<times> string) list"
  bc_pending :: "(string \<times> unit) list"
  bc_done :: "(string \<times> py_kvs res) list"
  bc_inbox :: "py_kvs list"
  bc_recv_task :: bool
  bc_heartbeat_task :: bool
  bc_closed :: bool
  bc_sent :: "string list"

definition new_phx_client :: phx_client where
  "new_phx_client =
     \<lparr>bc_ws = False, bc_ref_counter = 0, bc_join_refs = [], bc_pending = [], bc_done = [], bc_inbox = [],
      bc_recv_task = False, bc_heartbeat_task = False, bc_closed = False, bc_sent = []\<rparr>"

type_synonym ws_send = "string \<Rightarrow> py_exc option"

definition RECONNECT_BACKOFF_SECS :: "nat list" where
  "RECONNECT_BACKOFF_SECS = [1, 2, 4]"


section \<open>Operations\<close>

text \<open>\<open>connect\<close>: the result, the sleeps it took, and the state. \<open>ws_connect n\<close> is how attempt \<open>n\<close> ends.\<close>

fun connect_loop ::
  "(nat \<Rightarrow> py_exc option) \<Rightarrow> nat \<Rightarrow> nat list \<Rightarrow> py_exc option \<Rightarrow> phx_client \<Rightarrow> unit res \<times> nat list \<times> phx_client"
where
  "connect_loop ws_connect attempt [] last_exc c =
     ((case last_exc of Some e \<Rightarrow> Inl e | None \<Rightarrow> Inl (Exc ''AssertionError'' [])), [], c)"
| "connect_loop ws_connect attempt (backoff # rest) last_exc c =
     (case ws_connect attempt of
        None \<Rightarrow> (Inr (), [], c\<lparr>bc_ws := True, bc_recv_task := True, bc_heartbeat_task := True\<rparr>)
      | Some e \<Rightarrow>
          (case connect_loop ws_connect (Suc attempt) rest (Some e) c of
             (r, sleeps, c') \<Rightarrow> (r, backoff # sleeps, c')))"

definition phx_connect :: "(nat \<Rightarrow> py_exc option) \<Rightarrow> phx_client \<Rightarrow> unit res \<times> nat list \<times> phx_client" where
  "phx_connect ws_connect c = connect_loop ws_connect 0 RECONNECT_BACKOFF_SECS None c"

definition phx_next_ref :: "phx_client \<Rightarrow> string \<times> phx_client" where
  "phx_next_ref c =
     (let c1 = c\<lparr>bc_ref_counter := bc_ref_counter c + 1\<rparr> in (show_nat (bc_ref_counter c1), c1))"

definition phx_send :: "(py_val \<Rightarrow> string res) \<Rightarrow> ws_send \<Rightarrow> py_val list \<Rightarrow> phx_client \<Rightarrow> unit res \<times> phx_client" where
  "phx_send json_dumps send frame c =
     (case json_dumps (PyList frame) of
        Inl e \<Rightarrow> (Inl e, c)
      | Inr t \<Rightarrow> (case send t of Some e \<Rightarrow> (Inl e, c) | None \<Rightarrow> (Inr (), c\<lparr>bc_sent := bc_sent c @ [t]\<rparr>)))"

text \<open>\<open>self._pending.pop(ref, None)\<close>.\<close>

definition phx_forget :: "string \<Rightarrow> phx_client \<Rightarrow> phx_client" where
  "phx_forget ref c = c\<lparr>bc_pending := ddel ref (bc_pending c)\<rparr>"

text \<open>\<open>_push_and_await\<close> up to \<open>await future\<close>, and after it: \<^const>\<open>None\<close> while the future is not done.\<close>

definition push_and_await_start ::
  "(py_val \<Rightarrow> string res) \<Rightarrow> ws_send \<Rightarrow> string \<Rightarrow> string \<Rightarrow> string \<Rightarrow> string \<Rightarrow> py_val \<Rightarrow> phx_client \<Rightarrow>
   string res \<times> phx_client"
where
  "push_and_await_start json_dumps send join_ref ref topic event payload c =
     (let c1 = c\<lparr>bc_pending := dset ref () (bc_pending c)\<rparr> in
      case phx_send json_dumps send [PyStr join_ref, PyStr ref, PyStr topic, PyStr event, payload] c1 of
        (Inl e, c2) \<Rightarrow> (Inl e, phx_forget ref c2)
      | (Inr _, c2) \<Rightarrow> (Inr ref, c2))"

definition push_and_await_finish :: "string \<Rightarrow> phx_client \<Rightarrow> (py_kvs res \<times> phx_client) option" where
  "push_and_await_finish ref c = map_option (\<lambda>r. (r, phx_forget ref c)) (map_of (bc_done c) ref)"

definition phx_join_start ::
  "(py_val \<Rightarrow> string res) \<Rightarrow> ws_send \<Rightarrow> string \<Rightarrow> py_val \<Rightarrow> phx_client \<Rightarrow> string res \<times> phx_client"
where
  "phx_join_start json_dumps send topic payload c =
     (if \<not> bc_ws c then (Inl (Exc ''RuntimeError'' ''join() called before connect()''), c)
      else (case phx_next_ref c of (ref, c1) \<Rightarrow>
              push_and_await_start json_dumps send ref ref topic ''phx_join'' (py_or payload (PyDict []))
                (c1\<lparr>bc_join_refs := dset topic ref (bc_join_refs c1)\<rparr>)))"

definition phx_join_finish :: "string \<Rightarrow> py_kvs \<Rightarrow> py_val res" where
  "phx_join_finish topic reply =
     rbind (py_get (dget_or ''payload'' (PyDict []) reply) ''status'' PyNone) (\<lambda>status.
       if status \<noteq> PyStr ''ok''
       then Inl (Exc ''RuntimeError'' (''phx_join failed for '' @ repr_str topic @ '': '' @ py_repr (PyDict reply)))
       else py_get (dget_or ''payload'' (PyDict []) reply) ''response'' (PyDict []))"

definition phx_push_start ::
  "(py_val \<Rightarrow> string res) \<Rightarrow> ws_send \<Rightarrow> string \<Rightarrow> string \<Rightarrow> py_val \<Rightarrow> phx_client \<Rightarrow> string res \<times> phx_client"
where
  "phx_push_start json_dumps send topic event payload c =
     (if \<not> bc_ws c then (Inl (Exc ''RuntimeError'' ''push() called before connect()''), c)
      else (case map_of (bc_join_refs c) topic of
              None \<Rightarrow> (Inl (Exc ''RuntimeError'' (''push() to topic '' @ repr_str topic @ '' before join()'')), c)
            | Some join_ref \<Rightarrow>
                (case phx_next_ref c of (ref, c1) \<Rightarrow>
                   push_and_await_start json_dumps send join_ref ref topic event payload c1)))"

definition phx_push_finish :: "py_kvs \<Rightarrow> py_val" where
  "phx_push_finish reply = dget_or ''payload'' (PyDict []) reply"

text \<open>One turn of \<open>receive()\<close>.\<close>

datatype receive_turn = ReceiveEnds | ReceiveWaits | ReceiveYields py_kvs

definition phx_receive :: "phx_client \<Rightarrow> receive_turn \<times> phx_client" where
  "phx_receive c =
     (if bc_closed c then (ReceiveEnds, c)
      else (case bc_inbox c of
              [] \<Rightarrow> (ReceiveWaits, c)
            | frame # rest \<Rightarrow> (ReceiveYields frame, c\<lparr>bc_inbox := rest\<rparr>)))"

text \<open>\<open>fut.set_result\<close> and \<open>fut.set_exception\<close> on a future that is in the table and not done.\<close>

definition phx_waiting :: "phx_client \<Rightarrow> string \<Rightarrow> unit option" where
  "phx_waiting c ref = (if map_of (bc_done c) ref = None then map_of (bc_pending c) ref else None)"

definition phx_resolve :: "py_kvs res \<Rightarrow> string \<Rightarrow> phx_client \<Rightarrow> unit option \<times> phx_client" where
  "phx_resolve r ref c =
     (case phx_waiting c ref of
        None \<Rightarrow> (None, c)
      | Some w \<Rightarrow> (Some w, c\<lparr>bc_done := dset ref r (bc_done c)\<rparr>))"

definition phx_close :: "phx_client \<Rightarrow> phx_client" where
  "phx_close c =
     (let c1 = c\<lparr>bc_closed := True, bc_heartbeat_task := False, bc_recv_task := False, bc_ws := False\<rparr>;
          c2 = fold (\<lambda>ref c. snd (phx_resolve (Inl (Exc ''RuntimeError'' ''phx_client closed'')) ref c))
                 (map fst (bc_pending c1)) c1
      in c2\<lparr>bc_pending := []\<rparr>)"

text \<open>The body of \<open>_recv_loop\<close> for one message, and its end when the socket closes or the body raises.\<close>

datatype recv_result = RecvSkipped | RecvReply string | RecvLate | RecvQueued py_kvs | RecvDies py_exc

definition inbound_frame :: "py_val \<Rightarrow> py_val \<Rightarrow> py_val \<Rightarrow> py_val \<Rightarrow> py_val \<Rightarrow> py_kvs" where
  "inbound_frame join_ref ref topic event payload =
     mkdict [(''join_ref'', join_ref), (''ref'', ref), (''topic'', topic), (''event'', event), (''payload'', payload)]"

definition route_frame :: "py_kvs \<Rightarrow> py_val \<Rightarrow> py_val \<Rightarrow> phx_client \<Rightarrow> recv_result \<times> phx_client" where
  "route_frame frame ref event c =
     (let queued = (RecvQueued frame, c\<lparr>bc_inbox := bc_inbox c @ [frame]\<rparr>) in
      if event \<noteq> PyStr ''phx_reply'' then queued
      else if \<not> hashable ref then (RecvDies (unhashable ref), c)
      else (case ref of
              PyStr r \<Rightarrow>
                if map_of (bc_pending c) r = None then queued
                else (case phx_resolve (Inr frame) r c of
                        (Some _, c1) \<Rightarrow> (RecvReply r, c1) | (None, c1) \<Rightarrow> (RecvLate, c1))
            | _ \<Rightarrow> queued))"

definition recv_text :: "(string \<Rightarrow> py_val res) \<Rightarrow> string \<Rightarrow> phx_client \<Rightarrow> recv_result \<times> phx_client" where
  "recv_text json_loads raw c =
     (case json_loads raw of
        Inr (PyList [join_ref, ref, topic, event, payload]) \<Rightarrow>
          route_frame (inbound_frame join_ref ref topic event payload) ref event c
      | _ \<Rightarrow> (RecvSkipped, c))"

definition recv_loop_ended :: "phx_client \<Rightarrow> phx_client" where
  "recv_loop_ended c = c\<lparr>bc_recv_task := False\<rparr>"

text \<open>One turn of \<open>_heartbeat_loop\<close> after its sleep.\<close>

definition phx_heartbeat :: "(py_val \<Rightarrow> string res) \<Rightarrow> ws_send \<Rightarrow> phx_client \<Rightarrow> phx_client" where
  "phx_heartbeat json_dumps send c =
     (if \<not> bc_ws c \<or> bc_closed c then c\<lparr>bc_heartbeat_task := False\<rparr>
      else (case phx_next_ref c of (ref, c1) \<Rightarrow>
              case phx_send json_dumps send [PyNone, PyStr ref, PyStr ''phoenix'', PyStr ''heartbeat'', PyDict []] c1 of
                (Inl _, c2) \<Rightarrow> c2\<lparr>bc_heartbeat_task := False\<rparr>
              | (Inr _, c2) \<Rightarrow> c2))"

text \<open>\<open>_recv_loop\<close> on a sequence of messages; an exception of the body ends the loop.\<close>

fun recv_loop :: "(string \<Rightarrow> py_val res) \<Rightarrow> string list \<Rightarrow> phx_client \<Rightarrow> phx_client" where
  "recv_loop json_loads [] c = c"
| "recv_loop json_loads (raw # raws) c =
     (case recv_text json_loads raw c of
        (RecvDies _, c1) \<Rightarrow> recv_loop_ended c1
      | (_, c1) \<Rightarrow> recv_loop json_loads raws c1)"


section \<open>The invariant\<close>

text \<open>Every reference that has a future was handed out by the counter.\<close>

definition phx_refs :: "phx_client \<Rightarrow> string set" where
  "phx_refs c = fst ` set (bc_pending c) \<union> fst ` set (bc_done c)"

definition phx_inv :: "phx_client \<Rightarrow> bool" where
  [inv_simps]: "phx_inv c \<longleftrightarrow> phx_refs c \<subseteq> show_nat ` {1..bc_ref_counter c} \<and> distinct (map fst (bc_pending c))"

lemma phx_inv_new [simp]: "phx_inv new_phx_client"
  by (simp add: phx_inv_def new_phx_client_def phx_refs_def)

lemma phx_next_ref_props:
  assumes "phx_inv c" "phx_next_ref c = (ref, c')"
  shows "c' = c\<lparr>bc_ref_counter := bc_ref_counter c + 1\<rparr>" "phx_inv c'" "ref \<notin> phx_refs c"
    "ref \<in> show_nat ` {1..bc_ref_counter c'}"
proof -
  show c': "c' = c\<lparr>bc_ref_counter := bc_ref_counter c + 1\<rparr>"
    using assms(2) by (simp add: phx_next_ref_def Let_def)
  have ref: "ref = show_nat (Suc (bc_ref_counter c))" using assms(2) by (simp add: phx_next_ref_def Let_def)
  then show "ref \<in> show_nat ` {1..bc_ref_counter c'}" by (simp add: c')
  show "phx_inv c'" using assms(1) by (force simp: phx_inv_def phx_refs_def c')
  show "ref \<notin> phx_refs c" using assms(1) by (fastforce simp: phx_inv_def ref dest: show_nat_inj)
qed

lemma phx_inv_fields [simp]:
  "phx_inv (c\<lparr>bc_sent := a\<rparr>) = phx_inv c" "phx_inv (c\<lparr>bc_join_refs := b\<rparr>) = phx_inv c"
  "phx_inv (c\<lparr>bc_inbox := d\<rparr>) = phx_inv c" "phx_inv (c\<lparr>bc_recv_task := e\<rparr>) = phx_inv c"
  "phx_inv (c\<lparr>bc_heartbeat_task := f\<rparr>) = phx_inv c" "phx_inv (c\<lparr>bc_closed := g\<rparr>) = phx_inv c"
  "phx_inv (c\<lparr>bc_ws := h\<rparr>) = phx_inv c"
  by (simp_all add: phx_inv_def phx_refs_def)

lemma phx_inv_register:
  "phx_inv c \<Longrightarrow> ref \<in> show_nat ` {1..bc_ref_counter c} \<Longrightarrow> phx_inv (c\<lparr>bc_pending := dset ref () (bc_pending c)\<rparr>)"
  by (simp add: phx_inv_def phx_refs_def)

lemma phx_inv_forget: "phx_inv c \<Longrightarrow> phx_inv (phx_forget ref c)"
  by (auto simp: phx_inv_def phx_refs_def phx_forget_def)

lemma phx_inv_resolve: "phx_inv c \<Longrightarrow> phx_inv (snd (phx_resolve r ref c))"
  by (auto simp: phx_resolve_def phx_waiting_def phx_inv_def phx_refs_def subset_iff
      dest: map_of_SomeD split: option.splits if_splits intro: rev_image_eqI)

text \<open>Opening a future: a fresh reference, registered.\<close>

definition phx_open :: "unit \<Rightarrow> phx_client \<Rightarrow> string \<times> phx_client" where
  "phx_open w c =
     (case phx_next_ref c of (ref, c1) \<Rightarrow> (ref, c1\<lparr>bc_pending := dset ref w (bc_pending c1)\<rparr>))"

lemma phx_open_props:
  assumes "phx_inv c" "phx_open w c = (ref, c')"
  shows "ref \<notin> phx_refs c" "phx_inv c'"
    "c' = c\<lparr>bc_ref_counter := bc_ref_counter c + 1, bc_pending := dset ref () (bc_pending c)\<rparr>"
proof -
  obtain c1 where n: "phx_next_ref c = (ref, c1)" and c': "c' = c1\<lparr>bc_pending := dset ref () (bc_pending c1)\<rparr>"
    using assms(2) by (auto simp: phx_open_def split: prod.splits)
  note p = phx_next_ref_props [OF assms(1) n]
  show "ref \<notin> phx_refs c" by (rule p(3))
  show "phx_inv c'" unfolding c' by (rule phx_inv_register [OF p(2,4)])
  show "c' = c\<lparr>bc_ref_counter := bc_ref_counter c + 1, bc_pending := dset ref () (bc_pending c)\<rparr>"
    by (simp add: c' p(1))
qed

interpretation phx_replies: reply_table phx_waiting phx_open "phx_resolve r" phx_inv for r
proof
  fix c w ref c'
  assume *: "phx_inv c" "phx_open w c = (ref, c')"
  note p = phx_open_props [OF *]
  have "map_of (bc_pending c) ref = None" "map_of (bc_done c) ref = None"
    using p(1) by (simp_all add: phx_refs_def map_of_eq_None_iff)
  with p show "phx_waiting c ref = None \<and> phx_waiting c' = (phx_waiting c)(ref \<mapsto> w) \<and> phx_inv c'"
    by (auto simp: phx_waiting_def fun_eq_iff)
next
  fix c ref x c'
  assume "phx_inv c" "phx_resolve r ref c = (x, c')"
  with phx_inv_resolve [of c r ref]
  show "x = phx_waiting c ref \<and> phx_waiting c' = (phx_waiting c)(ref := None) \<and> phx_inv c'"
    by (auto simp: phx_resolve_def phx_waiting_def fun_eq_iff split: option.splits if_splits)
qed

section \<open>Replies\<close>

text \<open>The frame with which a message answers the future \<open>ref\<close>, if it does.\<close>

definition answers_ref :: "(string \<Rightarrow> py_val res) \<Rightarrow> string \<Rightarrow> string \<Rightarrow> py_kvs option" where
  "answers_ref json_loads ref raw =
     (case json_loads raw of
        Inr (PyList [join_ref, r, topic, event, payload]) \<Rightarrow>
          if event = PyStr ''phx_reply'' \<and> r = PyStr ref
          then Some (inbound_frame join_ref r topic event payload) else None
      | _ \<Rightarrow> None)"

definition kills_loop :: "(string \<Rightarrow> py_val res) \<Rightarrow> string \<Rightarrow> bool" where
  "kills_loop json_loads raw =
     (case json_loads raw of
        Inr (PyList [join_ref, r, topic, event, payload]) \<Rightarrow> event = PyStr ''phx_reply'' \<and> \<not> hashable r
      | _ \<Rightarrow> False)"

lemma route_frame_other:
  "route_frame f r e c = (x, c') \<Longrightarrow> \<not> (e = PyStr ''phx_reply'' \<and> r = PyStr ref) \<Longrightarrow>
   map_of (bc_done c') ref = map_of (bc_done c) ref"
  by (auto simp: route_frame_def phx_resolve_def Let_def split: if_splits py_val.splits option.splits prod.splits)

lemma route_frame_keeps:
  "route_frame f r e c = (x, c') \<Longrightarrow>
   bc_pending c' = bc_pending c \<and> (map_of (bc_done c) ref = Some y \<longrightarrow> map_of (bc_done c') ref = Some y)"
  by (auto simp: route_frame_def phx_resolve_def phx_waiting_def Let_def
      split: if_splits py_val.splits option.splits prod.splits)

lemmas json5_splits = sum.splits py_val.splits list.splits

lemma recv_text_keeps:
  "recv_text loads raw c = (x, c') \<Longrightarrow>
   bc_pending c' = bc_pending c \<and> (map_of (bc_done c) ref = Some y \<longrightarrow> map_of (bc_done c') ref = Some y)"
  by (auto simp: recv_text_def split: json5_splits dest: route_frame_keeps)

lemma recv_text_other:
  "recv_text loads raw c = (x, c') \<Longrightarrow> answers_ref loads ref raw = None \<Longrightarrow>
   map_of (bc_done c') ref = map_of (bc_done c) ref"
  by (auto simp: recv_text_def answers_ref_def split: json5_splits if_splits dest: route_frame_other [where ref = ref])

lemma recv_text_answer:
  assumes "answers_ref loads ref raw = Some f" "map_of (bc_pending c) ref = Some ()" "map_of (bc_done c) ref = None"
  shows "\<exists>c'. recv_text loads raw c = (RecvReply ref, c') \<and> map_of (bc_done c') ref = Some (Inr f)"
  using assms
  by (auto simp: recv_text_def answers_ref_def route_frame_def phx_resolve_def phx_waiting_def Let_def
      split: json5_splits if_splits)

lemma recv_text_dies_iff: "(\<exists>e c'. recv_text loads raw c = (RecvDies e, c')) \<longleftrightarrow> kills_loop loads raw"
  by (auto simp: recv_text_def kills_loop_def route_frame_def Let_def split: json5_splits if_splits option.splits prod.splits)

lemma recv_loop_append:
  "\<forall>raw\<in>set pre. \<not> kills_loop loads raw \<Longrightarrow> recv_loop loads (pre @ post) c = recv_loop loads post (recv_loop loads pre c)"
proof (induction pre arbitrary: c)
  case (Cons raw pre)
  obtain x c1 where r: "recv_text loads raw c = (x, c1)" by fastforce
  with Cons.prems recv_text_dies_iff [of loads raw c] have "\<nexists>e. x = RecvDies e" by auto
  with r Cons show ?case by (cases x) auto
qed simp

lemma recv_loop_keeps:
  "bc_pending (recv_loop loads raws c) = bc_pending c \<and>
   (map_of (bc_done c) ref = Some y \<longrightarrow> map_of (bc_done (recv_loop loads raws c)) ref = Some y)"
proof (induction raws arbitrary: c)
  case (Cons raw raws)
  obtain x c1 where r: "recv_text loads raw c = (x, c1)" by fastforce
  from recv_text_keeps [OF this, of ref y] r Cons [of c1] show ?case
    by (cases x) (auto simp: recv_loop_ended_def)
qed simp

lemma recv_loop_other:
  "\<forall>raw\<in>set raws. answers_ref loads ref raw = None \<Longrightarrow>
   map_of (bc_done (recv_loop loads raws c)) ref = map_of (bc_done c) ref"
proof (induction raws arbitrary: c)
  case (Cons raw raws)
  obtain x c1 where r: "recv_text loads raw c = (x, c1)" by fastforce
  from recv_text_other [OF this, of ref] r Cons.prems Cons.IH [of c1] show ?case
    by (cases x) (auto simp: recv_loop_ended_def)
qed simp

lemma push_and_await_start_ok:
  "push_and_await_start dumps send j ref topic event payload c = (Inr r, c') \<Longrightarrow>
   r = ref \<and> (\<exists>t. c' = c\<lparr>bc_pending := dset ref () (bc_pending c), bc_sent := t\<rparr>)"
  by (auto simp: push_and_await_start_def phx_send_def Let_def split: prod.splits sum.splits option.splits)

lemma phx_push_start_waits:
  assumes "phx_inv c" "phx_push_start dumps send topic event payload c = (Inr ref, c')"
  shows "ref \<notin> phx_refs c \<and> map_of (bc_pending c') ref = Some () \<and> map_of (bc_done c') ref = None \<and> phx_inv c'"
proof -
  obtain j c1 where n: "phx_next_ref c = (ref, c1)"
    and p: "push_and_await_start dumps send j ref topic event payload c1 = (Inr ref, c')"
    using assms(2)
    by (auto simp: phx_push_start_def split: if_splits option.splits prod.splits dest: push_and_await_start_ok)
  obtain t where c': "c' = c1\<lparr>bc_pending := dset ref () (bc_pending c1), bc_sent := t\<rparr>"
    using push_and_await_start_ok [OF p] by blast
  note np = phx_next_ref_props [OF assms(1) n]
  from phx_inv_register [OF np(2,4)] np show ?thesis
    by (auto simp: c' phx_refs_def map_of_eq_None_iff)
qed

lemma phx_resolve_done:
  "bc_pending (snd (phx_resolve r k c)) = bc_pending c"
  "map_of (bc_done (snd (phx_resolve r k c))) = (if phx_waiting c k = None then map_of (bc_done c) else (map_of (bc_done c))(k \<mapsto> r))"
  by (auto simp: phx_resolve_def split: option.splits)

lemma fold_resolve:
  "bc_pending (fold (\<lambda>k c. snd (phx_resolve r k c)) ks c) = bc_pending c \<and>
   map_of (bc_done (fold (\<lambda>k c. snd (phx_resolve r k c)) ks c)) k =
     (if k \<in> set ks \<and> phx_waiting c k \<noteq> None then Some r else map_of (bc_done c) k)"
proof (induction ks arbitrary: c)
  case (Cons j ks)
  from Cons.IH [of "snd (phx_resolve r j c)"] show ?case
    by (auto simp: phx_resolve_done phx_waiting_def split: if_splits)
qed simp

lemma phx_close_done:
  assumes "map_of (bc_pending c) ref = Some ()"
  shows "map_of (bc_done (phx_close c)) ref =
    (case map_of (bc_done c) ref of None \<Rightarrow> Some (Inl (Exc ''RuntimeError'' ''phx_client closed'')) | Some r \<Rightarrow> Some r)"
proof -
  have "ref \<in> fst ` set (bc_pending c)" using assms by (force dest: map_of_SomeD)
  with assms show ?thesis
    by (auto simp: phx_close_def Let_def fold_resolve phx_waiting_def split: option.splits)
qed

lemma phx_close_flags: "bc_pending (phx_close c) = []" "bc_closed (phx_close c)" "\<not> bc_ws (phx_close c)"
proof -
  have "bc_closed (fold (\<lambda>k c. snd (phx_resolve r k c)) ks c) = bc_closed c \<and>
    bc_ws (fold (\<lambda>k c. snd (phx_resolve r k c)) ks c) = bc_ws c" for r ks and c :: phx_client
    by (induction ks arbitrary: c) (auto simp: phx_resolve_def split: option.splits)
  then show "bc_pending (phx_close c) = []" "bc_closed (phx_close c)" "\<not> bc_ws (phx_close c)"
    by (simp_all add: phx_close_def Let_def)
qed

lemma phx_inv_close: "phx_inv c \<Longrightarrow> phx_inv (phx_close c)"
proof -
  assume "phx_inv c"
  moreover have "phx_inv c \<Longrightarrow> phx_inv (fold (\<lambda>k c. snd (phx_resolve r k c)) ks c)" for r ks and c :: phx_client
    by (induction ks arbitrary: c) (auto simp: phx_inv_resolve)
  moreover have "phx_inv c \<Longrightarrow> phx_inv (c\<lparr>bc_pending := []\<rparr>)" for c :: phx_client
    by (simp add: phx_inv_def phx_refs_def)
  ultimately show ?thesis by (simp add: phx_close_def Let_def)
qed


section \<open>Reachable states\<close>

text \<open>The interleaving of the client's coroutines: any segment that can run may run next.\<close>

inductive phx_step :: "phx_client \<Rightarrow> phx_client \<Rightarrow> bool" where
  step_connect: "phx_connect wc c = (r, sl, c') \<Longrightarrow> phx_step c c'"
| step_join: "phx_join_start dumps send topic payload c = (r, c') \<Longrightarrow> phx_step c c'"
| step_push: "phx_push_start dumps send topic event payload c = (r, c') \<Longrightarrow> phx_step c c'"
| step_finish: "push_and_await_finish ref c = Some (r, c') \<Longrightarrow> phx_step c c'"
| step_cancel: "phx_step c (phx_forget ref c)"
| step_recv: "bc_recv_task c \<Longrightarrow> recv_text loads raw c = (r, c') \<Longrightarrow> phx_step c c'"
| step_recv_end: "phx_step c (recv_loop_ended c)"
| step_receive: "phx_receive c = (r, c') \<Longrightarrow> phx_step c c'"
| step_heartbeat: "bc_heartbeat_task c \<Longrightarrow> phx_step c (phx_heartbeat dumps send c)"
| step_close: "phx_step c (phx_close c)"

lemma phx_send_sent: "phx_send dumps send f c = (r, c') \<Longrightarrow> \<exists>t. c' = c\<lparr>bc_sent := t\<rparr>"
  by (auto simp: phx_send_def split: sum.splits option.splits intro: exI [of _ "bc_sent c"])

lemma push_and_await_start_inv:
  assumes "phx_inv c" "ref \<in> show_nat ` {1..bc_ref_counter c}"
  shows "phx_inv (snd (push_and_await_start dumps send j ref topic event payload c))"
proof -
  let ?c = "c\<lparr>bc_pending := dset ref () (bc_pending c)\<rparr>"
  obtain r c2 where s: "phx_send dumps send [PyStr j, PyStr ref, PyStr topic, PyStr event, payload] ?c = (r, c2)"
    by fastforce
  with phx_send_sent [OF this] phx_inv_register [OF assms] have "phx_inv c2" by auto
  with s show ?thesis by (cases r) (simp_all add: push_and_await_start_def Let_def phx_inv_forget)
qed

lemma phx_connect_inv: "phx_inv c \<Longrightarrow> phx_inv (snd (snd (connect_loop wc n bs e c)))"
  by (induction bs arbitrary: n e) (auto simp: prod.case_eq_if split: option.splits)

lemma phx_start_inv:
  assumes "phx_inv c"
  shows "phx_inv (snd (phx_join_start dumps send topic payload c))"
    and "phx_inv (snd (phx_push_start dumps send topic event payload c))"
proof -
  obtain ref c1 where n: "phx_next_ref c = (ref, c1)" by fastforce
  note p = phx_next_ref_props [OF assms n]
  show "phx_inv (snd (phx_push_start dumps send topic event payload c))"
    using n p assms by (auto simp: phx_push_start_def push_and_await_start_inv split: option.splits)
  show "phx_inv (snd (phx_join_start dumps send topic payload c))"
    using n p assms by (auto simp: phx_join_start_def push_and_await_start_inv)
qed

lemma route_frame_inv: "phx_inv c \<Longrightarrow> phx_inv (snd (route_frame f r e c))"
proof -
  assume "phx_inv c"
  moreover from this have "phx_resolve y k c = (x, c') \<Longrightarrow> phx_inv c'" for y k x c'
    using phx_inv_resolve [of c y k] by simp
  ultimately show ?thesis
    by (auto simp: route_frame_def Let_def split: py_val.splits option.splits prod.splits)
qed

lemma recv_text_inv: "phx_inv c \<Longrightarrow> phx_inv (snd (recv_text loads raw c))"
  by (simp add: recv_text_def route_frame_inv split: json5_splits)

lemma phx_heartbeat_inv:
  assumes "phx_inv c"
  shows "phx_inv (phx_heartbeat dumps send c)"
proof -
  obtain ref c1 where n: "phx_next_ref c = (ref, c1)" by fastforce
  let ?f = "[PyNone, PyStr ref, PyStr ''phoenix'', PyStr ''heartbeat'', PyDict []]"
  obtain r c2 where s: "phx_send dumps send ?f c1 = (r, c2)" by fastforce
  have "phx_inv c2" using phx_send_sent [OF s] phx_next_ref_props(2) [OF assms n] by auto
  with n s assms show ?thesis by (cases r) (simp_all add: phx_heartbeat_def)
qed

lemma phx_step_inv: "phx_step c c' \<Longrightarrow> phx_inv c \<Longrightarrow> phx_inv c'"
proof (induction rule: phx_step.induct)
  case (step_connect wc c r sl c')
  then show ?case using phx_connect_inv [of c wc 0 RECONNECT_BACKOFF_SECS None] by (simp add: phx_connect_def)
next
  case (step_join dumps send topic payload c r c')
  then show ?case using phx_start_inv(1) by (metis snd_conv)
next
  case (step_push dumps send topic event payload c r c')
  then show ?case using phx_start_inv(2) by (metis snd_conv)
next
  case (step_recv c loads raw r c')
  then show ?case using recv_text_inv by (metis snd_conv)
qed (auto simp: push_and_await_finish_def phx_inv_forget recv_loop_ended_def phx_receive_def phx_heartbeat_inv phx_inv_close
    split: if_splits list.splits)

lemma phx_reachable_inv: "phx_step\<^sup>*\<^sup>* new_phx_client c \<Longrightarrow> phx_inv c"
  by (induction rule: rtranclp_induct) (auto intro: phx_step_inv)

text \<open>
  A reply whose reference nobody waits for, such as the reply to a heartbeat, is queued for
  \<open>receive()\<close>. And only \<open>close()\<close> ends \<open>receive()\<close>: when the socket is lost, it goes on waiting.
\<close>

lemma unclaimed_reply_queued:
  "loads raw = Inr (PyList [j, PyStr r, t, PyStr ''phx_reply'', p]) \<Longrightarrow> map_of (bc_pending c) r = None \<Longrightarrow>
   fst (recv_text loads raw c) = RecvQueued (inbound_frame j (PyStr r) t (PyStr ''phx_reply'') p)"
  by (simp add: recv_text_def route_frame_def Let_def)

lemma receive_waits_after_socket_loss:
  "\<not> bc_closed c \<Longrightarrow> bc_inbox c = [] \<Longrightarrow> phx_receive (recv_loop_ended c) = (ReceiveWaits, recv_loop_ended c)"
  by (simp add: phx_receive_def recv_loop_ended_def)

lemma connect_loop_fails:
  "(\<And>n. wc n \<noteq> None) \<Longrightarrow> connect_loop wc k bs e c =
     ((case bs of [] \<Rightarrow> (case e of Some x \<Rightarrow> Inl x | None \<Rightarrow> Inl (Exc ''AssertionError'' [])) 
       | _ \<Rightarrow> Inl (the (wc (k + length bs - 1)))), bs, c)"
proof (induction bs arbitrary: k e)
  case (Cons b bs)
  from Cons.prems [of k] obtain x where x: "wc k = Some x" by blast
  with Cons show ?case by (cases bs) simp_all
qed simp

text \<open>Three failed attempts: the last exception is raised, after one, two and four seconds of sleep.\<close>

lemma phx_connect_fails:
  "(\<And>n. wc n \<noteq> None) \<Longrightarrow> phx_connect wc c = (Inl (the (wc 2)), [1, 2, 4], c)"
  by (simp add: phx_connect_def RECONNECT_BACKOFF_SECS_def connect_loop_fails numeral_2_eq_2 del: connect_loop.simps)


section \<open>Properties\<close>

text \<open>
  A push of the bridge is completed by its own reply: in every reachable state, after \<open>push\<close> has sent
  its frame under \<open>ref\<close>, it stays suspended through any messages that do not answer \<open>ref\<close>; the first
  message that does completes it with that frame, whatever follows, and its table entry is gone.
\<close>

theorem bridge_push_gets_own_reply:
  assumes "phx_step\<^sup>*\<^sup>* new_phx_client c"
    "phx_push_start dumps send topic event payload c = (Inr ref, c1)"
    "\<forall>raw\<in>set pre. answers_ref loads ref raw = None \<and> \<not> kills_loop loads raw"
    "answers_ref loads ref raw = Some f"
  shows "push_and_await_finish ref (recv_loop loads pre c1) = None \<and>
    (\<exists>c2. push_and_await_finish ref (recv_loop loads (pre @ raw # post) c1) = Some (Inr f, c2) \<and>
       map_of (bc_pending c2) ref = None)"
proof -
  note w = phx_push_start_waits [OF phx_reachable_inv [OF assms(1)] assms(2)]
  let ?d = "recv_loop loads pre c1"
  have d: "map_of (bc_pending ?d) ref = Some ()" "map_of (bc_done ?d) ref = None"
    using w recv_loop_keeps [of loads pre c1] recv_loop_other [of pre loads ref c1] assms(3) by auto
  obtain c' where c': "recv_text loads raw ?d = (RecvReply ref, c')" "map_of (bc_done c') ref = Some (Inr f)"
    using recv_text_answer [OF assms(4) d] by blast
  have "recv_loop loads (pre @ raw # post) c1 = recv_loop loads post c'"
    using assms(3) c'(1) by (simp add: recv_loop_append)
  moreover have "map_of (bc_done (recv_loop loads post c')) ref = Some (Inr f)"
    using recv_loop_keeps [of loads post c' ref "Inr f"] c'(2) by blast
  ultimately show ?thesis
    using d by (simp add: push_and_await_finish_def phx_forget_def map_of_ddel)
qed

definition demo_bridge :: phx_client where
  "demo_bridge = new_phx_client\<lparr>bc_ws := True, bc_recv_task := True, bc_heartbeat_task := True,
     bc_ref_counter := 1, bc_join_refs := [(''t'', ''1'')], bc_pending := [(''1'', ())], bc_sent := [''m'']\<rparr>"

definition demo_loads :: "string \<Rightarrow> py_val res" where
  "demo_loads raw = Inr (PyList [PyStr ''1'', PyStr raw, PyStr ''t'', PyStr ''phx_reply'', PyDict []])"

lemma demo_refs: "show_nat (Suc 0) = ''1''" "show_nat (Suc (Suc 0)) = ''2''"
  by code_simp+

lemma demo_bridge_reachable: "phx_step\<^sup>*\<^sup>* new_phx_client demo_bridge"
proof -
  define c where "c = new_phx_client\<lparr>bc_ws := True, bc_recv_task := True, bc_heartbeat_task := True\<rparr>"
  have "phx_connect (\<lambda>_. None) new_phx_client = (Inr (), [], c)"
    by (simp add: phx_connect_def RECONNECT_BACKOFF_SECS_def c_def)
  then have 1: "phx_step new_phx_client c" by (rule step_connect)
  have "phx_join_start (\<lambda>_. Inr ''m'') (\<lambda>_. None) ''t'' PyNone c = (Inr ''1'', demo_bridge)"
    by (simp add: phx_join_start_def c_def phx_next_ref_def push_and_await_start_def phx_send_def demo_bridge_def
        new_phx_client_def demo_refs Let_def)
  then have "phx_step c demo_bridge" by (rule step_join)
  with 1 show ?thesis by simp
qed

theorem bridge_push_gets_own_reply_witness:
  "\<exists>c1 c2. phx_push_start (\<lambda>_. Inr ''m'') (\<lambda>_. None) ''t'' ''e'' PyNone demo_bridge = (Inr ''2'', c1) \<and>
     push_and_await_finish ''2'' (recv_loop demo_loads [''1''] c1) = None \<and>
     push_and_await_finish ''2'' (recv_loop demo_loads [''1'', ''2'', ''2''] c1) =
       Some (Inr (inbound_frame (PyStr ''1'') (PyStr ''2'') (PyStr ''t'') (PyStr ''phx_reply'') (PyDict [])), c2)"
proof -
  obtain c1 where p: "phx_push_start (\<lambda>_. Inr ''m'') (\<lambda>_. None) ''t'' ''e'' PyNone demo_bridge = (Inr ''2'', c1)"
    by (simp add: phx_push_start_def demo_bridge_def phx_next_ref_def push_and_await_start_def phx_send_def
        demo_refs Let_def)
  have "\<forall>raw\<in>set [''1'']. answers_ref demo_loads ''2'' raw = None \<and> \<not> kills_loop demo_loads raw"
    "answers_ref demo_loads ''2'' ''2'' =
       Some (inbound_frame (PyStr ''1'') (PyStr ''2'') (PyStr ''t'') (PyStr ''phx_reply'') (PyDict []))"
    by (simp_all add: answers_ref_def kills_loop_def demo_loads_def)
  from bridge_push_gets_own_reply [OF demo_bridge_reachable p this, of "[''2'']"] p show ?thesis by auto
qed

text \<open>
  Closing the bridge's client releases every coroutine that waits for a reply: a future still in the
  table when \<open>close\<close> runs ends with the reply it already had, or else with \<open>RuntimeError\<close>; the table is
  then empty and no later push can start waiting.
\<close>

theorem bridge_close_releases:
  assumes "phx_step\<^sup>*\<^sup>* new_phx_client c" "map_of (bc_pending c) ref = Some ()"
  shows "\<exists>r c'. push_and_await_finish ref (phx_close c) = Some (r, c') \<and>
      r = (case map_of (bc_done c) ref of
             None \<Rightarrow> Inl (Exc ''RuntimeError'' ''phx_client closed'') | Some reply \<Rightarrow> reply) \<and>
      phx_inv (phx_close c) \<and> bc_pending (phx_close c) = [] \<and>
      \<not> is_ok (fst (phx_push_start dumps send topic event payload (phx_close c)))"
  using phx_close_done [OF assms(2)] phx_inv_close [OF phx_reachable_inv [OF assms(1)]] phx_close_flags [of c]
  by (auto simp: push_and_await_finish_def phx_push_start_def split: option.splits)

theorem bridge_close_releases_witness:
  "\<exists>c'. push_and_await_finish ''1'' (phx_close demo_bridge) =
     Some (Inl (Exc ''RuntimeError'' ''phx_client closed''), c')"
  using bridge_close_releases [OF demo_bridge_reachable, of "''1''"] by (simp add: demo_bridge_def new_phx_client_def)

end
