(* ===== verification/Cc_Bridge.thy ===== *)
theory Cc_Bridge
  imports Phx_Client
begin

text \<open>
  \<^verbatim>\<open>py/src/cc_channel_runner\<close>: the bridge between Claude Code's MCP stdio pipe and the runtime's channel.
  \<^verbatim>\<open>notification.py\<close> (the params of a channel notification), \<^verbatim>\<open>mcp_server.py\<close> (the tools, their pending
  calls, the notifications written), \<^verbatim>\<open>phx_receive.py\<close> (the dispatch of inbound frames) and the end of
  \<^verbatim>\<open>__main__.py\<close>.

  A pending tool call is its request id; \<open>br_done\<close> holds the results its future was given. The MCP SDK is
  represented by the messages written to its stream; the uuid, \<open>json.dumps\<close> and whether the wait timed
  out are arguments.
\<close>

section \<open>Notification params\<close>

definition META_FIELDS :: "string list" where
  "META_FIELDS = [''chat_id'', ''app_id'', ''message_id'', ''user'', ''ts'', ''thread_id'', ''runtime_mode'',
     ''source'', ''user_id'', ''workspace'']"

definition ATTACHMENT_KINDS :: "string list" where
  "ATTACHMENT_KINDS = [''image'', ''file'', ''audio'']"

definition blank :: "py_val \<Rightarrow> bool" where
  "blank v = (v = PyNone \<or> v = PyStr [])"

definition meta_value :: "py_kvs \<Rightarrow> string \<Rightarrow> py_val" where
  "meta_value payload key =
     (let v = dget_or key PyNone payload in
      if key = ''runtime_mode'' \<and> blank v then PyStr ''discussion''
      else if key = ''source'' \<and> blank v then PyStr ''feishu''
      else v)"

definition take_meta :: "py_kvs \<Rightarrow> py_kvs" where
  "take_meta payload =
     foldl (\<lambda>out key.
       let v = meta_value payload key in
       if blank v then out else dset (PyStr key) (PyStr (py_str v)) out) [] META_FIELDS"

definition build_text_params :: "py_kvs \<Rightarrow> py_kvs" where
  "build_text_params payload =
     mkdict [(''content'', py_or (dget_or ''content'' PyNone payload) (PyStr [])),
             (''meta'', PyDict (take_meta payload))]"

definition build_attachment_params :: "py_kvs \<Rightarrow> string \<Rightarrow> string \<Rightarrow> py_kvs" where
  "build_attachment_params payload kind uri =
     (let meta = dset (PyStr ''media_uri'') (PyStr uri) (dset (PyStr ''kind'') (PyStr kind) (take_meta payload))
      in mkdict [(''content'', PyStr (''['' @ kind @ '' attachment]'')), (''meta'', PyDict meta)])"

text \<open>\<open>isinstance(v, str)\<close>.\<close>

definition as_str :: "py_val \<Rightarrow> string option" where
  "as_str v = (case v of PyStr s \<Rightarrow> Some s | _ \<Rightarrow> None)"

definition build_notification_params :: "py_kvs \<Rightarrow> py_kvs" where
  "build_notification_params payload =
     (case (as_str (dget_or ''msg_type'' PyNone payload), as_str (dget_or ''media_uri'' PyNone payload)) of
        (Some msg_type, Some media_uri) \<Rightarrow>
          if msg_type \<in> set ATTACHMENT_KINDS \<and> media_uri \<noteq> []
          then build_attachment_params payload msg_type media_uri
          else build_text_params payload
      | _ \<Rightarrow> build_text_params payload)"


section \<open>The MCP server\<close>

record bridge =
  br_client_set :: bool
  br_session_id :: "string option"
  br_topic :: "string option"
  br_write_stream :: bool
  br_pending :: "(string \<times> unit) list"
  br_done :: "(string \<times> py_kvs) list"
  br_written :: "py_kvs list"

definition new_bridge :: bridge where
  "new_bridge = \<lparr>br_client_set = False, br_session_id = None, br_topic = None, br_write_stream = False,
     br_pending = [], br_done = [], br_written = []\<rparr>"

definition set_phx_client :: "bridge \<Rightarrow> bridge" where
  "set_phx_client b = b\<lparr>br_client_set := True\<rparr>"

definition set_session_id :: "string \<Rightarrow> bridge \<Rightarrow> bridge" where
  "set_session_id sid b = b\<lparr>br_session_id := Some sid, br_topic := Some (''cli:channel/'' @ sid)\<rparr>"

definition send_channel_notification :: "py_kvs \<Rightarrow> bridge \<Rightarrow> bridge" where
  "send_channel_notification params b =
     (if \<not> br_write_stream b then b
      else b\<lparr>br_written := br_written b @ [mkdict [(''jsonrpc'', PyStr ''2.0''),
               (''method'', PyStr ''notifications/claude/channel''), (''params'', PyDict params)]]\<rparr>)"

text \<open>\<open>start\<close>: the write stream is there from the opening of stdio until the SDK's loop ends.\<close>

definition mcp_start :: "bridge \<Rightarrow> bridge" where
  "mcp_start b = b\<lparr>br_write_stream := True\<rparr>"

definition mcp_stop :: "bridge \<Rightarrow> bridge" where
  "mcp_stop b = b\<lparr>br_write_stream := False\<rparr>"

text \<open>The tools and their schemas: the properties by name and the required ones.\<close>

record tool_schema =
  ts_name :: string
  ts_properties :: "(string \<times> string) list"
  ts_required :: "string list"

definition TOOL_SCHEMAS :: "tool_schema list" where
  "TOOL_SCHEMAS =
     [\<lparr>ts_name = ''reply'',
       ts_properties = [(''chat_id'', ''string''), (''text'', ''string''), (''current_session_id'', ''string'')],
       ts_required = [''chat_id'', ''text'']\<rparr>,
      \<lparr>ts_name = ''send_file'',
       ts_properties = [(''chat_id'', ''string''), (''file_path'', ''string''), (''current_session_id'', ''string'')],
       ts_required = [''chat_id'', ''file_path'']\<rparr>,
      \<lparr>ts_name = ''submit_slash'',
       ts_properties = [(''command'', ''string''), (''chat_id'', ''string''), (''current_session_id'', ''string'')],
       ts_required = [''command'']\<rparr>]"

text \<open>The text of the one content item of a result.\<close>

definition tool_result_to_content :: "(py_val \<Rightarrow> string res) \<Rightarrow> py_kvs \<Rightarrow> string res" where
  "tool_result_to_content json_dumps envelope =
     json_dumps
       (if dget ''ok'' envelope = Some (PyBool True) then dget_or ''data'' PyNone envelope
        else if dget ''ok'' envelope = Some (PyBool False)
          then PyDict (mkdict [(''ok'', PyBool False), (''error'', dget_or ''error'' PyNone envelope)])
        else PyDict envelope)"

definition err_content :: "(py_val \<Rightarrow> string res) \<Rightarrow> string \<Rightarrow> py_val \<Rightarrow> string res" where
  "err_content json_dumps code detail =
     json_dumps (PyDict (mkdict [(''ok'', PyBool False),
       (''error'', PyDict (mkdict ((''type'', PyStr code) #
          (if detail = PyNone then [] else [(''detail'', detail)]))))]))"

definition forget_call :: "string \<Rightarrow> bridge \<Rightarrow> bridge" where
  "forget_call req_id b = b\<lparr>br_pending := ddel req_id (br_pending b)\<rparr>"

text \<open>
  \<open>_dispatch_tool\<close> in three segments: up to the push, from its acknowledgement to the wait, and the end
  of the wait. A call is over with its content or its exception, or it waits for the reply to the push
  under \<open>ref\<close>, or for its result.
\<close>

datatype tool_turn = CallOver "string res" | AwaitsPush string | AwaitsResult

definition dispatch_tool_start ::
  "(py_val \<Rightarrow> string res) \<Rightarrow> ws_send \<Rightarrow> string \<Rightarrow> string \<Rightarrow> py_val \<Rightarrow> bridge \<Rightarrow> phx_client \<Rightarrow>
   tool_turn \<times> bridge \<times> phx_client"
where
  "dispatch_tool_start json_dumps send req_id tool arguments b c =
     (case (br_client_set b, br_topic b) of
        (True, Some topic) \<Rightarrow>
          (let b1 = b\<lparr>br_pending := dset req_id () (br_pending b)\<rparr>;
               envelope = mkdict [(''kind'', PyStr ''tool_invoke''), (''req_id'', PyStr req_id), (''tool'', PyStr tool),
                 (''args'', arguments)]
           in case phx_push_start json_dumps send topic ''envelope'' (PyDict envelope) c of
                (Inl e, c1) \<Rightarrow> (CallOver (Inl e), forget_call req_id b1, c1)
              | (Inr ref, c1) \<Rightarrow> (AwaitsPush ref, b1, c1))
      | _ \<Rightarrow> (CallOver (err_content json_dumps ''phx_client_not_configured'' PyNone), b, c))"

definition dispatch_tool_pushed ::
  "(py_val \<Rightarrow> string res) \<Rightarrow> string \<Rightarrow> py_kvs res \<Rightarrow> bridge \<Rightarrow> tool_turn \<times> bridge"
where
  "dispatch_tool_pushed json_dumps req_id reply b =
     (case rbind reply (\<lambda>r. rbind (py_get (phx_push_finish r) ''status'' PyNone) (\<lambda>status.
             rbind (py_get (phx_push_finish r) ''response'' PyNone) (\<lambda>response. Inr (status, response)))) of
        Inl e \<Rightarrow> (CallOver (Inl e), forget_call req_id b)
      | Inr (status, response) \<Rightarrow>
          if status = PyStr ''error''
          then (CallOver (err_content json_dumps ''phx_push_error'' response), forget_call req_id b)
          else (AwaitsResult, b))"

definition dispatch_tool_finish ::
  "(py_val \<Rightarrow> string res) \<Rightarrow> string \<Rightarrow> string \<Rightarrow> bool \<Rightarrow> bridge \<Rightarrow> tool_turn \<times> bridge"
where
  "dispatch_tool_finish json_dumps req_id tool timed_out b =
     (case map_of (br_done b) req_id of
        Some result \<Rightarrow> (CallOver (tool_result_to_content json_dumps result), forget_call req_id b)
      | None \<Rightarrow>
          if timed_out
          then (CallOver (err_content json_dumps ''tool_result_timeout''
                  (PyDict (mkdict [(''tool'', PyStr tool), (''timeout_secs'', PyFloat ''30.0'')]))),
                forget_call req_id b)
          else (AwaitsResult, b))"

text \<open>\<open>_call_tool\<close>: the three tools forward to \<open>_dispatch_tool\<close>, any other name is answered at once.\<close>

definition dquote :: string where
  "dquote = [char_of (34 :: nat)]"

definition call_tool_start ::
  "(py_val \<Rightarrow> string res) \<Rightarrow> ws_send \<Rightarrow> string \<Rightarrow> string \<Rightarrow> py_val \<Rightarrow> bridge \<Rightarrow> phx_client \<Rightarrow>
   tool_turn \<times> bridge \<times> phx_client"
where
  "call_tool_start json_dumps send req_id name arguments b c =
     (if name = ''reply'' then dispatch_tool_start json_dumps send req_id ''reply'' arguments b c
      else if name = ''send_file'' then dispatch_tool_start json_dumps send req_id ''send_file'' arguments b c
      else if name = ''submit_slash'' then dispatch_tool_start json_dumps send req_id ''submit_slash'' arguments b c
      else (CallOver (Inr (''{'' @ dquote @ ''ok'' @ dquote @ '': false, '' @ dquote @ ''error'' @ dquote @ '': '' @
              dquote @ ''unknown_tool: '' @ name @ dquote @ ''}'')), b, c))"


section \<open>Inbound frames\<close>

definition BridgeShutdown :: "string \<Rightarrow> py_exc" where
  "BridgeShutdown m = Exc ''BridgeShutdown'' m"

definition resolve_pending_tool_call :: "py_kvs \<Rightarrow> bridge \<Rightarrow> bridge" where
  "resolve_pending_tool_call payload b =
     (case dget_or ''req_id'' PyNone payload of
        PyStr req_id \<Rightarrow>
          (case map_of (br_pending b) req_id of
             None \<Rightarrow> b
           | Some _ \<Rightarrow>
               let b1 = forget_call req_id b in
               if map_of (br_done b1) req_id \<noteq> None then b1
               else b1\<lparr>br_done := dset req_id payload (br_done b1)\<rparr>)
      | _ \<Rightarrow> b)"

definition dispatch_envelope :: "py_val \<Rightarrow> bridge \<Rightarrow> unit res \<times> bridge" where
  "dispatch_envelope payload b =
     (case payload of
        PyDict kvs \<Rightarrow>
          (let kind = dget_or ''kind'' PyNone kvs in
           if kind = PyStr ''tool_result'' then (Inr (), resolve_pending_tool_call kvs b)
           else if kind = PyStr ''session_killed'' then (Inl (BridgeShutdown ''session_killed''), b)
           else if kind = PyStr ''cleanup_check_requested''
             then (Inr (), send_channel_notification (build_notification_params kvs) b)
           else if kind = PyStr ''notification'' \<or> kind = PyNone
             then (Inr (), send_channel_notification (build_notification_params kvs) b)
           else (Inr (), b))
      | _ \<Rightarrow> (Inl (attr_error payload ''get''), b))"

text \<open>The body of \<open>phx_receive_loop\<close> for one frame, and the loop over the frames \<open>receive()\<close> yields.\<close>

definition receive_frame :: "py_kvs \<Rightarrow> bridge \<Rightarrow> unit res \<times> bridge" where
  "receive_frame frame b =
     (let event = dget_or ''event'' PyNone frame;
          payload = py_or (dget_or ''payload'' PyNone frame) (PyDict [])
      in if event = PyStr ''envelope'' then dispatch_envelope payload b
         else if event = PyStr ''phx_close'' \<or> event = PyStr ''phx_error''
           then (Inl (BridgeShutdown (''phx channel '' @ py_str event)), b)
         else (Inr (), b))"

fun phx_receive_loop :: "py_kvs list \<Rightarrow> bridge \<Rightarrow> py_exc option \<times> bridge" where
  "phx_receive_loop [] b = (None, b)"
| "phx_receive_loop (frame # frames) b =
     (case receive_frame frame b of
        (Inl e, b1) \<Rightarrow> (Some e, b1)
      | (Inr _, b1) \<Rightarrow> phx_receive_loop frames b1)"


section \<open>The process\<close>

datatype task_end = TaskRuns | TaskReturned | TaskRaised py_exc

definition graceful :: "task_end \<Rightarrow> bool" where
  "graceful t = (case t of TaskRaised e \<Rightarrow> exc_type e = ''BridgeShutdown'' \<or> exc_type e = ''SystemExit'' | _ \<Rightarrow> True)"

text \<open>
  \<open>main\<close> after its two tasks were started: \<^const>\<open>None\<close> while both run; once one is done the other is
  cancelled, and the exception of a done task is raised unless it is the shutdown signal. Either way the
  client is closed.
\<close>

definition bridge_main_end :: "task_end \<Rightarrow> task_end \<Rightarrow> phx_client \<Rightarrow> (unit res \<times> phx_client) option" where
  "bridge_main_end mcp_task ws_task c =
     (if mcp_task = TaskRuns \<and> ws_task = TaskRuns then None
      else Some (case [e. TaskRaised e \<leftarrow> filter (\<lambda>t. \<not> graceful t) [mcp_task, ws_task]] of
                   [] \<Rightarrow> (Inr (), phx_close c)
                 | e # _ \<Rightarrow> (Inl e, phx_close c)))"

definition bridge_setup :: "string \<Rightarrow> bridge" where
  "bridge_setup session_id = set_session_id session_id (set_phx_client new_bridge)"

section \<open>Lemmas\<close>

lemma dget_foldl_meta:
  "dget k (foldl (\<lambda>out key. if P key then out else dset (PyStr key) (f key) out) out ks) =
     (if k \<in> set ks \<and> \<not> P k then Some (f k) else dget k out)"
  by (induction ks arbitrary: out) auto

lemma dget_take_meta:
  "dget k (take_meta payload) =
     (if k \<in> set META_FIELDS \<and> \<not> blank (meta_value payload k)
      then Some (PyStr (py_str (meta_value payload k))) else None)"
  by (simp add: take_meta_def Let_def dget_foldl_meta)

definition is_attachment :: "py_kvs \<Rightarrow> bool" where
  "is_attachment payload \<longleftrightarrow>
     (\<exists>k u. dget ''msg_type'' payload = Some (PyStr k) \<and> dget ''media_uri'' payload = Some (PyStr u) \<and>
        k \<in> set ATTACHMENT_KINDS \<and> u \<noteq> [])"

lemma as_str_get: "as_str (dget_or k PyNone d) = Some s \<longleftrightarrow> dget k d = Some (PyStr s)"
  by (auto simp: as_str_def dget_or_def split: py_val.splits option.splits)

lemma text_params:
  assumes "\<not> is_attachment payload"
  shows "build_notification_params payload = build_text_params payload"
proof -
  have "\<not> (k \<in> set ATTACHMENT_KINDS \<and> u \<noteq> [])"
    if "as_str (dget_or ''msg_type'' PyNone payload) = Some k" "as_str (dget_or ''media_uri'' PyNone payload) = Some u" for k u
    using assms that by (simp add: as_str_get is_attachment_def)
  then show ?thesis by (auto simp: build_notification_params_def split: option.splits)
qed

lemma notification_params_meta:
  "dget ''meta'' (build_notification_params payload) = Some (PyDict
     (if is_attachment payload then dset (PyStr ''media_uri'') (dget_or ''media_uri'' PyNone payload)
        (dset (PyStr ''kind'') (dget_or ''msg_type'' PyNone payload) (take_meta payload)) else take_meta payload))"
proof (cases "is_attachment payload")
  case True
  then obtain k u where ku: "dget ''msg_type'' payload = Some (PyStr k)" "dget ''media_uri'' payload = Some (PyStr u)"
    "k \<in> set ATTACHMENT_KINDS" "u \<noteq> []" by (auto simp: is_attachment_def)
  then have "build_notification_params payload = build_attachment_params payload k u"
    using as_str_get [of "''msg_type''" payload k] as_str_get [of "''media_uri''" payload u]
    by (simp add: build_notification_params_def)
  with True ku(1,2) show ?thesis by (simp add: build_attachment_params_def dget_or_def Let_def)
qed (simp add: text_params build_text_params_def)

text \<open>The frames that end the receive loop, and the notification a frame causes.\<close>

definition frame_payload :: "py_kvs \<Rightarrow> py_val" where
  "frame_payload frame = py_or (dget_or ''payload'' PyNone frame) (PyDict [])"

definition frame_event :: "py_kvs \<Rightarrow> py_val" where
  "frame_event frame = dget_or ''event'' PyNone frame"

definition frame_kind :: "py_kvs \<Rightarrow> py_val option" where
  "frame_kind frame =
     (if frame_event frame = PyStr ''envelope''
      then (case frame_payload frame of PyDict kvs \<Rightarrow> Some (dget_or ''kind'' PyNone kvs) | _ \<Rightarrow> None) else None)"

definition frame_stop :: "py_kvs \<Rightarrow> py_exc option" where
  "frame_stop frame =
     (if frame_kind frame = Some (PyStr ''session_killed'') then Some (BridgeShutdown ''session_killed'')
      else if frame_event frame = PyStr ''phx_close'' then Some (BridgeShutdown ''phx channel phx_close'')
      else if frame_event frame = PyStr ''phx_error'' then Some (BridgeShutdown ''phx channel phx_error'')
      else if frame_event frame = PyStr ''envelope'' \<and> frame_kind frame = None
        then Some (attr_error (frame_payload frame) ''get'')
      else None)"

definition frame_notifies :: "py_kvs \<Rightarrow> bool" where
  "frame_notifies frame \<longleftrightarrow>
     frame_kind frame \<in> {Some PyNone, Some (PyStr ''notification''), Some (PyStr ''cleanup_check_requested'')}"

definition frame_kvs :: "py_kvs \<Rightarrow> py_kvs" where
  "frame_kvs frame = (case frame_payload frame of PyDict kvs \<Rightarrow> kvs | _ \<Rightarrow> [])"

definition frame_result :: "py_kvs \<Rightarrow> string \<Rightarrow> bool" where
  "frame_result frame req_id \<longleftrightarrow> frame_kind frame = Some (PyStr ''tool_result'') \<and>
     dget ''req_id'' (frame_kvs frame) = Some (PyStr req_id)"

definition channel_message :: "py_kvs \<Rightarrow> py_kvs" where
  "channel_message frame = mkdict [(''jsonrpc'', PyStr ''2.0''), (''method'', PyStr ''notifications/claude/channel''),
     (''params'', PyDict (build_notification_params (frame_kvs frame)))]"

lemmas frame_defs = frame_payload_def [symmetric] frame_event_def [symmetric]

lemma receive_frame_cases:
  "receive_frame frame b =
     (case frame_stop frame of
        Some e \<Rightarrow> (Inl e, b)
      | None \<Rightarrow> (Inr (),
          if frame_notifies frame then send_channel_notification (build_notification_params (frame_kvs frame)) b
          else if frame_kind frame = Some (PyStr ''tool_result'') then resolve_pending_tool_call (frame_kvs frame) b
          else b))"
  by (auto simp: receive_frame_def Let_def frame_defs frame_stop_def frame_kind_def frame_notifies_def frame_kvs_def
      dispatch_envelope_def split: py_val.splits)

lemma resolve_fields [simp]:
  "br_written (resolve_pending_tool_call p b) = br_written b"
  "br_write_stream (resolve_pending_tool_call p b) = br_write_stream b"
  by (auto simp: resolve_pending_tool_call_def forget_call_def Let_def split: py_val.splits option.splits)

lemma send_fields [simp]:
  "br_write_stream (send_channel_notification p b) = br_write_stream b"
  "br_pending (send_channel_notification p b) = br_pending b"
  "br_done (send_channel_notification p b) = br_done b"
  by (simp_all add: send_channel_notification_def)

lemma receive_loop_written:
  assumes "br_write_stream b"
  shows "phx_receive_loop frames b = (e, b') \<Longrightarrow>
    e = (case dropWhile (\<lambda>f. frame_stop f = None) frames of [] \<Rightarrow> None | f # _ \<Rightarrow> frame_stop f) \<and>
    br_written b' = br_written b @
      map channel_message (filter frame_notifies (takeWhile (\<lambda>f. frame_stop f = None) frames))"
  using assms
proof (induction frames arbitrary: b)
  case (Cons frame frames)
  show ?case
  proof (cases "frame_stop frame")
    case None
    obtain b1 where b1: "receive_frame frame b = (Inr (), b1)" using None by (simp add: receive_frame_cases)
    have "br_written b1 = br_written b @ (if frame_notifies frame then [channel_message frame] else [])"
      "br_write_stream b1"
      using b1 None Cons.prems(2)
      by (auto simp: receive_frame_cases send_channel_notification_def channel_message_def split: if_splits)
    with Cons None b1 show ?thesis by auto
  next
    case (Some x)
    with Cons.prems(1) have "e = Some x" "b' = b" by (simp_all add: receive_frame_cases)
    with Some show ?thesis by simp
  qed
qed simp

lemma resolve_done:
  "map_of (br_done (resolve_pending_tool_call kvs b)) r =
     (if dget ''req_id'' kvs = Some (PyStr r) \<and> map_of (br_pending b) r \<noteq> None \<and> map_of (br_done b) r = None
      then Some kvs else map_of (br_done b) r)"
  "map_of (br_pending (resolve_pending_tool_call kvs b)) r =
     (if dget ''req_id'' kvs = Some (PyStr r) then None else map_of (br_pending b) r)"
  by (auto simp: resolve_pending_tool_call_def forget_call_def dget_or_def map_of_ddel Let_def
      split: py_val.splits option.splits)

lemma tool_result_passes:
  "frame_kind frame = Some (PyStr ''tool_result'') \<Longrightarrow> frame_stop frame = None \<and> \<not> frame_notifies frame"
proof -
  assume k: "frame_kind frame = Some (PyStr ''tool_result'')"
  then have "frame_event frame = PyStr ''envelope''" by (simp add: frame_kind_def split: if_splits)
  with k show ?thesis by (simp add: frame_stop_def frame_notifies_def)
qed

lemma receive_frame_table:
  assumes "receive_frame frame b = (x, b')"
  shows "map_of (br_done b') r =
      (if frame_result frame r \<and> map_of (br_pending b) r \<noteq> None \<and> map_of (br_done b) r = None
       then Some (frame_kvs frame) else map_of (br_done b) r)"
    and "map_of (br_pending b') r = (if frame_result frame r then None else map_of (br_pending b) r)"
proof -
  have "map_of (br_done b') r =
      (if frame_result frame r \<and> map_of (br_pending b) r \<noteq> None \<and> map_of (br_done b) r = None
       then Some (frame_kvs frame) else map_of (br_done b) r) \<and>
    map_of (br_pending b') r = (if frame_result frame r then None else map_of (br_pending b) r)"
  proof (cases "frame_kind frame = Some (PyStr ''tool_result'')")
    case False
    with assms show ?thesis by (auto simp: receive_frame_cases frame_result_def split: option.splits if_splits)
  next
    case True
    then have "b' = resolve_pending_tool_call (frame_kvs frame) b"
      using assms tool_result_passes [OF True] by (simp add: receive_frame_cases)
    with True show ?thesis by (simp add: frame_result_def resolve_done)
  qed
  then show "map_of (br_done b') r =
      (if frame_result frame r \<and> map_of (br_pending b) r \<noteq> None \<and> map_of (br_done b) r = None
       then Some (frame_kvs frame) else map_of (br_done b) r)"
    and "map_of (br_pending b') r = (if frame_result frame r then None else map_of (br_pending b) r)"
    by blast+
qed

lemma receive_loop_keeps:
  "phx_receive_loop frames b = (e, b') \<Longrightarrow> map_of (br_done b) r = Some y \<Longrightarrow> map_of (br_done b') r = Some y"
  by (induction frames arbitrary: b) (auto split: prod.splits sum.splits dest: receive_frame_table(1) [where r = r])

lemma receive_loop_other:
  "phx_receive_loop frames b = (e, b') \<Longrightarrow> \<forall>f\<in>set frames. \<not> frame_result f r \<Longrightarrow>
   map_of (br_done b') r = map_of (br_done b) r \<and> map_of (br_pending b') r = map_of (br_pending b) r"
  by (induction frames arbitrary: b)
     (auto split: prod.splits sum.splits dest: receive_frame_table(1) [where r = r] receive_frame_table(2) [where r = r])

lemma receive_loop_append:
  "\<forall>f\<in>set pre. frame_stop f = None \<Longrightarrow>
   phx_receive_loop (pre @ post) b = phx_receive_loop post (snd (phx_receive_loop pre b))"
  by (induction pre arbitrary: b) (auto simp: receive_frame_cases)

text \<open>A call that is over has left the table, in whichever segment it ended.\<close>

lemma forget_call_pending [simp]:
  "map_of (br_pending (forget_call r b)) = (map_of (br_pending b))(r := None)"
  "br_done (forget_call r b) = br_done b"
  by (simp_all add: forget_call_def map_of_ddel)

lemma call_over_start:
  "dispatch_tool_start dumps send req tool args b c = (CallOver x, b', c') \<Longrightarrow> map_of (br_pending b) req = None \<Longrightarrow>
   map_of (br_pending b') = map_of (br_pending b)"
  by (auto simp: dispatch_tool_start_def fun_eq_iff Let_def split: bool.splits option.splits prod.splits sum.splits if_splits)

lemma call_over_later:
  "dispatch_tool_pushed dumps req reply b = (CallOver x, b') \<Longrightarrow> map_of (br_pending b') = (map_of (br_pending b))(req := None)"
  "dispatch_tool_finish dumps req tool timed_out b = (CallOver x, b') \<Longrightarrow>
   map_of (br_pending b') = (map_of (br_pending b))(req := None)"
  by (auto simp: dispatch_tool_pushed_def dispatch_tool_finish_def split: sum.splits if_splits option.splits prod.splits)

lemma call_waits:
  "dispatch_tool_start dumps send req tool args b c = (AwaitsPush ref, b', c') \<Longrightarrow>
   map_of (br_pending b') = (map_of (br_pending b))(req \<mapsto> ()) \<and> br_done b' = br_done b"
  by (auto simp: dispatch_tool_start_def Let_def split: bool.splits option.splits prod.splits sum.splits)


section \<open>Properties\<close>

text \<open>
  What Claude Code is told of a message: for every payload, the meta of the notification has exactly the
  listed user-visible fields whose value is present and not empty, as strings, with the defaults for
  \<open>runtime_mode\<close> and \<open>source\<close>, and \<open>kind\<close> and \<open>media_uri\<close> exactly for an attachment; no internal routing
  field reaches it.
\<close>

theorem notification_meta:
  "\<exists>m. dget ''meta'' (build_notification_params payload) = Some (PyDict m) \<and>
     dget ''runtime_mode'' m \<noteq> None \<and> dget ''source'' m \<noteq> None \<and>
     (\<forall>k. dget k m =
        (if k = ''kind'' then (if is_attachment payload then dget ''msg_type'' payload else None)
         else if k = ''media_uri'' then (if is_attachment payload then dget ''media_uri'' payload else None)
         else if k \<in> set META_FIELDS \<and> \<not> blank (meta_value payload k)
           then Some (PyStr (py_str (meta_value payload k)))
         else None))"
proof -
  have d: "\<not> blank (meta_value payload ''runtime_mode'')" "\<not> blank (meta_value payload ''source'')"
    by (auto simp: meta_value_def blank_def Let_def)
  have f: "''runtime_mode'' \<in> set META_FIELDS" "''source'' \<in> set META_FIELDS" "''kind'' \<notin> set META_FIELDS"
    "''media_uri'' \<notin> set META_FIELDS" by (simp_all add: META_FIELDS_def)
  let ?m = "if is_attachment payload then dset (PyStr ''media_uri'') (dget_or ''media_uri'' PyNone payload)
    (dset (PyStr ''kind'') (dget_or ''msg_type'' PyNone payload) (take_meta payload)) else take_meta payload"
  have "dget ''msg_type'' payload = Some (dget_or ''msg_type'' PyNone payload) \<and>
      dget ''media_uri'' payload = Some (dget_or ''media_uri'' PyNone payload)" if "is_attachment payload"
    using that by (auto simp: is_attachment_def dget_or_def)
  then show ?thesis
    using d f by (intro exI [of _ ?m]) (simp add: notification_params_meta dget_take_meta)
qed

text \<open>
  The bridge forwards the channel faithfully: while the MCP stream is open, the receive loop writes one
  notification per notification frame, in order and up to the first frame that ends it, and nothing
  else; it ends exactly at that frame, with the shutdown signal for a killed session or a closed channel,
  and with \<open>AttributeError\<close> for an envelope whose payload is not an object.
\<close>

theorem bridge_forwards_in_order:
  assumes "br_write_stream b" "phx_receive_loop frames b = (e, b')"
  shows "e = (case dropWhile (\<lambda>f. frame_stop f = None) frames of [] \<Rightarrow> None | f # _ \<Rightarrow> frame_stop f) \<and>
    br_written b' = br_written b @
      map channel_message (filter frame_notifies (takeWhile (\<lambda>f. frame_stop f = None) frames))"
  by (rule receive_loop_written [OF assms])

definition demo_frame :: "string \<Rightarrow> py_kvs \<Rightarrow> py_kvs" where
  "demo_frame event payload = mkdict [(''event'', PyStr event), (''payload'', PyDict payload)]"

theorem bridge_forwards_in_order_witness:
  "\<exists>b'. phx_receive_loop [demo_frame ''envelope'' (mkdict [(''content'', PyStr ''hi'')]), demo_frame ''phx_close'' []]
      (mcp_start (bridge_setup ''s'')) = (Some (BridgeShutdown ''phx channel phx_close''), b') \<and>
    br_written b' = [channel_message (demo_frame ''envelope'' (mkdict [(''content'', PyStr ''hi'')]))]"
proof -
  let ?fs = "[demo_frame ''envelope'' (mkdict [(''content'', PyStr ''hi'')]), demo_frame ''phx_close'' []]"
  have w: "br_write_stream (mcp_start (bridge_setup ''s''))" "br_written (mcp_start (bridge_setup ''s'')) = []"
    by (simp_all add: mcp_start_def bridge_setup_def set_session_id_def set_phx_client_def new_bridge_def)
  obtain e b' where r: "phx_receive_loop ?fs (mcp_start (bridge_setup ''s'')) = (e, b')" by fastforce
  from bridge_forwards_in_order [OF w(1) r] r w(2) show ?thesis
    by (simp add: frame_stop_def frame_kind_def frame_event_def frame_payload_def frame_notifies_def demo_frame_def
        dget_or_def)
qed


definition demo_client :: phx_client where
  "demo_client = new_phx_client\<lparr>bc_ws := True, bc_join_refs := [(''cli:channel/s'', ''1'')], bc_ref_counter := 1\<rparr>"

definition demo_result :: "string \<Rightarrow> py_kvs" where
  "demo_result r = demo_frame ''envelope'' (mkdict [(''kind'', PyStr ''tool_result''), (''req_id'', PyStr r),
     (''ok'', PyBool True), (''data'', PyStr r)])"


end
