(* ===== verification/Syntax_Tree.thy ===== *)
theory Syntax_Tree
  imports ESR_Prelude "HOL-Library.Multiset"
begin

text \<open>
  Python syntax trees, as the scans of \<^verbatim>\<open>py/src/esr/verify\<close> and the gate scripts under \<^verbatim>\<open>scripts\<close> read them from \<open>ast.parse\<close>,
  with the traversals of the \<open>ast\<close> module.

  The tree has the nodes that some scan looks at; any other node is its class and its children in field order.
  (The leaves that no scan looks at, such as the aliases below an import and expression contexts, are left out, as are
  bytes, complex numbers and the ellipsis among constants.) In a call the keyword arguments are nodes of their own.
  A function definition says whether it is asynchronous, then its name, the names of its
  positional parameters (\<open>args.args\<close>), the node of its parameters, its body, its decorators and its other children.
\<close>

section \<open>Trees\<close>

datatype node =
    Import nat "string list"
  | ImportFrom nat "string option"
  | Name string
  | Attribute node string
  | If node "node list" "node list"
  | Constant py_val
  | Call node "node list" "node list"
  | Keyword "string option" node
  | Expr node
  | Assign "node list" node
  | Return "node option"
  | Raise "node option" "node option"
  | DictExpr "node option list" "node list"
  | FunctionDef bool string "string list" node "node list" "node list" "node list"
  | Node string "node list"

text \<open>\<open>ast.iter_child_nodes\<close>.\<close>

definition somes :: "'a option list \<Rightarrow> 'a list" where
  "somes xs = concat (map (\<lambda>x. case x of None \<Rightarrow> [] | Some y \<Rightarrow> [y]) xs)"

lemma set_somes: "set (somes xs) = {y. Some y \<in> set xs}"
  by (auto simp: somes_def split: option.splits)

fun child_nodes :: "node \<Rightarrow> node list" where
  "child_nodes (Attribute v _) = [v]"
| "child_nodes (If test body orelse) = test # body @ orelse"
| "child_nodes (Call f args keywords) = f # args @ keywords"
| "child_nodes (Keyword _ v) = [v]"
| "child_nodes (Expr v) = [v]"
| "child_nodes (Assign targets v) = targets @ [v]"
| "child_nodes (Return v) = somes [v]"
| "child_nodes (Raise exc cause) = somes [exc, cause]"
| "child_nodes (DictExpr keys values) = somes keys @ values"
| "child_nodes (FunctionDef _ _ _ arguments body decorators others) = arguments # body @ decorators @ others"
| "child_nodes (Node _ ns) = ns"
| "child_nodes _ = []"

lemma size_somes: "Some m \<in> set xs \<Longrightarrow> size m \<le> size_list (size_option size) xs"
  by (induction xs) auto

lemma child_smaller: "m \<in> set (child_nodes n) \<Longrightarrow> size m < size n"
  by (cases n) (auto simp: set_somes less_Suc_eq_le intro: size_somes size_list_estimation' trans_le_add1 trans_le_add2)

function node_count :: "node \<Rightarrow> nat" where
  "node_count n = 1 + sum_list (map node_count (child_nodes n))"
  by pat_completeness auto
termination
  by (relation "measure size") (simp_all add: child_smaller)

declare node_count.simps [simp del]

lemmas node_count_children = node_count.simps

lemma node_count_child: "m \<in> set (child_nodes n) \<Longrightarrow> node_count m < node_count n"
  using member_le_sum_list [of "node_count m" "map node_count (child_nodes n)"]
  by (simp add: node_count_children [of n])

section \<open>Traversals\<close>

text \<open>\<open>ast.walk\<close>: a queue of nodes, whose children are appended as a node is taken.\<close>

function walk :: "node list \<Rightarrow> node list" where
  "walk [] = []"
| "walk (n # todo) = n # walk (todo @ child_nodes n)"
  by pat_completeness auto
termination
  by (relation "measure (\<lambda>ns. sum_list (map node_count ns))") (simp_all add: node_count_children)

text \<open>The nodes of a tree that are not below a node a scan skips.\<close>

inductive covered :: "(node \<Rightarrow> bool) \<Rightarrow> node \<Rightarrow> node \<Rightarrow> bool" for skip where
  covered_self: "\<not> skip n \<Longrightarrow> covered skip n n"
| covered_child: "\<not> skip n \<Longrightarrow> m \<in> set (child_nodes n) \<Longrightarrow> covered skip m k \<Longrightarrow> covered skip n k"

inductive_cases coveredE: "covered skip n k"

lemma covered_unfold:
  "covered skip n k \<longleftrightarrow> \<not> skip n \<and> (k = n \<or> (\<exists>m\<in>set (child_nodes n). covered skip m k))"
  by (auto elim: coveredE intro: covered_self covered_child)

abbreviation within :: "node \<Rightarrow> node \<Rightarrow> bool" where
  "within \<equiv> covered (\<lambda>_. False)"

lemma within_unfold: "{k. within n k} = insert n (\<Union>m\<in>set (child_nodes n). {k. within m k})"
  by (auto simp: covered_unfold [of _ n])

lemma within_trans: "within a b \<Longrightarrow> within b c \<Longrightarrow> within a c"
  by (induction rule: covered.induct) (auto intro: covered_child)

lemma walk_set: "set (walk ns) = (\<Union>n\<in>set ns. {k. within n k})"
proof (induction ns rule: walk.induct)
  case (2 n todo)
  then show ?case by (auto simp: within_unfold [of n])
qed simp

text \<open>The walk takes every node of the tree exactly once, in an order by depth.\<close>

function preorder :: "node \<Rightarrow> node list" where
  "preorder n = n # concat (map preorder (child_nodes n))"
  by pat_completeness auto
termination
  by (relation "measure node_count") (simp_all add: node_count_child)

declare preorder.simps [simp del]

lemma walk_mset: "mset (walk ns) = mset (concat (map preorder ns))"
proof (induction ns rule: walk.induct)
  case (2 n todo)
  then show ?case by (simp add: preorder.simps [of n] union_ac)
qed simp

end
