(* ===== verification/Verify.thy ===== *)
theory Verify
  imports Syntax_Tree
begin

text \<open>
  \<^verbatim>\<open>py/src/esr/verify\<close>: the two static import scans, \<^verbatim>\<open>purity.py\<close> for handlers and \<^verbatim>\<open>io_permission.py\<close> for
  adapters, and the frozen-state fixture.

  \<open>ast.parse\<close> is a parameter; what is scanned is its result, a tree of \<^typ>\<open>node\<close>.
\<close>

section \<open>Violations\<close>

record violation =
  v_module :: string
  v_lineno :: nat
  v_message :: string

definition top_level :: "string \<Rightarrow> string" where
  "top_level name = before CHR ''.'' name"


section \<open>Handler purity\<close>

definition CORE_ALLOWED :: "string list" where
  "CORE_ALLOWED = [''esr'', ''typing'', ''dataclasses'', ''pydantic'', ''enum'', ''__future__'']"

fun is_type_checking_guard :: "node \<Rightarrow> bool" where
  "is_type_checking_guard (Name i) = (i = ''TYPE_CHECKING'')"
| "is_type_checking_guard (Attribute _ a) = (a = ''TYPE_CHECKING'')"
| "is_type_checking_guard _ = False"

definition skipped :: "node \<Rightarrow> bool" where
  "skipped n = (case n of If test _ _ \<Rightarrow> is_type_checking_guard test | _ \<Rightarrow> False)"

text \<open>The violations of one node; \<open>suffix\<close> is how the message of a scan goes on after the name.\<close>

definition node_violations ::
  "string list \<Rightarrow> (string \<Rightarrow> string) \<Rightarrow> node \<Rightarrow> violation list"
where
  "node_violations allowed suffix n =
     (case n of
        Import lineno names \<Rightarrow>
          [\<lparr>v_module = top_level a, v_lineno = lineno,
            v_message = ''import '' @ repr_str a @ suffix (top_level a)\<rparr>.
            a \<leftarrow> names, top_level a \<notin> set allowed]
      | ImportFrom lineno (Some m) \<Rightarrow>
          if top_level m \<in> set allowed then []
          else [\<lparr>v_module = top_level m, v_lineno = lineno,
                 v_message = ''from '' @ repr_str m @ '' import ...'' @ suffix (top_level m)\<rparr>]
      | _ \<Rightarrow> [])"

definition purity_suffix :: "string \<Rightarrow> string" where
  "purity_suffix root = '' not in allow-list (top-level '' @ repr_str root @ '')''"

function visit :: "string list \<Rightarrow> node \<Rightarrow> violation list" where
  "visit allowed n =
     (if skipped n then []
      else node_violations allowed purity_suffix n @ concat (map (visit allowed) (child_nodes n)))"
  by pat_completeness auto
termination
  by (relation "measure (\<lambda>(_, n). node_count n)") (simp_all add: node_count_child)

declare visit.simps [simp del]

definition scan_imports :: "(string \<Rightarrow> node res) \<Rightarrow> string \<Rightarrow> string list \<Rightarrow> violation list res" where
  "scan_imports ast_parse source extra_allowed =
     rbind (ast_parse source) (\<lambda>tree. Inr (visit (CORE_ALLOWED @ extra_allowed) tree))"


section \<open>Adapter permissions\<close>

definition ADAPTER_CORE_ALLOWED :: "string list" where
  "ADAPTER_CORE_ALLOWED =
     [''esr'', ''__future__'', ''abc'', ''asyncio'', ''collections'', ''contextlib'', ''dataclasses'', ''datetime'',
      ''enum'', ''functools'', ''inspect'', ''io'', ''itertools'', ''json'', ''logging'', ''os'', ''pathlib'', ''re'',
      ''string'', ''sys'', ''time'', ''typing'', ''uuid'', ''warnings'']"

definition io_suffix :: "string list \<Rightarrow> string \<Rightarrow> string" where
  "io_suffix allowed_io root =
     '' not in allowed_io (top-level '' @ repr_str root @ '', declared: '' @
     py_repr (PyList (map PyStr (sort allowed_io))) @ '')''"

definition scan_adapter :: "(string \<Rightarrow> node res) \<Rightarrow> string \<Rightarrow> string list \<Rightarrow> violation list res" where
  "scan_adapter ast_parse source allowed_io =
     rbind (ast_parse source) (\<lambda>tree.
       Inr (concat (map (node_violations (ADAPTER_CORE_ALLOWED @ allowed_io) (io_suffix allowed_io)) (walk [tree]))))"


section \<open>Frozen states\<close>

datatype model_config = NoConfig | DictConfig py_kvs | ObjectConfig py_kvs

definition frozen_state_fixture :: "string \<Rightarrow> model_config \<Rightarrow> ('o \<Rightarrow> 'm res) \<Rightarrow> 'o \<Rightarrow> 'm res" where
  "frozen_state_fixture cls_name cfg construct overrides =
     (let frozen = (case cfg of
          NoConfig \<Rightarrow> False
        | DictConfig d \<Rightarrow> py_truthy (dget_or ''frozen'' (PyBool False) d)
        | ObjectConfig attrs \<Rightarrow> py_truthy (dget_or ''frozen'' (PyBool False) attrs))
      in if frozen then construct overrides
         else Inl (type_error (cls_name @ '' must be frozen (set model_config['' @ repr_str ''frozen'' @ ''] = True)'')))"

section \<open>What a scan covers\<close>

text \<open>
  The modules a node imports, and the contract the two scans share: the violations are those of the nodes that are not
  below a node the scan skips.
\<close>

fun imported :: "node \<Rightarrow> string list" where
  "imported (Import _ names) = map top_level names"
| "imported (ImportFrom _ (Some m)) = [top_level m]"
| "imported _ = []"

lemma node_violations_modules:
  "v_module ` set (node_violations allowed suffix n) = set (imported n) - set allowed"
  by (cases n rule: imported.cases) (auto simp: node_violations_def image_iff)

locale import_scan =
  fixes scan :: "string list \<Rightarrow> node \<Rightarrow> violation list"
    and skip :: "node \<Rightarrow> bool"
    and core :: "string list"
    and suffix :: "string list \<Rightarrow> string \<Rightarrow> string"
  assumes scan_set: "set (scan extra t) = (\<Union>n\<in>{n. covered skip t n}. set (node_violations (core @ extra) (suffix extra) n))"
begin

lemma scan_modules: "v_module ` set (scan extra t) = (\<Union>n\<in>{n. covered skip t n}. set (imported n)) - set (core @ extra)"
proof -
  have "v_module ` set (scan extra t) =
    (\<Union>n\<in>{n. covered skip t n}. v_module ` set (node_violations (core @ extra) (suffix extra) n))"
    by (simp add: scan_set image_UN)
  then show ?thesis unfolding node_violations_modules by blast
qed

lemma scan_clean_iff: "scan extra t = [] \<longleftrightarrow> (\<Union>n\<in>{n. covered skip t n}. set (imported n)) \<subseteq> set (core @ extra)"
proof -
  have "scan extra t = [] \<longleftrightarrow> v_module ` set (scan extra t) = {}" by simp
  then show ?thesis unfolding scan_modules by blast
qed

lemma scan_clean_mono: "scan extra t = [] \<Longrightarrow> set extra \<subseteq> set extra' \<Longrightarrow> scan extra' t = []"
  unfolding scan_clean_iff by auto

end

lemma visit_set:
  "set (visit allowed t) = (\<Union>n\<in>{n. covered skipped t n}. set (node_violations allowed purity_suffix n))"
proof (induction allowed t rule: visit.induct)
  case (1 allowed t)
  show ?case
  proof (cases "skipped t")
    case True
    then show ?thesis by (simp add: visit.simps [of _ t] covered_unfold [of _ t])
  next
    case False
    then have "{n. covered skipped t n} = insert t (\<Union>m\<in>set (child_nodes t). {n. covered skipped m n})"
      by (auto simp: covered_unfold [of _ t])
    then show ?thesis using 1 [OF False] False by (simp add: visit.simps [of _ t])
  qed
qed

interpretation purity: import_scan "\<lambda>extra. visit (CORE_ALLOWED @ extra)" skipped CORE_ALLOWED "\<lambda>_. purity_suffix"
  by unfold_locales (rule visit_set)

interpretation io_permission: import_scan
  "\<lambda>io t. concat (map (node_violations (ADAPTER_CORE_ALLOWED @ io) (io_suffix io)) (walk [t]))"
  "\<lambda>_. False" ADAPTER_CORE_ALLOWED io_suffix
  by unfold_locales (simp add: walk_set del: walk.simps)

section \<open>Properties\<close>

text \<open>
  C39. The handler scan is exact: on a module that parses, the modules it reports are those imported at any
  depth, outside \<open>if TYPE_CHECKING\<close> statements, whose root is neither in the core list nor in the
  widened one; the module is clean exactly when there is none, and widening the list keeps it clean.
\<close>

theorem scan_imports_exact:
  assumes "ast_parse source = Inr tree"
  shows "\<exists>vs. scan_imports ast_parse source extra = Inr vs \<and>
    v_module ` set vs = (\<Union>n\<in>{n. covered skipped tree n}. set (imported n)) - set (CORE_ALLOWED @ extra) \<and>
    (vs = [] \<longrightarrow> scan_imports ast_parse source (extra @ wider) = Inr [])"
  using purity.scan_modules [of extra tree] purity.scan_clean_mono [of extra tree "extra @ wider"] assms
  by (simp add: scan_imports_def)

definition demo_tree :: node where
  "demo_tree = Node ''Module'' [Import 1 [''os.path''], ImportFrom 2 (Some ''esr.handler''),
     If (Name ''TYPE_CHECKING'') [Import 4 [''socket'']] [Import 6 [''urllib'']],
     FunctionDef False ''f'' [] (Node ''arguments'' []) [ImportFrom 8 None, Import 9 [''json'']] [] []]"

theorem scan_imports_exact_witness:
  "\<exists>vs. scan_imports (\<lambda>_. Inr demo_tree) ''src'' [''json''] = Inr vs \<and> v_module ` set vs = {''os''}"
proof -
  have "visit (CORE_ALLOWED @ [''json'']) demo_tree =
    [\<lparr>v_module = ''os'', v_lineno = 1, v_message = ''import '' @ repr_str ''os.path'' @ purity_suffix ''os''\<rparr>]"
    by (simp add: visit.simps demo_tree_def skipped_def node_violations_def top_level_def before_def CORE_ALLOWED_def)
  then have "scan_imports (\<lambda>_. Inr demo_tree) ''src'' [''json''] =
    Inr [\<lparr>v_module = ''os'', v_lineno = 1, v_message = ''import '' @ repr_str ''os.path'' @ purity_suffix ''os''\<rparr>]"
    by (simp add: scan_imports_def)
  with scan_imports_exact [of "\<lambda>_. Inr demo_tree" "''src''" demo_tree "[''json'']" "[]"] show ?thesis by auto
qed

text \<open>
  The adapter scan is exact: on a module that parses it looks at every node once (the breadth-first walk is
  a permutation of the depth-first order), and the modules it reports are those imported anywhere whose
  root is neither in the core list nor declared in \<open>allowed_io\<close>.
\<close>

theorem scan_adapter_exact:
  assumes "ast_parse source = Inr tree"
  shows "\<exists>vs. scan_adapter ast_parse source allowed_io = Inr vs \<and>
    mset vs = mset (concat (map (node_violations (ADAPTER_CORE_ALLOWED @ allowed_io) (io_suffix allowed_io)) (preorder tree))) \<and>
    v_module ` set vs = (\<Union>n\<in>set (preorder tree). set (imported n)) - set (ADAPTER_CORE_ALLOWED @ allowed_io)"
proof -
  let ?f = "node_violations (ADAPTER_CORE_ALLOWED @ allowed_io) (io_suffix allowed_io)"
  have w: "mset (walk [tree]) = mset (preorder tree)" by (simp add: walk_mset del: walk.simps)
  then have "mset (concat (map ?f (walk [tree]))) = mset (concat (map ?f (preorder tree)))"
    by (simp add: mset_concat mset_map del: walk.simps flip: sum_mset_sum_list)
  moreover have "{n. covered (\<lambda>_. False) tree n} = set (preorder tree)"
    using mset_eq_setD [OF w] walk_set [of "[tree]"] by (simp del: walk.simps)
  ultimately show ?thesis
    using io_permission.scan_modules [of allowed_io tree] assms by (simp add: scan_adapter_def del: walk.simps)
qed

theorem scan_adapter_exact_witness:
  "\<exists>vs. scan_adapter (\<lambda>_. Inr demo_tree) ''src'' [''urllib''] = Inr vs \<and> v_module ` set vs = {''socket''}"
proof -
  have "(\<Union>n\<in>set (preorder demo_tree). set (imported n)) - set (ADAPTER_CORE_ALLOWED @ [''urllib'']) = {''socket''}"
    by (simp add: demo_tree_def preorder.simps top_level_def before_def ADAPTER_CORE_ALLOWED_def insert_Diff_if)
  with scan_adapter_exact [of "\<lambda>_. Inr demo_tree" "''src''" demo_tree "[''urllib'']"] show ?thesis by auto
qed

text \<open>The fixture refuses a state class that is not frozen.\<close>

lemma frozen_state_fixture_ok:
  "frozen_state_fixture name cfg construct overrides = Inr m \<Longrightarrow>
   construct overrides = Inr m \<and> (\<exists>d. (cfg = DictConfig d \<or> cfg = ObjectConfig d) \<and> py_truthy (dget_or ''frozen'' (PyBool False) d))"
  by (cases cfg) (auto simp: frozen_state_fixture_def Let_def split: if_splits)

end
