(* ===== verification/Shipped_Imports.thy ===== *)
theory Shipped_Imports
  imports Verify
begin

text \<open>
  The scans of \<^verbatim>\<open>py/src/esr/verify\<close> on the modules the repository ships: the imports of the Feishu adapter against the
  input and output it declares, and the imports of the handlers. A tree here is the module's import statements, those below a function
  under a node of their own. The line numbers are those of the files; for the handlers, those of \<open>feishu_app\<close>, from which the others differ only in them.
\<close>

section \<open>The Feishu adapter\<close>

text \<open>The keys of \<open>allowed_io\<close> in the decorator of \<open>FeishuAdapter\<close>, and those in \<^verbatim>\<open>adapters/feishu/esr.toml\<close>.\<close>

definition feishu_allowed_io :: "string list" where
  "feishu_allowed_io = [''lark_oapi'', ''aiohttp'', ''http'', ''urllib'', ''base64'', ''hashlib'', ''tempfile'']"

definition feishu_manifest_io :: "string list" where
  "feishu_manifest_io = [''lark_oapi'', ''aiohttp'', ''http'', ''urllib'', ''base64'', ''hashlib'']"

definition feishu_module_imports :: "node list" where
  "feishu_module_imports =
    [ImportFrom 16 (Some ''__future__''), Import 18 [''asyncio''], Import 19 [''json''], Import 20 [''logging''], Import 21 [''os''],
     ImportFrom 22 (Some ''collections.abc''), ImportFrom 23 (Some ''pathlib''), ImportFrom 24 (Some ''typing''),
     ImportFrom 26 (Some ''esr.adapter''), ImportFrom 27 (Some ''esr.workspaces'')]"

definition feishu_method_imports :: "node list" where
  "feishu_method_imports =
    [Import 207 [''lark_oapi''], Import 299 [''lark_oapi.api.im.v1''], Import 319 [''urllib.request''], Import 320 [''urllib.error''],
     Import 356 [''lark_oapi.api.im.v1''], Import 387 [''urllib.error''], Import 388 [''urllib.request''], Import 429 [''lark_oapi.api.im.v1''],
     Import 464 [''urllib.error''], Import 465 [''urllib.request''], Import 488 [''lark_oapi.api.im.v1''], Import 511 [''lark_oapi.api.im.v1''],
     Import 526 [''lark_oapi.api.im.v1''], Import 545 [''os''], Import 546 [''tempfile''], ImportFrom 548 (Some ''esr.resource.media''),
     ImportFrom 549 (Some ''esr.resource.media''), Import 600 [''urllib.error''], Import 601 [''urllib.request''],
     Import 615 [''lark_oapi.api.im.v1''], Import 635 [''base64''], Import 636 [''hashlib''], Import 661 [''base64''],
     Import 662 [''urllib.error''], Import 663 [''urllib.request''], Import 714 [''lark_oapi.api.im.v1''], Import 768 [''lark_oapi''],
     ImportFrom 769 (Some ''lark_oapi.event.dispatcher_handler''), ImportFrom 775 (Some ''lark_oapi.core.log''),
     Import 853 [''lark_oapi.ws.client''], Import 871 [''os''], Import 905 [''lark_oapi''], ImportFrom 906 (Some ''lark_oapi.api.im.v1''),
     Import 1001 [''aiohttp''], Import 1014 [''os'']]"

definition feishu_tree :: node where
  "feishu_tree = Node ''Module'' (feishu_module_imports @ [Node ''ClassDef'' [Node ''FunctionDef'' feishu_method_imports]])"


section \<open>The handlers\<close>

definition handler_tree :: "string \<Rightarrow> node" where
  "handler_tree pkg = Node ''Module'' [ImportFrom 8 (Some ''__future__''), ImportFrom 10 (Some ''esr''), ImportFrom 12 (Some (pkg @ ''.state''))]"

definition state_tree :: node where
  "state_tree = Node ''Module'' [ImportFrom 1 (Some ''__future__''), ImportFrom 3 (Some ''pydantic''), ImportFrom 5 (Some ''esr'')]"


section \<open>What the scans say\<close>

lemma feishu_imports:
  "(\<Union>n\<in>{n. within feishu_tree n}. set (imported n)) \<subseteq> set (ADAPTER_CORE_ALLOWED @ feishu_allowed_io)"
proof -
  have s: "{n. within feishu_tree n} = set (walk [feishu_tree])" by (simp add: walk_set del: walk.simps)
  have "list_all (\<lambda>n. list_all (\<lambda>m. m \<in> set (ADAPTER_CORE_ALLOWED @ feishu_allowed_io)) (imported n)) (walk [feishu_tree])" by code_simp
  then show ?thesis unfolding s list_all_iff by blast
qed

text \<open>
  The adapter keeps to what it declares, and so does each handler that may import its own package. The manifest beside the adapter
  does not: it lacks \<open>tempfile\<close>, which the decorator names and a download uses.
\<close>

lemma feishu_adapter_clean: "scan_adapter (\<lambda>_. Inr feishu_tree) src feishu_allowed_io = Inr []"
  using io_permission.scan_clean_iff [of feishu_allowed_io feishu_tree] feishu_imports
  by (simp add: scan_adapter_def del: walk.simps)

lemma feishu_manifest_incomplete:
  "\<exists>vs. scan_adapter (\<lambda>_. Inr feishu_tree) src feishu_manifest_io = Inr vs \<and> v_module ` set vs = {''tempfile''}"
proof -
  let ?used = "\<Union>n\<in>{n. within feishu_tree n}. set (imported n)"
  have "''tempfile'' \<in> ?used"
    unfolding walk_set [of "[feishu_tree]", simplified, symmetric]
    by (rule UN_I [of "Import 546 [''tempfile'']"]) (simp_all add: feishu_tree_def feishu_module_imports_def feishu_method_imports_def top_level_def before_def)
  moreover have "set (ADAPTER_CORE_ALLOWED @ feishu_allowed_io) = insert ''tempfile'' (set (ADAPTER_CORE_ALLOWED @ feishu_manifest_io))"
    by (auto simp: feishu_allowed_io_def feishu_manifest_io_def)
  moreover have "''tempfile'' \<notin> set (ADAPTER_CORE_ALLOWED @ feishu_manifest_io)" by code_simp
  ultimately have "?used - set (ADAPTER_CORE_ALLOWED @ feishu_manifest_io) = {''tempfile''}" using feishu_imports by blast
  then show ?thesis using io_permission.scan_modules [of feishu_manifest_io feishu_tree] by (simp add: scan_adapter_def del: walk.simps)
qed

lemma top_level_state: "CHR ''.'' \<notin> set pkg \<Longrightarrow> top_level (pkg @ ''.state'') = pkg"
  unfolding top_level_def before_def by (induction pkg) auto

lemma handlers_clean:
  "CHR ''.'' \<notin> set pkg \<Longrightarrow> scan_imports (\<lambda>_. Inr (handler_tree pkg)) src [pkg] = Inr []"
  "scan_imports (\<lambda>_. Inr state_tree) src [] = Inr []"
  by (simp_all add: scan_imports_def handler_tree_def state_tree_def visit.simps skipped_def node_violations_def top_level_state)
    (simp_all add: top_level_def before_def CORE_ALLOWED_def)

end
