(* ===== verification/Media.thy ===== *)
theory Media
  imports Uri
begin

text \<open>
  \<^verbatim>\<open>py/src/esr/resource/media\<close>: the content-addressed store of media files, the resolution of resource
  URIs to local paths, and the phasers that render a stored file.

  A file system is a dictionary from paths to directories and files with their bytes; a path is a root
  and its components, as \<open>pathlib\<close> normalises it (links, \<open>..\<close> and the working directory are not
  interpreted). The environment variables are a record, and \<open>sha256\<close>, the hash function on the whole
  input, is a parameter, as are \<open>json.dumps\<close>, the clock and the process and object ids in the name of
  the temporary file.
\<close>

section \<open>Paths and files\<close>

type_synonym path = "string \<times> string list"

definition mk_path :: "string \<Rightarrow> path" where
  "mk_path s =
     ((if startswith s ''//'' \<and> \<not> startswith s ''///'' then ''//'' else if startswith s ''/'' then ''/'' else []),
      filter (\<lambda>x. x \<noteq> [] \<and> x \<noteq> ''.'') (split_on CHR ''/'' s))"

text \<open>\<open>p / s\<close>, \<open>str(p)\<close> and \<open>p.suffix\<close>.\<close>

definition subpath :: "path \<Rightarrow> string \<Rightarrow> path" where
  "subpath p s = (case mk_path s of (r, xs) \<Rightarrow> if r \<noteq> [] then (r, xs) else (fst p, snd p @ xs))"

definition path_str :: "path \<Rightarrow> string" where
  "path_str p = (if fst p = [] \<and> snd p = [] then ''.'' else fst p @ join ''/'' (snd p))"

definition suffix_of :: "path \<Rightarrow> string" where
  "suffix_of p =
     (if snd p = [] then []
      else let name = last (snd p) in
           if CHR ''.'' \<in> set name \<and> rbefore CHR ''.'' name \<noteq> [] \<and> rafter CHR ''.'' name \<noteq> []
           then CHR ''.'' # rafter CHR ''.'' name else [])"

datatype fnode = Dir | File string

type_synonym fs = "(path \<times> fnode) list"

definition exists_path :: "path \<Rightarrow> fs \<Rightarrow> bool" where
  "exists_path p fs = (map_of fs p \<noteq> None)"

definition read_file :: "path \<Rightarrow> fs \<Rightarrow> string res" where
  "read_file p fs =
     (case map_of fs p of
        Some (File b) \<Rightarrow> Inr b
      | Some Dir \<Rightarrow> Inl (Exc ''IsADirectoryError'' (path_str p))
      | None \<Rightarrow> Inl (Exc ''FileNotFoundError'' (path_str p)))"

text \<open>\<open>p.open('a')\<close> and one write.\<close>

definition append_file :: "path \<Rightarrow> string \<Rightarrow> fs \<Rightarrow> fs res" where
  "append_file p line fs =
     (case map_of fs p of
        Some Dir \<Rightarrow> Inl (Exc ''IsADirectoryError'' (path_str p))
      | Some (File b) \<Rightarrow> Inr (dset p (File (b @ line)) fs)
      | None \<Rightarrow> Inr (dset p (File line) fs))"

text \<open>\<open>p.mkdir(parents=True, exist_ok=True)\<close>: the missing ancestors are made, a file in the way raises.\<close>

fun mkdirs :: "path list \<Rightarrow> fs \<Rightarrow> fs res" where
  "mkdirs [] fs = Inr fs"
| "mkdirs (p # ps) fs =
     (case map_of fs p of
        None \<Rightarrow> mkdirs ps (dset p Dir fs)
      | Some Dir \<Rightarrow> mkdirs ps fs
      | Some (File _) \<Rightarrow> Inl (Exc (if ps = [] then ''FileExistsError'' else ''NotADirectoryError'') (path_str p)))"

definition ancestors :: "path \<Rightarrow> path list" where
  "ancestors p = map (\<lambda>n. (fst p, take n (snd p))) [1..<Suc (length (snd p))]"


section \<open>Environment\<close>

record environ =
  esrd_home_var :: "string option"
  home_esrd :: string
  esr_instance :: "string option"
  esrd_host_port :: "string option"

definition esrd_home :: "environ \<Rightarrow> path" where
  "esrd_home e = mk_path (case esrd_home_var e of Some h \<Rightarrow> h | None \<Rightarrow> home_esrd e)"

definition env_name :: "environ \<Rightarrow> string" where
  "env_name e = (case esr_instance e of Some i \<Rightarrow> i | None \<Rightarrow> ''default'')"

definition host_port :: "environ \<Rightarrow> string" where
  "host_port e = (case esrd_host_port e of Some h \<Rightarrow> h | None \<Rightarrow> ''localhost:4001'')"

definition resource_dir :: "environ \<Rightarrow> string \<Rightarrow> path" where
  "resource_dir e media_type = subpath (subpath (subpath (esrd_home e) (env_name e)) ''resources'') media_type"

definition resource_error :: "string \<Rightarrow> py_exc" where
  "resource_error m = Exc ''EsrResourceError'' m"

definition ALLOWED_EXTS :: "(string \<times> string list) list" where
  "ALLOWED_EXTS =
     [(''image'', [''png'', ''jpg'', ''jpeg'', ''gif'', ''webp'', ''heic'']),
      (''file'', [''bin'', ''pdf'', ''doc'', ''docx'', ''xls'', ''xlsx'', ''zip'', ''txt'', ''md'', ''csv'']),
      (''audio'', [''opus'', ''mp3'', ''wav'', ''m4a'', ''aac''])]"

definition validate_media_type_and_ext :: "string \<Rightarrow> string \<Rightarrow> unit res" where
  "validate_media_type_and_ext media_type ext =
     (case map_of ALLOWED_EXTS media_type of
        None \<Rightarrow> Inl (resource_error (''unsupported_ext: unknown media_type '' @ repr_str media_type))
      | Some exts \<Rightarrow>
          if ext \<in> set exts then Inr ()
          else Inl (resource_error (''unsupported_ext: ext '' @ repr_str ext @
                 '' not in allowlist for media_type '' @ repr_str media_type)))"


section \<open>Resolve and store\<close>

definition resource_path :: "environ \<Rightarrow> string \<Rightarrow> string \<Rightarrow> string \<Rightarrow> path" where
  "resource_path e media_type sha ext = subpath (resource_dir e media_type) (sha @ ''.'' @ ext)"

definition resolve :: "environ \<Rightarrow> fs \<Rightarrow> string \<Rightarrow> path res" where
  "resolve e fs uri =
     (case parse_resource uri of
        Inl err \<Rightarrow> Inl (resource_error (''invalid_uri: '' @ exc_msg err))
      | Inr parsed \<Rightarrow>
          if res_env parsed \<noteq> None \<and> res_env parsed \<noteq> Some (env_name e)
          then Inl (resource_error (''wrong_env: uri claims '' @ repr_str (the (res_env parsed)) @
                 '' but local is '' @ repr_str (env_name e)))
          else
            let p = resource_path e (res_media_type parsed) (res_sha256 parsed) (res_ext parsed)
            in if exists_path p fs then Inr p else Inl (resource_error (''not_found: '' @ path_str p)))"

text \<open>The read loop: chunks of 65536 bytes into the hash, or into the copy.\<close>

definition CHUNK :: nat where
  "CHUNK = 65536"

function read_chunks :: "string \<Rightarrow> string \<Rightarrow> string" where
  "read_chunks rest acc = (if rest = [] then acc else read_chunks (drop CHUNK rest) (acc @ take CHUNK rest))"
  by pat_completeness auto
termination
  by (relation "measure (\<lambda>(rest, _). length rest)") (auto simp: CHUNK_def)

declare read_chunks.simps [simp del]

definition lstrip_dots :: "string \<Rightarrow> string" where
  "lstrip_dots s = lstrip_char CHR ''.'' s"

definition ext_of :: "path \<Rightarrow> string" where
  "ext_of src = (let x = lower (lstrip_dots (suffix_of src)) in if x = [] then ''bin'' else x)"

definition copy_if_absent :: "path \<Rightarrow> path \<Rightarrow> string \<Rightarrow> fs \<Rightarrow> fs" where
  "copy_if_absent dest tmp content fs =
     (if exists_path dest fs then fs
      else let fs1 = dset tmp (File (read_chunks content [])) fs
           in dset dest (the (map_of fs1 tmp)) (ddel tmp fs1))"

definition store ::
  "(string \<Rightarrow> string) \<Rightarrow> (py_val \<Rightarrow> string res) \<Rightarrow> string \<Rightarrow> nat \<Rightarrow> nat \<Rightarrow> environ \<Rightarrow>
   string \<Rightarrow> string \<Rightarrow> py_kvs \<Rightarrow> fs \<Rightarrow> py_kvs res \<times> fs"
where
  "store sha256 json_dumps now pid ident e media_type source_path ref_meta fs =
     (let src = mk_path source_path; ext = ext_of src in
      if \<not> exists_path src fs then (Inl (resource_error (''source_not_found: '' @ path_str src)), fs)
      else (case rbind (validate_media_type_and_ext media_type ext) (\<lambda>_. read_file src fs) of
        Inl err \<Rightarrow> (Inl err, fs)
      | Inr content \<Rightarrow>
          let sha = sha256 (read_chunks content []);
              target_dir = resource_dir e media_type;
              dest = subpath target_dir (sha @ ''.'' @ ext);
              tmp = subpath target_dir (sha @ ''.'' @ ext @ ''.tmp.'' @ show_nat pid @ ''.'' @ show_nat ident)
          in case mkdirs (ancestors target_dir) fs of
               Inl err \<Rightarrow> (Inl err, fs)
             | Inr fs1 \<Rightarrow>
                 let fs2 = copy_if_absent dest tmp content fs1 in
                 (case rbind (json_dumps (PyDict (dset (PyStr ''received_at'') (PyStr now) ref_meta)))
                         (\<lambda>line. append_file (subpath target_dir (sha @ ''.refs.jsonl'')) (line @ [char_of (10 :: nat)]) fs2) of
                    Inl err \<Rightarrow> (Inl err, fs2)
                  | Inr fs3 \<Rightarrow>
                      (rbind (build_resource media_type sha ext (Some (env_name e)) (host_port e)) (\<lambda>uri.
                         Inr (mkdict [(''uri'', PyStr uri), (''sha256'', PyStr sha), (''path'', PyStr (path_str dest))])), fs3))))"

section \<open>Phasers\<close>

text \<open>\<open>base64.b64encode\<close>.\<close>

definition b64_char :: "nat \<Rightarrow> char" where
  "b64_char n =
     (if n < 26 then char_of (65 + n)
      else if n < 52 then char_of (71 + n)
      else if n < 62 then char_of (n - 4)
      else if n = 62 then CHR ''+'' else CHR ''/'')"

fun b64encode :: "string \<Rightarrow> string" where
  "b64encode [] = []"
| "b64encode [a] = (let x = of_char a in [b64_char (x div 4), b64_char (x mod 4 * 16), CHR ''='', CHR ''=''])"
| "b64encode [a, b] =
     (let x = of_char a; y = of_char b
      in [b64_char (x div 4), b64_char (x mod 4 * 16 + y div 16), b64_char (y mod 16 * 4), CHR ''=''])"
| "b64encode (a # b # c # rest) =
     (let x = of_char a; y = of_char b; z = of_char c
      in [b64_char (x div 4), b64_char (x mod 4 * 16 + y div 16), b64_char (y mod 16 * 4 + z div 64), b64_char (z mod 64)]
         @ b64encode rest)"

definition MIME :: "(string \<times> string) list" where
  "MIME = [(''png'', ''image/png''), (''jpg'', ''image/jpeg''), (''jpeg'', ''image/jpeg''), (''gif'', ''image/gif''),
     (''webp'', ''image/webp''), (''heic'', ''image/heic'')]"

datatype rendering = OutPath path | OutBytes string | OutText string

definition image_phaser :: "fs \<Rightarrow> string \<Rightarrow> string \<Rightarrow> string \<Rightarrow> rendering res" where
  "image_phaser fs kind val target =
     (if kind \<noteq> ''path'' then Inl (value_error (''unsupported_input_format: '' @ kind))
      else let p = mk_path val in
           if target = ''path'' then Inr (OutPath p)
           else if target = ''bytes'' then rbind (read_file p fs) (\<lambda>b. Inr (OutBytes b))
           else if target = ''base64_data_url'' then
             let ext = lower (lstrip_dots (suffix_of p));
                 mime = (case map_of MIME ext of Some m \<Rightarrow> m | None \<Rightarrow> ''application/octet-stream'')
             in rbind (read_file p fs) (\<lambda>b. Inr (OutText (''data:'' @ mime @ '';base64,'' @ b64encode b)))
           else Inl (value_error (''unsupported_target: '' @ target)))"

definition INLINE_TEXT_MAX :: nat where
  "INLINE_TEXT_MAX = 100000"

text \<open>\<open>read_text\<close> is how a file's bytes become text (decoding and newlines), or raise.\<close>

definition file_phaser :: "(string \<Rightarrow> string res) \<Rightarrow> fs \<Rightarrow> string \<Rightarrow> string \<Rightarrow> string \<Rightarrow> rendering res" where
  "file_phaser read_text fs kind val target =
     (if kind \<noteq> ''path'' then Inl (value_error (''unsupported_input_format: '' @ kind))
      else let p = mk_path val in
           if target = ''path'' then Inr (OutPath p)
           else if target = ''bytes'' then rbind (read_file p fs) (\<lambda>b. Inr (OutBytes b))
           else if target = ''inline_text'' then
             rbind (read_file p fs) (\<lambda>b.
               if length b > INLINE_TEXT_MAX then Inl (value_error ''too_large_for_inline'')
               else rbind (read_text b) (\<lambda>t. Inr (OutText t)))
           else Inl (value_error (''unsupported_target: '' @ target)))"

definition registered_media_types :: "string list" where
  "registered_media_types = [''image'', ''file'']"

definition transform :: "(string \<Rightarrow> string res) \<Rightarrow> environ \<Rightarrow> fs \<Rightarrow> string \<Rightarrow> string \<Rightarrow> rendering res" where
  "transform read_text e fs uri target =
     rbind (parse_resource uri) (\<lambda>parsed.
     rbind (resolve e fs uri) (\<lambda>p.
       if res_media_type parsed = ''image'' then image_phaser fs ''path'' (path_str p) target
       else if res_media_type parsed = ''file'' then file_phaser read_text fs ''path'' (path_str p) target
       else Inl (value_error (''no_phaser_for_media_type: '' @ res_media_type parsed))))"


section \<open>Lemmas on paths\<close>

lemma mk_path_parts: "x \<in> set (snd (mk_path s)) \<Longrightarrow> x \<noteq> [] \<and> x \<noteq> ''.'' \<and> CHR ''/'' \<notin> set x"
  by (auto simp: mk_path_def dest: split_on_no_sep)

lemma not_startswith_slash: "CHR ''/'' \<notin> set x \<Longrightarrow> x \<noteq> [] \<Longrightarrow> startswith (x @ y) (CHR ''/'' # z) = False"
  by (cases x) auto

lemma mk_path_name: "s \<noteq> [] \<Longrightarrow> s \<noteq> ''.'' \<Longrightarrow> CHR ''/'' \<notin> set s \<Longrightarrow> mk_path s = ([], [s])"
  using not_startswith_slash [of s "[]"] by (simp add: mk_path_def split_on_absent)

lemma subpath_name: "s \<noteq> [] \<Longrightarrow> s \<noteq> ''.'' \<Longrightarrow> CHR ''/'' \<notin> set s \<Longrightarrow> subpath p s = (fst p, snd p @ [s])"
  by (simp add: subpath_def mk_path_name)

text \<open>Paths as \<open>pathlib\<close> makes them, which \<open>str\<close> and \<open>Path\<close> carry back and forth.\<close>

definition wf_path :: "path \<Rightarrow> bool" where
  [inv_simps]: "wf_path p \<longleftrightarrow> fst p \<in> {[], ''/'', ''//''} \<and>
     (\<forall>x\<in>set (snd p). x \<noteq> [] \<and> x \<noteq> ''.'' \<and> CHR ''/'' \<notin> set x)"

lemma wf_mk_path: "wf_path (mk_path s)"
  using mk_path_parts [of _ s] by (auto simp: wf_path_def mk_path_def)

lemma wf_subpath: "wf_path p \<Longrightarrow> wf_path (subpath p s)"
proof -
  assume p: "wf_path p"
  obtain r xs where m: "mk_path s = (r, xs)" by fastforce
  from p wf_mk_path [of s] show ?thesis unfolding subpath_def m wf_path_def by (simp add: ball_Un) blast
qed

lemma mk_path_str:
  assumes "wf_path p"
  shows "mk_path (path_str p) = p"
proof -
  obtain r xs where p: "p = (r, xs)" by (cases p)
  have xs: "x \<noteq> [] \<and> x \<noteq> ''.'' \<and> CHR ''/'' \<notin> set x" if "x \<in> set xs" for x using assms p that by (simp add: wf_path_def)
  have r: "r = [] \<or> r = ''/'' \<or> r = ''//''" using assms p by (auto simp: wf_path_def)
  have f: "filter (\<lambda>x. x \<noteq> [] \<and> x \<noteq> ''.'') xs = xs" using xs by (auto simp: filter_id_conv)
  have sp: "split_on CHR ''/'' (join ''/'' xs) = (if xs = [] then [[]] else xs)"
    using split_on_join [of xs "CHR ''/''"] xs by auto
  have ns: "\<not> startswith (join ''/'' xs) (CHR ''/'' # z)" for z
  proof (cases xs)
    case (Cons x ys)
    with xs not_startswith_slash [of x] not_startswith_slash [of x "[]"] show ?thesis by (cases ys) auto
  qed simp
  show ?thesis
    using r f sp ns by (auto simp: p path_str_def mk_path_def)
qed

section \<open>Base64\<close>

text \<open>A decoder, to state that the encoding loses nothing.\<close>

definition b64_val :: "char \<Rightarrow> nat" where
  "b64_val c =
     (let n = of_char c :: nat in
      if 65 \<le> n \<and> n \<le> 90 then n - 65
      else if 97 \<le> n \<and> n \<le> 122 then n - 71
      else if 48 \<le> n \<and> n \<le> 57 then n + 4
      else if n = 43 then 62 else 63)"

fun b64decode :: "string \<Rightarrow> string res" where
  "b64decode [] = Inr []"
| "b64decode (a # b # c # d # rest) =
     (let x = b64_val a * 4 + b64_val b div 16;
          y = b64_val b mod 16 * 16 + b64_val c div 4;
          z = b64_val c mod 4 * 64 + b64_val d
      in if c = CHR ''='' then Inr [char_of x]
         else if d = CHR ''='' then Inr [char_of x, char_of y]
         else rbind (b64decode rest) (\<lambda>s. Inr (char_of x # char_of y # char_of z # s)))"
| "b64decode _ = Inl (value_error ''Incorrect padding'')"

lemma b64_char_props:
  assumes "n < 64"
  shows "b64_val (b64_char n) = n" "b64_char n \<noteq> CHR ''=''"
proof -
  consider "n < 26" | "26 \<le> n" "n < 52" | "52 \<le> n" "n < 62" | "n = 62" | "n = 63" using assms by linarith
  then show "b64_val (b64_char n) = n" by cases (auto simp: b64_char_def b64_val_def Let_def)
  have "of_char (b64_char n) \<noteq> (61 :: nat)" using assms by (auto simp: b64_char_def)
  then show "b64_char n \<noteq> CHR ''=''" by auto
qed

lemma pack_div_mod: "(b :: nat) < k \<Longrightarrow> (a * k + b) div k = a" "(b :: nat) < k \<Longrightarrow> (a * k + b) mod k = b"
  by simp_all

lemma b64_three:
  fixes x y z :: nat
  assumes "x < 256" "y < 256" "z < 256"
  shows "x div 4 < 64" "x mod 4 * 16 + y div 16 < 64" "y mod 16 * 4 + z div 64 < 64" "z mod 64 < 64"
    "x mod 4 * 16 < 64" "y mod 16 * 4 < 64"
    "x div 4 * 4 + (x mod 4 * 16 + y div 16) div 16 = x" "x div 4 * 4 + (x mod 4 * 16) div 16 = x"
    "(x mod 4 * 16 + y div 16) mod 16 * 16 + (y mod 16 * 4 + z div 64) div 4 = y"
    "(x mod 4 * 16 + y div 16) mod 16 * 16 + (y mod 16 * 4) div 4 = y"
    "(y mod 16 * 4 + z div 64) mod 4 * 64 + z mod 64 = z"
proof -
  have y: "y div 16 < 16" and z: "z div 64 < 4" and x: "x div 4 < 64" using assms by auto
  have m: "x mod 4 < 4" "y mod 16 < 16" "z mod 64 < 64" by simp_all
  show "x div 4 < 64" by (rule x)
  show "z mod 64 < 64" "x mod 4 * 16 < 64" "y mod 16 * 4 < 64" using m by simp_all
  show "x mod 4 * 16 + y div 16 < 64" "y mod 16 * 4 + z div 64 < 64" using m y z by linarith+
  show "x div 4 * 4 + (x mod 4 * 16 + y div 16) div 16 = x" "x div 4 * 4 + (x mod 4 * 16) div 16 = x"
    by (simp_all add: pack_div_mod [OF y])
  show "(x mod 4 * 16 + y div 16) mod 16 * 16 + (y mod 16 * 4 + z div 64) div 4 = y"
    "(x mod 4 * 16 + y div 16) mod 16 * 16 + (y mod 16 * 4) div 4 = y"
    using mod_less [OF y] by (simp_all add: pack_div_mod [OF y] pack_div_mod [OF z])
  show "(y mod 16 * 4 + z div 64) mod 4 * 64 + z mod 64 = z" using mod_less [OF z] by (simp add: pack_div_mod [OF z])
qed

interpretation base64: codec b64encode b64decode "\<lambda>_. True"
proof
  fix s :: string
  have lt: "of_char c < (256 :: nat)" for c :: char by simp
  show "b64decode (b64encode s) = Inr s"
  proof (induction s rule: b64encode.induct)
    case (2 a)
    show ?case using b64_three [OF lt [of a] lt [of a] lt [of a]] by (simp add: Let_def b64_char_props)
  next
    case (3 a b)
    show ?case using b64_three [OF lt [of a] lt [of b] lt [of b]] by (simp add: Let_def b64_char_props)
  next
    case (4 a b c rest)
    then show ?case using b64_three [OF lt [of a] lt [of b] lt [of c]]
      by (simp add: Let_def b64_char_props)
  qed simp
qed

section \<open>The store\<close>

lemma read_chunks_all: "read_chunks rest acc = acc @ rest"
  by (induction rest acc rule: read_chunks.induct) (simp add: read_chunks.simps)

lemma ALLOWED_EXTS_same: "ALLOWED_EXTS = allowed_exts"
  by (simp add: ALLOWED_EXTS_def allowed_exts_def)

definition allowed_kind :: "string \<Rightarrow> string \<Rightarrow> bool" where
  "allowed_kind mt ext \<longleftrightarrow> (\<exists>exts. map_of allowed_exts mt = Some exts \<and> ext \<in> set exts)"

lemma validate_iff: "validate_media_type_and_ext mt ext = Inr u \<longleftrightarrow> allowed_kind mt ext"
  by (auto simp: validate_media_type_and_ext_def allowed_kind_def ALLOWED_EXTS_same split: option.splits)

lemma allowed_kind_clean:
  assumes "allowed_kind mt ext"
  shows "mt \<noteq> []" "mt \<noteq> ''.''" "CHR ''/'' \<notin> set mt" "CHR ''/'' \<notin> set ext" "CHR ''.'' \<notin> set ext" "ext \<noteq> []"
  using assms by (auto simp: allowed_kind_def allowed_exts_def split: if_splits)

lemma sha_clean: "is_sha256_hex sha \<Longrightarrow> CHR ''/'' \<notin> set sha \<and> CHR ''.'' \<notin> set sha \<and> sha \<noteq> []"
  by (auto simp: is_sha256_hex_def list_all_iff is_lower_hex_def)

text \<open>An instance name and host that a resource URI can carry; the defaults are such.\<close>

definition wf_environ :: "environ \<Rightarrow> bool" where
  "wf_environ e \<longleftrightarrow> env_name e \<noteq> [] \<and> env_name e \<noteq> ''.'' \<and>
     (\<exists>h p. wf_parts h (Some (env_name e)) \<and> (host_port e = h \<or> host_port e = h @ '':'' @ show_int p))"

text \<open>The files of a media directory: a hash, a dot and whatever follows.\<close>

lemma resource_dir_parts:
  assumes "allowed_kind mt ext"
  shows "resource_dir e mt = (fst (resource_dir e mt),
    snd (subpath (esrd_home e) (env_name e)) @ [''resources'', mt])"
  using allowed_kind_clean [OF assms] by (simp add: resource_dir_def subpath_name)

lemma resource_file:
  assumes "is_sha256_hex sha" "CHR ''/'' \<notin> set x"
  shows "subpath d (sha @ CHR ''.'' # x) = (fst d, snd d @ [sha @ CHR ''.'' # x])"
proof (rule subpath_name)
  have "length (sha @ CHR ''.'' # x) > 1" using assms(1) by (simp add: is_sha256_hex_def)
  then show "sha @ CHR ''.'' # x \<noteq> ''.''" by (metis less_numeral_extra(4) list.size(3) length_Cons One_nat_def)
qed (use assms sha_clean [OF assms(1)] in auto)

lemma sha_name_inj:
  assumes "is_sha256_hex s" "is_sha256_hex t"
  shows "s @ CHR ''.'' # x = t @ CHR ''.'' # y \<longleftrightarrow> s = t \<and> x = y"
  using sha_clean [OF assms(1)] sha_clean [OF assms(2)] by (metis after_append before_append)

text \<open>Every stored file has the hash it is named by.\<close>

definition media_inv :: "(string \<Rightarrow> string) \<Rightarrow> environ \<Rightarrow> fs \<Rightarrow> bool" where
  [inv_simps]: "media_inv sha256 e fs \<longleftrightarrow>
     (\<forall>mt sha ext n. is_sha256_hex sha \<and> allowed_kind mt ext \<and> map_of fs (resource_path e mt sha ext) = Some n \<longrightarrow>
        (\<exists>b. n = File b \<and> sha256 b = sha))"

lemma mkdirs_frame:
  "mkdirs ps fs = Inr fs' \<Longrightarrow> map_of fs' q = (if map_of fs q = None \<and> q \<in> set ps then Some Dir else map_of fs q)"
  by (induction ps arbitrary: fs) (auto split: option.splits fnode.splits if_splits)

lemma not_ancestor:
  assumes "is_sha256_hex sha" "allowed_kind mt ext" "allowed_kind mt' ext'"
  shows "resource_path e mt sha ext \<notin> set (ancestors (resource_dir e mt'))"
proof
  assume "resource_path e mt sha ext \<in> set (ancestors (resource_dir e mt'))"
  then have "length (snd (resource_path e mt sha ext)) \<le> length (snd (resource_dir e mt'))"
    by (auto simp: ancestors_def)
  moreover have "length (snd (resource_dir e mt')) = length (snd (resource_dir e mt))"
    by (subst resource_dir_parts [OF assms(2)], subst resource_dir_parts [OF assms(3)]) simp
  ultimately show False
    using assms(1) allowed_kind_clean [OF assms(2)] by (simp add: resource_path_def resource_file)
qed

lemma resource_path_inj:
  assumes "is_sha256_hex sha" "is_sha256_hex sha'" "allowed_kind mt ext" "allowed_kind mt' ext'" "CHR ''/'' \<notin> set x"
  shows "subpath (resource_dir e mt) (sha @ ''.'' @ x) = resource_path e mt' sha' ext' \<longleftrightarrow>
    mt = mt' \<and> sha = sha' \<and> x = ext'"
proof -
  note d = resource_dir_parts [OF assms(3), of e] resource_dir_parts [OF assms(4), of e]
  have f: "fst (resource_dir e mt) = fst (resource_dir e mt')"
    using allowed_kind_clean [OF assms(3)] allowed_kind_clean [OF assms(4)] by (simp add: resource_dir_def subpath_name)
  have "snd (resource_dir e mt) = snd (resource_dir e mt') \<longleftrightarrow> mt = mt'" by (subst d(1), subst d(2)) simp
  with f show ?thesis
    using assms sha_name_inj [OF assms(1,2), of x ext'] allowed_kind_clean [OF assms(4)]
    by (auto simp: resource_path_def resource_file)
qed

lemma copy_frame:
  "map_of (copy_if_absent dest tmp content fs) q =
     (if q = dest \<and> map_of fs dest = None then Some (File content)
      else if q = tmp \<and> map_of fs dest = None then None else map_of fs q)"
  by (simp add: copy_if_absent_def exists_path_def read_chunks_all map_of_ddel Let_def)

lemma append_frame:
  "append_file p line fs = Inr fs' \<Longrightarrow> q \<noteq> p \<Longrightarrow> map_of fs' q = map_of fs q"
  by (auto simp: append_file_def split: option.splits fnode.splits)

definition dest_of :: "environ \<Rightarrow> string \<Rightarrow> string \<Rightarrow> string \<Rightarrow> path" where
  "dest_of e mt sha x = subpath (resource_dir e mt) (sha @ CHR ''.'' # x)"

definition tmp_ext :: "string \<Rightarrow> nat \<Rightarrow> nat \<Rightarrow> string" where
  "tmp_ext ext pid ident = ext @ ''.tmp.'' @ show_nat pid @ ''.'' @ show_nat ident"

text \<open>What a call of \<open>store\<close> does to the file system, on success and on failure.\<close>

definition stored :: "environ \<Rightarrow> string \<Rightarrow> string \<Rightarrow> string \<Rightarrow> nat \<Rightarrow> nat \<Rightarrow> string \<Rightarrow> fs \<Rightarrow> fs \<Rightarrow> bool" where
  "stored e mt sha ext pid ident content fs fs2 \<longleftrightarrow>
     (\<exists>fs1. mkdirs (ancestors (resource_dir e mt)) fs = Inr fs1 \<and>
        fs2 = copy_if_absent (dest_of e mt sha ext) (dest_of e mt sha (tmp_ext ext pid ident)) content fs1)"

lemma store_effect:
  assumes "store sha256 dumps now pid ident e mt source meta fs = (r, fs')"
  shows "(\<not> is_ok r \<and> fs' = fs) \<or>
    (\<exists>content fs2. let src = mk_path source; ext = ext_of src; sha = sha256 content in
       allowed_kind mt ext \<and> map_of fs src = Some (File content) \<and> stored e mt sha ext pid ident content fs fs2 \<and>
       ((\<not> is_ok r \<and> fs' = fs2) \<or>
        (\<exists>line. append_file (dest_of e mt sha ''refs.jsonl'') line fs2 = Inr fs' \<and>
           r = rbind (build_resource mt sha ext (Some (env_name e)) (host_port e)) (\<lambda>uri.
             Inr (mkdict [(''uri'', PyStr uri), (''sha256'', PyStr sha), (''path'', PyStr (path_str (dest_of e mt sha ext)))])))))"
proof -
  let ?src = "mk_path source"
  let ?ext = "ext_of ?src"
  show ?thesis
  proof (cases "rbind (validate_media_type_and_ext mt ?ext) (\<lambda>_. read_file ?src fs)")
    case (Inl err)
    with assms show ?thesis by (auto simp: store_def Let_def split: if_splits)
  next
    case (Inr content)
    then have c: "allowed_kind mt ?ext" "map_of fs ?src = Some (File content)"
      by (auto simp: rbind_Inr_iff validate_iff read_file_def split: option.splits fnode.splits)
    let ?sha = "sha256 content"
    let ?fs2 = "copy_if_absent (dest_of e mt ?sha ?ext) (dest_of e mt ?sha (tmp_ext ?ext pid ident)) content"
    let ?meta = "PyDict (dset (PyStr ''received_at'') (PyStr now) meta)"
    note simps = store_def Let_def exists_path_def dest_of_def tmp_ext_def read_chunks_all
    show ?thesis
    proof (cases "mkdirs (ancestors (resource_dir e mt)) fs")
      case (Inl err)
      with assms Inr c(2) have "r = Inl err" "fs' = fs" by (simp_all add: simps)
      then show ?thesis by simp
    next
      case m: (Inr fs1)
      then have st: "stored e mt ?sha ?ext pid ident content fs (?fs2 fs1)" by (auto simp: stored_def)
      show ?thesis
      proof (cases "rbind (dumps ?meta)
          (\<lambda>line. append_file (dest_of e mt ?sha ''refs.jsonl'') (line @ [char_of (10 :: nat)]) (?fs2 fs1))")
        case err: (Inl err)
        with assms Inr c(2) m have "r = Inl err" "fs' = ?fs2 fs1" by (simp_all add: simps)
        with c st show ?thesis by (auto simp: Let_def)
      next
        case ok: (Inr fs3)
        with assms Inr c(2) m have "fs' = fs3 \<and> r = rbind (build_resource mt ?sha ?ext (Some (env_name e)) (host_port e)) (\<lambda>uri.
          Inr (mkdict [(''uri'', PyStr uri), (''sha256'', PyStr ?sha), (''path'', PyStr (path_str (dest_of e mt ?sha ?ext)))]))"
          by (simp add: simps)
        with c st ok show ?thesis by (auto simp: Let_def rbind_Inr_iff)
      qed
    qed
  qed
qed

lemma store_cases:
  assumes "store sha256 dumps now pid ident e mt source meta fs = (r, fs')"
  obtains (refused) "\<not> is_ok r" "fs' = fs"
  | (effect) content fs2 where "allowed_kind mt (ext_of (mk_path source))" "map_of fs (mk_path source) = Some (File content)"
    "stored e mt (sha256 content) (ext_of (mk_path source)) pid ident content fs fs2"
    "fs' = fs2 \<or> (\<exists>line. append_file (dest_of e mt (sha256 content) ''refs.jsonl'') line fs2 = Inr fs')"
    "is_ok r \<longrightarrow> (\<exists>line. append_file (dest_of e mt (sha256 content) ''refs.jsonl'') line fs2 = Inr fs') \<and>
       (\<exists>uri. build_resource mt (sha256 content) (ext_of (mk_path source)) (Some (env_name e)) (host_port e) = Inr uri \<and>
          r = Inr (mkdict [(''uri'', PyStr uri), (''sha256'', PyStr (sha256 content)),
            (''path'', PyStr (path_str (dest_of e mt (sha256 content) (ext_of (mk_path source)))))]))"
  using store_effect [OF assms] unfolding Let_def
proof (elim disjE conjE exE)
  fix content fs2 line
  assume k: "allowed_kind mt (ext_of (mk_path source))" "map_of fs (mk_path source) = Some (File content)"
    "stored e mt (sha256 content) (ext_of (mk_path source)) pid ident content fs fs2"
    and a: "append_file (dest_of e mt (sha256 content) ''refs.jsonl'') line fs2 = Inr fs'"
    and r: "r = rbind (build_resource mt (sha256 content) (ext_of (mk_path source)) (Some (env_name e)) (host_port e)) (\<lambda>uri.
      Inr (mkdict [(''uri'', PyStr uri), (''sha256'', PyStr (sha256 content)),
        (''path'', PyStr (path_str (dest_of e mt (sha256 content) (ext_of (mk_path source)))))]))"
  show thesis
    by (rule effect [OF k])
       (use a r in \<open>auto simp: is_ok_iff rbind_Inr_iff\<close>)
qed (use refused effect in blast)+

lemma media_inv_stored:
  assumes "media_inv sha256 e fs" "stored e mt (sha256 content) ext pid ident content fs fs2"
    "allowed_kind mt ext" "is_sha256_hex (sha256 content)"
  shows "media_inv sha256 e fs2"
proof -
  let ?dest = "dest_of e mt (sha256 content) ext"
  obtain fs1 where m: "mkdirs (ancestors (resource_dir e mt)) fs = Inr fs1"
    and c: "fs2 = copy_if_absent ?dest (dest_of e mt (sha256 content) (tmp_ext ext pid ident)) content fs1"
    using assms(2) by (auto simp: stored_def)
  { fix mt' sha' ext' n
    assume a: "is_sha256_hex sha'" "allowed_kind mt' ext'" "map_of fs2 (resource_path e mt' sha' ext') = Some n"
    have fs1: "map_of fs1 (resource_path e mt' sha' ext') = map_of fs (resource_path e mt' sha' ext')"
      using mkdirs_frame [OF m] not_ancestor [OF a(1,2) assms(3)] by simp
    have "\<exists>b. n = File b \<and> sha256 b = sha'"
    proof (cases "resource_path e mt' sha' ext' = ?dest \<and> map_of fs1 ?dest = None")
      case True
      then have "subpath (resource_dir e mt) (sha256 content @ ''.'' @ ext) = resource_path e mt' sha' ext'"
        by (simp add: dest_of_def)
      with resource_path_inj [OF assms(4) a(1) assms(3) a(2), of ext e] allowed_kind_clean [OF assms(3)]
      have "sha256 content = sha'" by simp
      with True a(3) c show ?thesis by (auto simp: copy_frame)
    next
      case False
      with a(3) c have "map_of fs1 (resource_path e mt' sha' ext') = Some n"
        by (auto simp: copy_frame split: if_splits)
      with fs1 assms(1) a show ?thesis by (simp add: media_inv_def)
    qed }
  then show ?thesis unfolding media_inv_def by blast
qed

lemma media_inv_append:
  assumes "media_inv sha256 e fs2" "append_file (dest_of e mt sha ''refs.jsonl'') line fs2 = Inr fs3"
    "allowed_kind mt ext" "is_sha256_hex sha"
  shows "media_inv sha256 e fs3"
proof -
  have "map_of fs3 (resource_path e mt' sha' ext') = map_of fs2 (resource_path e mt' sha' ext')"
    if "is_sha256_hex sha'" "allowed_kind mt' ext'" for mt' sha' ext'
  proof (rule append_frame [OF assms(2)])
    have "CHR ''.'' \<in> set ''refs.jsonl''" "CHR ''/'' \<notin> set ''refs.jsonl''" by simp_all
    moreover have "''refs.jsonl'' \<noteq> ext'" using allowed_kind_clean [OF that(2)] by force
    ultimately show "resource_path e mt' sha' ext' \<noteq> dest_of e mt sha ''refs.jsonl''"
      using resource_path_inj [OF assms(4) that(1) assms(3) that(2), of "''refs.jsonl''" e] by (auto simp: dest_of_def)
  qed
  with assms(1) show ?thesis unfolding media_inv_def by metis
qed

lemma ext_of_lower: "lower (ext_of src) = ext_of src"
proof -
  have "lower ''bin'' = ''bin''" by code_simp
  then show ?thesis by (simp add: ext_of_def Let_def)
qed

lemma parse_stored_uri:
  assumes "build_resource mt sha ext (Some (env_name e)) (host_port e) = Inr uri" "wf_environ e"
  shows "\<exists>h. parse_resource uri = Inr \<lparr>res_media_type = mt, res_sha256 = sha, res_ext = lower ext,
    res_env = Some (env_name e), res_host = h\<rparr>"
proof -
  obtain h p where h: "wf_parts h (Some (env_name e))" "host_port e = h \<or> host_port e = h @ '':'' @ show_int p"
    and n: "norm_org (Some (env_name e)) = Some (env_name e)"
    using assms(2) by (auto simp: wf_environ_def norm_org_def)
  from h(2) show ?thesis
  proof
    assume "host_port e = h"
    with parse_resource_build [of mt sha ext "Some (env_name e)" h uri] assms(1) h(1) n show ?thesis by simp
  next
    assume "host_port e = h @ '':'' @ show_int p"
    with parse_resource_build_port [of mt sha ext "Some (env_name e)" h p uri] assms(1) h(1) n show ?thesis by simp
  qed
qed


lemma append_file_ok: "map_of fs p \<noteq> Some Dir \<Longrightarrow> \<exists>fs'. append_file p line fs = Inr fs'"
  by (auto simp: append_file_def split: option.splits fnode.splits)

text \<open>
  When \<open>store\<close> succeeds: the source is a file of an allowed kind, the directories can be made and the reference
  log is not a directory.
\<close>

lemma store_succeeds:
  assumes "map_of fs (mk_path source) = Some (File content)" "allowed_kind mt (ext_of (mk_path source))"
    "mkdirs (ancestors (resource_dir e mt)) fs = Inr fs1"
    "map_of fs1 (dest_of e mt (sha256 content) ''refs.jsonl'') \<noteq> Some Dir"
    "is_sha256_hex (sha256 content)" "\<And>v. is_ok (dumps v)" "host_port e \<noteq> []"
  shows "is_ok (fst (store sha256 dumps now pid ident e mt source meta fs))"
proof -
  let ?src = "mk_path source"
  let ?ext = "ext_of ?src"
  let ?sha = "sha256 content"
  let ?fs2 = "copy_if_absent (dest_of e mt ?sha ?ext) (dest_of e mt ?sha (tmp_ext ?ext pid ident)) content fs1"
  let ?meta = "PyDict (dset (PyStr ''received_at'') (PyStr now) meta)"
  have v: "rbind (validate_media_type_and_ext mt ?ext) (\<lambda>_. read_file ?src fs) = Inr content"
    using assms(1,2) validate_iff [of mt ?ext "()"] by (simp add: read_file_def)
  obtain line where line: "dumps ?meta = Inr line" using assms(6) [of ?meta] by (auto simp: is_ok_iff)
  have "map_of ?fs2 (dest_of e mt ?sha ''refs.jsonl'') \<noteq> Some Dir" using assms(4) by (simp add: copy_frame)
  then obtain fs3 where a: "append_file (dest_of e mt ?sha ''refs.jsonl'') (line @ [char_of (10 :: nat)]) ?fs2 = Inr fs3"
    using append_file_ok by blast
  obtain uri where "build_resource mt ?sha ?ext (Some (env_name e)) (host_port e) = Inr uri"
    using build_resource_ok [OF is_sha256_hex_match [OF assms(5)], of mt _ ?ext "host_port e" "Some (env_name e)"] assms(2,7)
    unfolding allowed_kind_def ext_of_lower by blast
  with v line a assms(1,3) show ?thesis
    by (simp add: store_def Let_def exists_path_def dest_of_def tmp_ext_def read_chunks_all)
qed


lemma store_media_inv:
  assumes "\<And>b. is_sha256_hex (sha256 b)" "media_inv sha256 e fs"
    "store sha256 json_dumps now pid ident e mt source meta fs = (r, fs')"
  shows "media_inv sha256 e fs'"
  using assms(3)
proof (cases rule: store_cases)
  case refused
  with assms(2) show ?thesis by simp
next
  case (effect content fs2)
  have "media_inv sha256 e fs2" by (rule media_inv_stored [OF assms(2) effect(3,1) assms(1)])
  with effect(4) show ?thesis using media_inv_append [OF _ _ effect(1) assms(1)] by blast
qed

lemma store_resolves:
  assumes "\<And>b. is_sha256_hex (sha256 b)" "media_inv sha256 e fs" "wf_environ e"
    "store sha256 json_dumps now pid ident e mt source meta fs = (Inr d, fs')"
  shows "\<exists>uri b. let p = resource_path e mt (sha256 b) (ext_of (mk_path source)) in
    allowed_kind mt (ext_of (mk_path source)) \<and> dget ''uri'' d = Some (PyStr uri) \<and>
    dget ''path'' d = Some (PyStr (path_str p)) \<and>
    resolve e fs' uri = Inr p \<and> map_of fs' p = Some (File b) \<and> dget ''sha256'' d = Some (PyStr (sha256 b)) \<and>
    (case map_of fs p of None \<Rightarrow> map_of fs (mk_path source) = Some (File b) | Some n \<Rightarrow> n = File b)"
proof -
  let ?ext = "ext_of (mk_path source)"
  obtain content fs2 line uri where k: "allowed_kind mt ?ext" "map_of fs (mk_path source) = Some (File content)"
    and s: "stored e mt (sha256 content) ?ext pid ident content fs fs2"
    and a: "append_file (dest_of e mt (sha256 content) ''refs.jsonl'') line fs2 = Inr fs'"
    and u: "build_resource mt (sha256 content) ?ext (Some (env_name e)) (host_port e) = Inr uri"
    and d: "d = mkdict [(''uri'', PyStr uri), (''sha256'', PyStr (sha256 content)),
      (''path'', PyStr (path_str (dest_of e mt (sha256 content) ?ext)))]"
    using assms(4) by (cases rule: store_cases) (simp_all del: mkdict_simps, blast)
  let ?p = "resource_path e mt (sha256 content) ?ext"
  have p: "?p = dest_of e mt (sha256 content) ?ext" by (simp add: resource_path_def dest_of_def)
  have inv2: "media_inv sha256 e fs2" by (rule media_inv_stored [OF assms(2) s k(1) assms(1)])
  obtain fs1 where m: "mkdirs (ancestors (resource_dir e mt)) fs = Inr fs1"
    and c: "fs2 = copy_if_absent ?p (dest_of e mt (sha256 content) (tmp_ext ?ext pid ident)) content fs1"
    using s by (auto simp: stored_def p)
  have fs1: "map_of fs1 ?p = map_of fs ?p"
    using mkdirs_frame [OF m] not_ancestor [OF assms(1) k(1) k(1)] by simp
  have "CHR ''.'' \<in> set (tmp_ext ?ext pid ident)" "CHR ''/'' \<notin> set (tmp_ext ?ext pid ident)"
    using allowed_kind_clean [OF k(1)] show_nat_digits [of "CHR ''/''"]
    by (auto simp: tmp_ext_def is_digit_def digit_val_def)
  moreover then have "tmp_ext ?ext pid ident \<noteq> ?ext" using allowed_kind_clean [OF k(1)] by force
  ultimately have tmp: "dest_of e mt (sha256 content) (tmp_ext ?ext pid ident) \<noteq> ?p"
    using resource_path_inj [OF assms(1) assms(1) k(1) k(1), of "tmp_ext ?ext pid ident"] by (simp add: dest_of_def)
  have "CHR ''.'' \<in> set ''refs.jsonl''" by simp
  then have refs: "''refs.jsonl'' \<noteq> ?ext" using allowed_kind_clean(5) [OF k(1)] by metis
  have "dest_of e mt (sha256 content) ''refs.jsonl'' \<noteq> ?p"
    using resource_path_inj [OF assms(1) assms(1) k(1) k(1), of "''refs.jsonl''" e] refs
    by (auto simp: dest_of_def)
  then have fs': "map_of fs' ?p = map_of fs2 ?p" using append_frame [OF a] by metis
  have fs2: "map_of fs2 ?p = (if map_of fs ?p = None then Some (File content) else map_of fs ?p)"
    using tmp fs1 by (auto simp: c copy_frame)
  then obtain n where n: "map_of fs2 ?p = Some n" by (cases "map_of fs ?p") auto
  with inv2 k(1) assms(1) obtain b where b: "n = File b" "sha256 b = sha256 content"
    unfolding media_inv_def by blast
  obtain h where "parse_resource uri = Inr \<lparr>res_media_type = mt, res_sha256 = sha256 content, res_ext = ?ext,
      res_env = Some (env_name e), res_host = h\<rparr>"
    using parse_stored_uri [OF u assms(3)] by (auto simp: ext_of_lower)
  then have "resolve e fs' uri = Inr ?p" using n fs' by (simp add: resolve_def exists_path_def)
  with d b n fs' fs2 k p show ?thesis
    unfolding Let_def by (intro exI [of _ uri] exI [of _ b]) (auto split: option.splits)
qed

section \<open>Properties\<close>

text \<open>
  C27. The store is content-addressed: if the hash function yields 64 lowercase hex digits and every stored file
  is named by the hash of its content, then this still holds after any call of \<open>store\<close>, successful or
  not; and a call that is refused for its source, media type or extension changes nothing.
\<close>

theorem store_keeps_content_addressing:
  assumes "\<And>b. is_sha256_hex (sha256 b)" "media_inv sha256 e fs"
    "store sha256 json_dumps now pid ident e mt source meta fs = (r, fs')"
  shows "media_inv sha256 e fs' \<and>
    (\<not> exists_path (mk_path source) fs \<or> \<not> allowed_kind mt (ext_of (mk_path source)) \<longrightarrow> \<not> is_ok r \<and> fs' = fs)"
proof
  show "media_inv sha256 e fs'" by (rule store_media_inv [OF assms])
  show "\<not> exists_path (mk_path source) fs \<or> \<not> allowed_kind mt (ext_of (mk_path source)) \<longrightarrow> \<not> is_ok r \<and> fs' = fs"
    using assms(3) by (cases rule: store_cases) (simp_all add: exists_path_def)
qed

text \<open>
  C28. What is stored can be resolved: a successful \<open>store\<close> returns a URI that \<open>resolve\<close> maps, in the same
  environment, to the returned path; the file there has the returned hash, it is the source's content if
  the path was free, and what was already stored under it otherwise.
\<close>

theorem store_then_resolve:
  assumes "\<And>b. is_sha256_hex (sha256 b)" "media_inv sha256 e fs" "wf_environ e"
    "store sha256 json_dumps now pid ident e mt source meta fs = (Inr d, fs')"
  shows "\<exists>uri p b. dget ''uri'' d = Some (PyStr uri) \<and> dget ''path'' d = Some (PyStr (path_str p)) \<and>
    resolve e fs' uri = Inr p \<and> map_of fs' p = Some (File b) \<and> dget ''sha256'' d = Some (PyStr (sha256 b)) \<and>
    (case map_of fs p of None \<Rightarrow> map_of fs (mk_path source) = Some (File b) | Some n \<Rightarrow> n = File b)"
  using store_resolves [OF assms] unfolding Let_def by blast

definition demo_sha :: "string \<Rightarrow> string" where
  "demo_sha b = replicate 64 CHR ''a''"

definition demo_env :: environ where
  "demo_env = \<lparr>esrd_home_var = Some ''/h'', home_esrd = ''/u/.esrd'', esr_instance = None, esrd_host_port = None\<rparr>"

definition demo_fs :: fs where
  "demo_fs = [(mk_path ''x.PNG'', File ''data'')]"

definition demo_store :: "py_kvs res \<times> fs" where
  "demo_store = store demo_sha (\<lambda>_. Inr ''{}'') ''t'' 1 2 demo_env ''image'' ''x.PNG'' [] demo_fs"

lemma demo_sha_hex: "is_sha256_hex (demo_sha b)"
  by (simp add: demo_sha_def is_sha256_hex_def is_lower_hex_def list_all_iff)

lemma demo_media_inv: "media_inv demo_sha demo_env demo_fs"
proof -
  have "map_of demo_fs (resource_path demo_env mt sha ext) = None" if "is_sha256_hex sha" "allowed_kind mt ext" for mt sha ext
  proof -
    have "snd (resource_path demo_env mt sha ext) = snd (subpath (esrd_home demo_env) (env_name demo_env)) @ [''resources'', mt, sha @ CHR ''.'' # ext]"
      using that allowed_kind_clean [OF that(2)] resource_dir_parts [OF that(2), of demo_env]
      by (simp add: resource_path_def resource_file) (metis append.assoc append_Cons append_Nil snd_conv)
    then have "resource_path demo_env mt sha ext \<noteq> mk_path ''x.PNG''"
      by (auto simp: mk_path_def dest!: arg_cong [where f = "\<lambda>p. length (snd p)"])
    then show ?thesis by (simp add: demo_fs_def)
  qed
  then show ?thesis unfolding media_inv_def by auto
qed

lemma demo_store_ok: "is_ok (fst demo_store)"
proof -
  have d: "mk_path ''x.PNG'' = ([], [''x.PNG''])" "ext_of ([], [''x.PNG'']) = ''png''"
    "ancestors (resource_dir demo_env ''image'') =
       [(''/'', [''h'']), (''/'', [''h'', ''default'']), (''/'', [''h'', ''default'', ''resources'']),
        (''/'', [''h'', ''default'', ''resources'', ''image''])]"
    by code_simp+
  define fs1 where "fs1 = demo_fs @ map (\<lambda>p. (p, Dir)) (ancestors (resource_dir demo_env ''image''))"
  have m: "mkdirs (ancestors (resource_dir demo_env ''image'')) demo_fs = Inr fs1"
    by (simp add: d demo_fs_def fs1_def)
  have "map_of fs1 (dest_of demo_env ''image'' (demo_sha ''data'') ''refs.jsonl'') = None"
    using resource_file [OF demo_sha_hex, of "''refs.jsonl''" _ "''data''"]
    by (simp add: dest_of_def fs1_def d demo_fs_def)
  with d m show ?thesis
    unfolding demo_store_def
    by (intro store_succeeds [OF _ _ m])
       (auto simp: demo_sha_hex demo_fs_def allowed_kind_def allowed_exts_def demo_env_def host_port_def)
qed

theorem store_keeps_content_addressing_witness:
  "media_inv demo_sha demo_env (snd demo_store)"
  using store_keeps_content_addressing [OF demo_sha_hex demo_media_inv, of "\<lambda>_. Inr ''{}''" "''t''" 1 2 "''image''" "''x.PNG''" "[]"]
  by (metis demo_store_def prod.collapse)

lemma demo_wf_environ: "wf_environ demo_env"
proof -
  have "show_int 4001 = ''4001''" by code_simp
  then have "host_port demo_env = ''localhost'' @ '':'' @ show_int 4001"
    by (simp add: demo_env_def host_port_def)
  moreover have "wf_parts ''localhost'' (Some (env_name demo_env))" "env_name demo_env = ''default''"
    by (simp_all add: wf_parts_def demo_env_def env_name_def)
  ultimately show ?thesis unfolding wf_environ_def by (metis list.distinct(1) list.inject)
qed

theorem store_then_resolve_witness:
  "\<exists>d uri p b. fst demo_store = Inr d \<and> dget ''uri'' d = Some (PyStr uri) \<and>
     resolve demo_env (snd demo_store) uri = Inr p \<and> map_of (snd demo_store) p = Some (File b)"
proof -
  obtain d where d: "demo_store = (Inr d, snd demo_store)"
    using demo_store_ok by (metis is_ok_iff prod.collapse)
  from store_then_resolve [OF demo_sha_hex demo_media_inv demo_wf_environ d [unfolded demo_store_def]]
  show ?thesis using d unfolding demo_store_def by (metis fst_conv)
qed

end
