(* ===== verification/Feishu_Parsers.thy ===== *)
theory Feishu_Parsers
  imports ESR_Prelude
begin

text \<open>
  \<^verbatim>\<open>adapters/feishu/src/esr_feishu/parsers.py\<close>: the text of a Feishu message by its type, and the shape of
  inbound message and reaction events.

  A payload is a Python value; every \<open>.get\<close> on something that is not a dictionary raises, as in the
  source. \<open>json.loads\<close> on a string is a parameter. A parser is a function that may raise.
\<close>

section \<open>Values in texts\<close>

text \<open>\<open>d.get(k, v)\<close> on a dictionary, formatted by an f-string or \<open>str\<close>.\<close>

definition get_str :: "string \<Rightarrow> string \<Rightarrow> py_kvs \<Rightarrow> string" where
  "get_str k dflt d = py_str (dget_or k (PyStr dflt) d)"

definition em_dash :: string where
  "em_dash = [char_of (226 :: nat), char_of (128 :: nat), char_of (148 :: nat)]"

definition nonempty :: "string list \<Rightarrow> string list" where
  "nonempty parts = filter (\<lambda>p. p \<noteq> []) parts"

type_synonym parser = "py_val \<Rightarrow> string res"


section \<open>The parsers\<close>

definition parse_text :: parser where
  "parse_text content = rbind (py_get content ''text'' (PyStr [])) (\<lambda>t. Inr (py_str t))"

text \<open>One node of a \<open>post\<close>: what it adds to the parts.\<close>

definition post_node :: "py_val \<Rightarrow> string list" where
  "post_node node =
     (case node of
        PyDict d \<Rightarrow>
          let tag = dget_or ''tag'' (PyStr []) d in
          if tag = PyStr ''text'' \<or> py_truthy (dget_or ''text'' PyNone d) then [get_str ''text'' [] d]
          else if tag = PyStr ''img'' then [''[img: '' @ get_str ''image_key'' [] d @ '']'']
          else if tag = PyStr ''at'' then
            [''@'' @ py_str (dget_or ''user_name'' (dget_or ''user_id'' (PyStr []) d) d)]
          else if tag = PyStr ''a'' then
            [py_str (py_or (dget_or ''text'' (PyStr []) d) (dget_or ''href'' (PyStr []) d))]
          else []
      | _ \<Rightarrow> [])"

definition post_para :: "py_val \<Rightarrow> string list res" where
  "post_para para = rbind (py_iter (py_or para (PyList []))) (\<lambda>nodes. Inr (concat (map post_node nodes)))"

definition parse_post :: parser where
  "parse_post content =
     rbind (py_get content ''title'' (PyStr [])) (\<lambda>title.
     rbind (py_get content ''content'' (PyList [])) (\<lambda>body.
     rbind (py_iter (py_or body (PyList []))) (\<lambda>paras.
     rbind (mapM post_para paras) (\<lambda>parts.
       Inr (join '' '' (nonempty (py_str title # concat parts)))))))"

definition parse_downloadable :: parser where
  "parse_downloadable content =
     rbind (py_get content ''image_key'' PyNone) (\<lambda>image_key.
     rbind (py_get content ''file_key'' (PyStr [])) (\<lambda>fkey.
     rbind (py_get content ''file_name'' PyNone) (\<lambda>name.
       let file_key = py_or image_key fkey
       in Inr (''[file: '' @ py_str (py_or name (py_or file_key (PyStr ''unknown''))) @ '']''))))"

definition parse_sticker :: parser where
  "parse_sticker content = Inr ''[sticker]''"

definition parse_share_chat :: parser where
  "parse_share_chat content =
     rbind (py_get content ''chat_id'' (PyStr [])) (\<lambda>c. Inr (''[chat card: '' @ py_str c @ '']''))"

definition parse_share_user :: parser where
  "parse_share_user content =
     rbind (py_get content ''user_id'' (PyStr [])) (\<lambda>u. Inr (''[user card: '' @ py_str u @ '']''))"

definition parse_location :: parser where
  "parse_location content =
     rbind (py_get content ''name'' (PyStr ''unknown location'')) (\<lambda>name.
     rbind (py_get content ''latitude'' (PyStr [])) (\<lambda>lat.
     rbind (py_get content ''longitude'' (PyStr [])) (\<lambda>lng.
       let coords = (if py_truthy lat \<and> py_truthy lng then '' ('' @ py_str lat @ '', '' @ py_str lng @ '')'' else [])
       in Inr (''[location: '' @ py_str name @ coords @ '']''))))"

text \<open>The title of a card, the text of a \<open>div\<close>: an object with \<open>content\<close>, or a string.\<close>

definition content_or_str :: "py_val \<Rightarrow> string list" where
  "content_or_str v = (case v of PyDict d \<Rightarrow> [get_str ''content'' [] d] | PyStr s \<Rightarrow> [s] | _ \<Rightarrow> [])"

definition button_part :: "py_val \<Rightarrow> string list" where
  "button_part action =
     (case action of
        PyDict a \<Rightarrow>
          let btn = dget_or ''text'' (PyDict []) a;
              label = (case btn of PyDict b \<Rightarrow> get_str ''content'' [] b | v \<Rightarrow> py_str v)
          in [''[button: '' @ label @ '']'']
      | _ \<Rightarrow> [])"

definition card_element :: "py_val \<Rightarrow> string list res" where
  "card_element el =
     (case el of
        PyDict d \<Rightarrow>
          let tag = dget_or ''tag'' (PyStr []) d in
          if tag = PyStr ''text'' \<or> tag = PyStr ''markdown'' then
            Inr [py_str (py_or (dget_or ''text'' PyNone d) (dget_or ''content'' (PyStr []) d))]
          else if tag = PyStr ''div'' then Inr (content_or_str (dget_or ''text'' (PyDict []) d))
          else if tag = PyStr ''action'' then
            rbind (py_iter (py_or (dget_or ''actions'' (PyList []) d) (PyList []))) (\<lambda>actions.
              Inr (concat (map button_part actions)))
          else Inr []
      | _ \<Rightarrow> Inr [])"

definition parse_interactive :: parser where
  "parse_interactive content =
     rbind (py_get content ''header'' (PyDict [])) (\<lambda>header.
     rbind (py_get content ''elements'' (PyList [])) (\<lambda>elements.
       let title = (case header of PyDict h \<Rightarrow> content_or_str (dget_or ''title'' (PyDict []) h) | _ \<Rightarrow> [])
       in rbind (case elements of PyList els \<Rightarrow> mapM card_element els | _ \<Rightarrow> Inr []) (\<lambda>parts.
            let text = join [char_of (10 :: nat)] (nonempty (title @ concat parts))
            in Inr (if text = [] then ''[card]'' else text))))"


section \<open>The registry and its entry\<close>

definition register_parser :: "string list \<Rightarrow> parser \<Rightarrow> (string \<times> parser) list \<Rightarrow> (string \<times> parser) list" where
  "register_parser msg_types fn table = fold (\<lambda>mt d. dset mt fn d) msg_types table"

definition PARSERS :: "(string \<times> parser) list" where
  "PARSERS =
     register_parser [''interactive''] parse_interactive
    (register_parser [''location''] parse_location
    (register_parser [''share_user''] parse_share_user
    (register_parser [''share_chat''] parse_share_chat
    (register_parser [''sticker''] parse_sticker
    (register_parser [''image'', ''file'', ''audio'', ''media''] parse_downloadable
    (register_parser [''post''] parse_post
    (register_parser [''text''] parse_text [])))))))"

definition parse_content :: "py_val \<Rightarrow> py_val \<Rightarrow> string res" where
  "parse_content msg_type content =
     (if \<not> hashable msg_type then Inl (type_error (''unhashable type: '' @ repr_str (type_name msg_type)))
      else (case (case msg_type of PyStr mt \<Rightarrow> map_of PARSERS mt | _ \<Rightarrow> None) of
              None \<Rightarrow> Inr (''['' @ py_str msg_type @ '' message]'')
            | Some parser \<Rightarrow>
                (case parser content of
                   Inr text \<Rightarrow> Inr text
                 | Inl _ \<Rightarrow> Inr (''['' @ py_str msg_type @ '' message '' @ em_dash @ '' parse failed]''))))"


section \<open>Events\<close>

definition DOWNLOADABLE :: "string list" where
  "DOWNLOADABLE = [''image'', ''file'', ''audio'', ''media'']"

text \<open>\<open>json.loads(content_str) if content_str else {}\<close> where \<open>ValueError\<close> and \<open>TypeError\<close> give \<open>{}\<close>.\<close>

definition load_content :: "(string \<Rightarrow> py_val res) \<Rightarrow> py_val \<Rightarrow> py_val" where
  "load_content json_loads content_str =
     (case content_str of
        PyStr s \<Rightarrow> if s = [] then PyDict [] else (case json_loads s of Inr v \<Rightarrow> v | Inl _ \<Rightarrow> PyDict [])
      | _ \<Rightarrow> PyDict [])"

text \<open>The uniform file arguments: \<open>file_key\<close> and a \<open>file_name\<close> that falls back on the key.\<close>

definition file_args :: "string \<Rightarrow> py_val \<Rightarrow> (py_val \<times> py_val) res" where
  "file_args msg_type content =
     rbind (py_get content ''image_key'' PyNone) (\<lambda>image_key.
     rbind (py_get content ''file_key'' PyNone) (\<lambda>fkey.
     rbind (py_get content ''file_name'' PyNone) (\<lambda>name.
       let file_key = py_or (py_or image_key fkey) (PyStr []);
           file_name =
             (if py_truthy name then name
              else if msg_type = ''image''
                then (if py_truthy file_key then PyStr (py_str file_key @ ''.png'') else PyStr ''unknown.png'')
              else py_or file_key (PyStr ''unknown''))
       in Inr (file_key, file_name))))"

definition add_file_args :: "py_val \<Rightarrow> py_val \<Rightarrow> py_kvs \<Rightarrow> py_kvs res" where
  "add_file_args msg_type content args =
     (if \<not> hashable msg_type then Inl (type_error (''unhashable type: '' @ repr_str (type_name msg_type)))
      else case msg_type of
        PyStr mt \<Rightarrow>
          if mt \<in> set DOWNLOADABLE then
            rbind (file_args mt content) (\<lambda>(key, name).
              Inr (dset (PyStr ''file_name'') name (dset (PyStr ''file_key'') key args)))
          else Inr args
      | _ \<Rightarrow> Inr args)"

definition sender_id_of :: "py_val \<Rightarrow> py_val res" where
  "sender_id_of sender =
     rbind (py_get sender ''sender_id'' PyNone) (\<lambda>field.
       case field of
         PyDict d \<Rightarrow> Inr (dget_or ''open_id'' (PyStr []) d)
       | _ \<Rightarrow> rbind (py_get sender ''open_id'' (PyStr [])) (\<lambda>v. Inr (PyStr (py_str v))))"

definition parse_msg_received :: "(string \<Rightarrow> py_val res) \<Rightarrow> py_val \<Rightarrow> py_kvs res" where
  "parse_msg_received json_loads raw =
     rbind (py_get raw ''message'' PyNone) (\<lambda>m0.
     let message = py_or m0 (PyDict []) in
     rbind (py_get message ''message_type'' PyNone) (\<lambda>mt1.
     rbind (py_get message ''msg_type'' PyNone) (\<lambda>mt2.
     rbind (py_get message ''content'' (PyStr [])) (\<lambda>content_str.
     let msg_type = py_or (py_or mt1 mt2) (PyStr ''unknown'');
         content = load_content json_loads content_str in
     rbind (parse_content msg_type content) (\<lambda>text.
     rbind (py_get message ''chat_id'' (PyStr [])) (\<lambda>chat_id.
     rbind (py_get message ''message_id'' (PyStr [])) (\<lambda>msg_id.
     rbind (py_get raw ''sender'' PyNone) (\<lambda>s0.
     rbind (sender_id_of (py_or s0 (PyDict []))) (\<lambda>sender_id.
     rbind (add_file_args msg_type content
              (mkdict [(''msg_id'', msg_id), (''chat_id'', chat_id), (''msg_type'', msg_type), (''text'', PyStr text),
                       (''sender_id'', sender_id), (''content'', content)])) (\<lambda>args.
       Inr (mkdict [(''event_type'', PyStr ''msg_received''), (''args'', PyDict args)])))))))))))"

definition parse_reaction_created :: "py_val \<Rightarrow> py_kvs res" where
  "parse_reaction_created raw =
     rbind (py_get raw ''reaction_type'' (PyDict [])) (\<lambda>reaction_type.
     rbind (py_get raw ''operator_id'' PyNone) (\<lambda>o1.
     rbind (py_get raw ''user_id'' PyNone) (\<lambda>o2.
     rbind (py_get raw ''message_id'' (PyStr [])) (\<lambda>msg_id.
       let emoji_type = (case reaction_type of PyDict d \<Rightarrow> dget_or ''emoji_type'' (PyStr []) d | _ \<Rightarrow> PyStr []);
           operator_id = (case py_or (py_or o1 o2) (PyDict []) of PyDict d \<Rightarrow> dget_or ''open_id'' (PyStr []) d | _ \<Rightarrow> PyStr [])
       in Inr (mkdict [(''event_type'', PyStr ''reaction_added''),
            (''args'', PyDict (mkdict [(''msg_id'', msg_id), (''emoji_type'', emoji_type), (''operator_id'', operator_id)]))])))))"

definition parse_ws_event :: "(string \<Rightarrow> py_val res) \<Rightarrow> string \<Rightarrow> py_val \<Rightarrow> py_kvs option res" where
  "parse_ws_event json_loads event_name raw =
     (if event_name = ''P2ImMessageReceiveV1'' then rbind (parse_msg_received json_loads raw) (\<lambda>e. Inr (Some e))
      else if event_name = ''P2ImMessageReactionCreatedV1'' then rbind (parse_reaction_created raw) (\<lambda>e. Inr (Some e))
      else Inr None)"

section \<open>Lemmas\<close>

lemma parse_content_ok: "hashable msg_type \<Longrightarrow> \<exists>text. parse_content msg_type content = Inr text"
  by (auto simp: parse_content_def split: option.splits sum.splits)

lemma PARSERS_keys: "map fst PARSERS =
  [''text'', ''post'', ''image'', ''file'', ''audio'', ''media'', ''sticker'', ''share_chat'', ''share_user'', ''location'', ''interactive'']"
  by (simp add: PARSERS_def register_parser_def)

lemma py_or_truthy: "py_truthy b \<Longrightarrow> py_truthy (py_or a b)"
  by (simp add: py_or_def)

lemma file_args_ok:
  "\<exists>key name. file_args mt (PyDict c) = Inr (key, name) \<and> py_truthy name \<and>
     key = py_or (py_or (dget_or ''image_key'' PyNone c) (dget_or ''file_key'' PyNone c)) (PyStr []) \<and>
     (py_truthy (dget_or ''file_name'' PyNone c) \<longrightarrow> name = dget_or ''file_name'' PyNone c)"
  by (auto simp: file_args_def Let_def py_or_truthy)

lemma file_args_raises: "(\<And>d. content \<noteq> PyDict d) \<Longrightarrow> file_args mt content = Inl (attr_error content ''get'')"
  by (cases content) (auto simp: file_args_def py_get_def)

text \<open>The text of a post: its title and the texts of its nodes in order, separated by single spaces.\<close>

lemma parse_post_text:
  assumes "dget ''content'' d = Some (PyList paras)" "\<And>p. p \<in> set paras \<Longrightarrow> \<exists>ns. p = PyList ns"
  shows "parse_post (PyDict d) = Inr (join '' '' (nonempty (get_str ''title'' [] d #
    concat (map (\<lambda>p. case p of PyList ns \<Rightarrow> concat (map post_node ns) | _ \<Rightarrow> []) paras))))"
proof -
  have or: "py_or (PyList xs) (PyList []) = PyList xs" for xs by (simp add: py_or_def)
  have "mapM post_para paras = Inr (map (\<lambda>p. case p of PyList ns \<Rightarrow> concat (map post_node ns) | _ \<Rightarrow> []) paras)"
  proof (rule mapM_Inr)
    fix p assume "p \<in> set paras"
    with assms(2) obtain ns where "p = PyList ns" by blast
    then show "post_para p = Inr (case p of PyList ns \<Rightarrow> concat (map post_node ns) | _ \<Rightarrow> [])"
      by (simp add: post_para_def or)
  qed
  with assms(1) show ?thesis by (simp add: parse_post_def dget_or_def or get_str_def)
qed


section \<open>Properties\<close>

text \<open>
  Parsing never breaks the event stream: whatever the content, a message of any type with a usable (hashable)
  type value gets a text; the text of an unregistered type names the type, and a parser that raises is
  replaced by a placeholder.
\<close>

theorem parse_content_total:
  assumes "hashable msg_type"
  shows "\<exists>text. parse_content msg_type content = Inr text \<and>
    (\<forall>mt. msg_type = PyStr mt \<and> map_of PARSERS mt = None \<longrightarrow> text = ''['' @ mt @ '' message]'') \<and>
    (\<forall>mt parser. msg_type = PyStr mt \<and> map_of PARSERS mt = Some parser \<longrightarrow>
       (case parser content of Inr t \<Rightarrow> text = t
        | Inl _ \<Rightarrow> text = ''['' @ mt @ '' message '' @ em_dash @ '' parse failed]''))"
  using assms by (auto simp: parse_content_def split: option.splits sum.splits)

theorem parse_content_total_witness:
  "parse_content (PyStr ''post'') (PyDict [(PyStr ''content'', PyInt 3)]) =
     Inr (''[post message '' @ em_dash @ '' parse failed]'')"
proof -
  have p: "map_of PARSERS ''post'' = Some parse_post" by (simp add: PARSERS_def register_parser_def)
  have "parse_post (PyDict [(PyStr ''content'', PyInt 3)]) = Inl (type_error (repr_str ''int'' @ '' object is not iterable''))"
    by (simp add: parse_post_def dget_or_def py_or_def py_iter_def)
  with p parse_content_total [of "PyStr ''post''" "PyDict [(PyStr ''content'', PyInt 3)]"] show ?thesis by auto
qed

text \<open>
  An inbound message event is complete: when the event carries a message with its type, a sender and a
  content object, the adapter event is \<open>msg_received\<close> with the message's ids, the parsed text and the
  sender's open id; a downloadable message also carries its file key and a file name that is never
  empty, and no other message does.
\<close>

theorem message_event_complete:
  assumes "dget ''message'' r = Some (PyDict m)" "dget ''message_type'' m = Some (PyStr mt)" "mt \<noteq> []"
    "dget ''sender'' r = Some (PyDict s)" "dget ''sender_id'' s = Some (PyDict i)"
    "load_content json_loads (dget_or ''content'' (PyStr []) m) = PyDict c"
  shows "\<exists>args text. parse_ws_event json_loads ''P2ImMessageReceiveV1'' (PyDict r) =
       Inr (Some (mkdict [(''event_type'', PyStr ''msg_received''), (''args'', PyDict args)])) \<and>
     parse_content (PyStr mt) (PyDict c) = Inr text \<and> dget ''text'' args = Some (PyStr text) \<and>
     dget ''msg_id'' args = Some (dget_or ''message_id'' (PyStr []) m) \<and>
     dget ''chat_id'' args = Some (dget_or ''chat_id'' (PyStr []) m) \<and> dget ''msg_type'' args = Some (PyStr mt) \<and>
     dget ''sender_id'' args = Some (dget_or ''open_id'' (PyStr []) i) \<and>
     (if mt \<in> set DOWNLOADABLE
      then \<exists>name. dget ''file_name'' args = Some name \<and> py_truthy name \<and> dget ''file_key'' args =
             Some (py_or (py_or (dget_or ''image_key'' PyNone c) (dget_or ''file_key'' PyNone c)) (PyStr []))
      else dget ''file_key'' args = None \<and> dget ''file_name'' args = None)"
proof -
  obtain tx where t: "parse_content (PyStr mt) (PyDict c) = Inr tx"
    using parse_content_ok [of "PyStr mt"] by auto
  obtain key name where f: "file_args mt (PyDict c) = Inr (key, name)" "py_truthy name"
    "key = py_or (py_or (dget_or ''image_key'' PyNone c) (dget_or ''file_key'' PyNone c)) (PyStr [])"
    using file_args_ok [of mt c] by blast
  have o: "py_or (PyDict m) (PyDict []) = PyDict m" "py_or (PyDict s) (PyDict []) = PyDict s" "m \<noteq> []" "s \<noteq> []"
    "py_or (py_or (PyStr mt) x) y = PyStr mt" for x y
    using assms(2,3,5) by (auto simp: py_or_def)
  have m: "dget_or ''message'' PyNone r = PyDict m" "dget_or ''message_type'' PyNone m = PyStr mt"
    "dget_or ''sender'' PyNone r = PyDict s" "dget_or ''sender_id'' PyNone s = PyDict i"
    using assms by (simp_all add: dget_or_def)
  show ?thesis
    by (simp add: parse_ws_event_def parse_msg_received_def m o Let_def assms(6) t sender_id_of_def add_file_args_def f)
qed

theorem message_event_complete_witness:
  "\<exists>args name. parse_ws_event (\<lambda>_. Inr (PyDict [(PyStr ''image_key'', PyStr ''k'')])) ''P2ImMessageReceiveV1''
      (PyDict (mkdict [(''message'', PyDict (mkdict [(''message_type'', PyStr ''image''), (''content'', PyStr ''x'')])),
        (''sender'', PyDict (mkdict [(''sender_id'', PyDict [])]))])) =
      Inr (Some (mkdict [(''event_type'', PyStr ''msg_received''), (''args'', PyDict args)])) \<and>
    dget ''file_name'' args = Some name \<and> py_truthy name \<and> dget ''file_key'' args = Some (PyStr ''k'')"
proof -
  let ?m = "mkdict [(''message_type'', PyStr ''image''), (''content'', PyStr ''x'')]"
  let ?r = "mkdict [(''message'', PyDict ?m), (''sender'', PyDict (mkdict [(''sender_id'', PyDict [])]))]"
  have "load_content (\<lambda>_. Inr (PyDict [(PyStr ''image_key'', PyStr ''k'')])) (dget_or ''content'' (PyStr []) ?m) =
    PyDict [(PyStr ''image_key'', PyStr ''k'')]" by (simp add: load_content_def dget_or_def)
  from message_event_complete [of ?r ?m "''image''" "mkdict [(''sender_id'', PyDict [])]" "[]", OF _ _ _ _ _ this]
  show ?thesis by (auto simp: DOWNLOADABLE_def dget_or_def py_or_def)
qed

end
