(* ===== verification/Feishu_Adapter.thy ===== *)
theory Feishu_Adapter
  imports Media Workspaces Registry Feishu_Parsers
begin

text \<open>
  \<^verbatim>\<open>adapters/feishu/src/esr_feishu/adapter.py\<close>, first half: construction, the workspace map, and the
  directives with their retries.

  The adapter runs in a state of its own fields, the local files, the sleeps it has taken and the outside
  world \<open>'w\<close>. The Lark SDK and HTTP are services: functions of a request and the world, which answer or
  raise; a Lark response is whether it succeeded and its attributes. \<open>json.dumps\<close>, \<open>json.loads\<close>, SHA-256,
  the environment, the clock and the name of the temporary file are fixed in the same record. An action
  is a state transformer that may raise.
\<close>

section \<open>State and services\<close>

record feishu =
  fa_actor_id :: string
  fa_config :: py_kvs
  fa_lark_client :: bool
  fa_workspace_of :: "((string \<times> string) \<times> py_val) list"

record 'w fstate =
  st_adapter :: feishu
  st_files :: fs
  st_sleeps :: "nat list"
  st_world :: 'w

datatype lark_req =
    CreateMessage py_val string string
  | CreateReaction py_val py_val
  | ListReactions py_val py_val nat
  | DeleteReaction py_val py_val
  | CreatePin py_val
  | DeletePin py_val
  | GetResource py_val py_val py_val

record lark_resp =
  lr_success :: bool
  lr_attrs :: py_kvs
  lr_data :: py_kvs
  lr_items :: "py_kvs list"
  lr_file :: string

record http_req =
  rq_method :: string
  rq_url :: string
  rq_headers :: "(string \<times> string) list"
  rq_body :: string

datatype http_end = HttpBody string | HttpUrlError string | HttpRaises py_exc

record 'w services =
  sv_lark :: "lark_req \<Rightarrow> 'w \<Rightarrow> lark_resp res \<times> 'w"
  sv_http :: "http_req \<Rightarrow> 'w \<Rightarrow> http_end \<times> 'w"
  sv_dumps :: "py_val \<Rightarrow> string res"
  sv_loads :: "string \<Rightarrow> py_val res"
  sv_sha256 :: "string \<Rightarrow> string"
  sv_b64_error :: "py_val \<Rightarrow> string"
  sv_environ :: environ
  sv_now :: string
  sv_pid :: nat
  sv_ident :: nat
  sv_tmp :: string

type_synonym ('w, 'a) act = "'w fstate \<Rightarrow> 'a res \<times> 'w fstate"

definition ret :: "'a \<Rightarrow> 's \<Rightarrow> 'a res \<times> 's" where
  "ret x s = (Inr x, s)"

definition lift :: "'a res \<Rightarrow> 's \<Rightarrow> 'a res \<times> 's" where
  "lift r s = (r, s)"

definition abind :: "('s \<Rightarrow> 'a res \<times> 's) \<Rightarrow> ('a \<Rightarrow> 's \<Rightarrow> 'b res \<times> 's) \<Rightarrow> 's \<Rightarrow> 'b res \<times> 's" where
  "abind m f s = (case m s of (Inl e, s') \<Rightarrow> (Inl e, s') | (Inr x, s') \<Rightarrow> f x s')"

lemma act_simps [simp]:
  "abind (ret x) f = f x" "abind (lift (Inr x)) f = f x" "abind (lift (Inl e)) f = lift (Inl e)"
  "abind (abind m f) g = abind m (\<lambda>x. abind (f x) g)" "ret x s = (Inr x, s)" "lift r s = (r, s)"
  by (auto simp: abind_def ret_def lift_def fun_eq_iff split: prod.splits sum.splits)

text \<open>A call of the SDK, an HTTP request, and \<open>args[k]\<close>.\<close>

definition lark_call :: "'w services \<Rightarrow> lark_req \<Rightarrow> ('w, lark_resp) act" where
  "lark_call sv req s = (case sv_lark sv req (st_world s) of (r, w) \<Rightarrow> (r, s\<lparr>st_world := w\<rparr>))"

definition http_call :: "'w services \<Rightarrow> http_req \<Rightarrow> ('w, http_end) act" where
  "http_call sv req s = (case sv_http sv req (st_world s) of (r, w) \<Rightarrow> (Inr r, s\<lparr>st_world := w\<rparr>))"

definition arg :: "py_val \<Rightarrow> string \<Rightarrow> ('w, py_val) act" where
  "arg args k = lift (py_index args k)"


section \<open>Construction\<close>

definition cfg_or :: "string \<Rightarrow> py_val \<Rightarrow> feishu \<Rightarrow> py_val" where
  "cfg_or k dflt f = (case config_getattr (fa_config f) k of Inr v \<Rightarrow> v | Inl _ \<Rightarrow> dflt)"

definition app_id :: "feishu \<Rightarrow> py_val res" where
  "app_id f = config_getattr (fa_config f) ''app_id''"

text \<open>The file \<open>_load_workspace_map\<close> reads; \<open>home\<close> is \<open>Path.home() / ".esrd"\<close> as a string.\<close>

definition workspaces_path :: "environ \<Rightarrow> py_kvs \<Rightarrow> path res" where
  "workspaces_path env config =
     (let configured = (case config_getattr config ''workspaces_path'' of Inr v \<Rightarrow> v | Inl _ \<Rightarrow> PyNone) in
      if py_truthy configured then
        (case configured of
           PyStr p \<Rightarrow> Inr (mk_path p)
         | v \<Rightarrow> Inl (type_error (''expected str, bytes or os.PathLike object, not '' @ type_name v)))
      else
        let home = (case esrd_home_var env of Some (c # cs) \<Rightarrow> c # cs | _ \<Rightarrow> home_esrd env)
        in Inr (subpath (subpath (mk_path home) ''default'') ''workspaces.yaml''))"

fun chat_entries :: "py_val \<Rightarrow> py_val list \<Rightarrow> ((string \<times> string) \<times> py_val) list \<Rightarrow> ((string \<times> string) \<times> py_val) list res" where
  "chat_entries name [] out = Inr out"
| "chat_entries name (chat # chats) out =
     rbind (py_get chat ''chat_id'' PyNone) (\<lambda>c.
     rbind (py_get chat ''app_id'' PyNone) (\<lambda>a.
       chat_entries name chats
         (case (c, a) of (PyStr chat_id, PyStr ap) \<Rightarrow> dset (chat_id, ap) name out | _ \<Rightarrow> out)))"

fun workspace_entries ::
  "(py_val \<times> workspace) list \<Rightarrow> ((string \<times> string) \<times> py_val) list \<Rightarrow> ((string \<times> string) \<times> py_val) list res"
where
  "workspace_entries [] out = Inr out"
| "workspace_entries ((_, ws) # rest) out =
     rbind (chat_entries (ws_name ws) (ws_chats ws) out) (workspace_entries rest)"

definition load_workspace_map ::
  "(string \<Rightarrow> py_val res) \<Rightarrow> (path \<Rightarrow> string option) \<Rightarrow> environ \<Rightarrow> py_kvs \<Rightarrow> ((string \<times> string) \<times> py_val) list res"
where
  "load_workspace_map yaml_load file_at env config =
     rbind (workspaces_path env config) (\<lambda>p.
       case read_workspaces yaml_load (file_at p) of
         Inl _ \<Rightarrow> Inr []
       | Inr workspaces \<Rightarrow> workspace_entries workspaces [])"

definition factory ::
  "(string \<Rightarrow> py_val res) \<Rightarrow> (path \<Rightarrow> string option) \<Rightarrow> environ \<Rightarrow> string \<Rightarrow> py_kvs \<Rightarrow> feishu res"
where
  "factory yaml_load file_at env actor_id config =
     rbind (load_workspace_map yaml_load file_at env config) (\<lambda>m.
       Inr \<lparr>fa_actor_id = actor_id, fa_config = config, fa_lark_client = False, fa_workspace_of = m\<rparr>)"

text \<open>\<open>client()\<close>: built once, from the configured credentials.\<close>

definition client :: "('w, unit) act" where
  "client s =
     (let f = st_adapter s in
      if fa_lark_client f then (Inr (), s)
      else (case rbind (app_id f) (\<lambda>_. config_getattr (fa_config f) ''app_secret'') of
              Inl e \<Rightarrow> (Inl e, s)
            | Inr _ \<Rightarrow> (Inr (), s\<lparr>st_adapter := f\<lparr>fa_lark_client := True\<rparr>\<rparr>)))"

definition build_msg_received_envelope :: "feishu \<Rightarrow> py_kvs \<Rightarrow> py_val \<Rightarrow> py_kvs res" where
  "build_msg_received_envelope f args sender_open_id =
     (let chat_id = py_or (dget_or ''chat_id'' PyNone args) (PyStr []) in
      rbind (app_id f) (\<lambda>app.
        if \<not> hashable chat_id \<or> \<not> hashable app
        then Inl (type_error (''unhashable type: '' @ repr_str (type_name (if hashable chat_id then app else chat_id))))
        else
          let ws = (case (chat_id, app) of
                      (PyStr c, PyStr a) \<Rightarrow> (case map_of (fa_workspace_of f) (c, a) of Some w \<Rightarrow> w | None \<Rightarrow> PyNone)
                    | _ \<Rightarrow> PyNone)
          in Inr (mkdict [(''event_type'', PyStr ''msg_received''), (''args'', PyDict args),
                          (''principal_id'', py_or sender_open_id PyNone), (''workspace_name'', ws)])))"


section \<open>Lark responses\<close>

definition lark_error :: "lark_resp \<Rightarrow> py_val" where
  "lark_error r =
     py_or (py_or (dget_or ''msg'' (PyStr []) (lr_attrs r)) (dget_or ''error'' (PyStr []) (lr_attrs r))) (PyStr [])"

definition lark_failure :: "lark_resp \<Rightarrow> string \<Rightarrow> py_kvs" where
  "lark_failure r default_msg =
     mkdict [(''ok'', PyBool False), (''error'', py_or (lark_error r) (PyStr default_msg)),
             (''code'', dget_or ''code'' (PyInt 0) (lr_attrs r))]"

definition is_rate_limited :: "py_kvs \<Rightarrow> bool" where
  "is_rate_limited ack = py_eq (dget_or ''code'' PyNone ack) (PyInt 429)"

definition ok_result :: "py_kvs \<Rightarrow> py_kvs" where
  "ok_result r = mkdict [(''ok'', PyBool True), (''result'', PyDict r)]"

definition err_result :: "string \<Rightarrow> py_kvs" where
  "err_result m = mkdict [(''ok'', PyBool False), (''error'', PyStr m)]"

text \<open>\<open>response.data.k\<close>; the text of the \<open>AttributeError\<close>, which names classes of the SDK, is left abstract.\<close>

definition data_attr :: "lark_resp \<Rightarrow> string \<Rightarrow> ('w, py_val) act" where
  "data_attr r k =
     lift (case dget k (lr_data r) of Some v \<Rightarrow> Inr v
           | None \<Rightarrow> Inl (Exc ''AttributeError'' (''response data has no attribute '' @ repr_str k)))"


section \<open>Rate limiting\<close>

definition BACKOFF_SCHEDULE :: "nat list" where
  "BACKOFF_SCHEDULE = [1, 2, 4, 8, 16, 30]"

definition RETRY_DEADLINE_S :: nat where
  "RETRY_DEADLINE_S = 30"

definition sleep :: "nat \<Rightarrow> 'w fstate \<Rightarrow> 'w fstate" where
  "sleep d s = s\<lparr>st_sleeps := st_sleeps s @ [d]\<rparr>"

definition surfaces :: "py_kvs \<Rightarrow> bool" where
  "surfaces result = (py_truthy (dget_or ''ok'' PyNone result) \<or> \<not> is_rate_limited result)"

fun retry_loop :: "('w, py_kvs) act \<Rightarrow> nat list \<Rightarrow> nat \<Rightarrow> ('w, py_kvs) act" where
  "retry_loop fn [] elapsed s =
     (case fn s of
        (Inl e, s1) \<Rightarrow> (Inl e, s1)
      | (Inr result, s1) \<Rightarrow> (Inr (if surfaces result then result else err_result ''timeout''), s1))"
| "retry_loop fn (delay # delays) elapsed s =
     (case fn s of
        (Inl e, s1) \<Rightarrow> (Inl e, s1)
      | (Inr result, s1) \<Rightarrow>
          if surfaces result then (Inr result, s1)
          else if elapsed + delay > RETRY_DEADLINE_S then (Inr (err_result ''timeout''), s1)
          else retry_loop fn delays (elapsed + delay) (sleep delay s1))"

definition with_ratelimit_retry :: "('w, py_kvs) act \<Rightarrow> ('w, py_kvs) act" where
  "with_ratelimit_retry fn = retry_loop fn BACKOFF_SCHEDULE 0"

section \<open>Directives\<close>

definition is_local :: "string \<Rightarrow> bool" where
  "is_local url = (startswith url ''http://127.0.0.1'' \<or> startswith url ''http://localhost'')"

text \<open>
  Whether the mock path is taken. \<open>send_message\<close> and the events test \<open>isinstance(base_url, str)\<close>; the other
  directives call \<open>startswith\<close> on whatever is configured.
\<close>

definition local_base_str :: "feishu \<Rightarrow> string option" where
  "local_base_str f = (case cfg_or ''base_url'' PyNone f of PyStr u \<Rightarrow> if is_local u then Some u else None | _ \<Rightarrow> None)"

definition local_base :: "('w, string option) act" where
  "local_base s =
     (let v = py_or (cfg_or ''base_url'' (PyStr []) (st_adapter s)) (PyStr []) in
      case v of
        PyStr u \<Rightarrow> (Inr (if is_local u then Some u else None), s)
      | _ \<Rightarrow> (Inl (attr_error v ''startswith''), s))"

text \<open>A JSON request to the mock server, with the adapter's app id in its header.\<close>

definition json_request :: "string \<Rightarrow> string \<Rightarrow> string \<Rightarrow> feishu \<Rightarrow> http_req" where
  "json_request meth url body f =
     \<lparr>rq_method = meth, rq_url = url,
      rq_headers = [(''content-type'', ''application/json''), (''X-App-Id'', fa_actor_id f)], rq_body = body\<rparr>"

definition json_call :: "'w services \<Rightarrow> string \<Rightarrow> string \<Rightarrow> py_kvs \<Rightarrow> ('w, http_end) act" where
  "json_call sv meth url body s =
     abind (lift (sv_dumps sv (PyDict body))) (\<lambda>t.
       http_call sv (json_request meth url t (st_adapter s))) s"

text \<open>
  \<open>with urlopen(req) as resp: data = json.loads(resp.read()); return ok(data.get("data") or dflt)\<close>, where
  only \<open>URLError\<close> is caught.
\<close>

definition reply_data :: "'w services \<Rightarrow> string \<Rightarrow> py_kvs \<Rightarrow> http_end \<Rightarrow> ('w, py_kvs) act" where
  "reply_data sv failure dflt r =
     (case r of
        HttpUrlError m \<Rightarrow> ret (err_result (failure @ m))
      | HttpRaises e \<Rightarrow> lift (Inl e)
      | HttpBody t \<Rightarrow>
          abind (lift (rbind (sv_loads sv t) (\<lambda>v. py_get v ''data'' PyNone))) (\<lambda>d.
            ret (mkdict [(''ok'', PyBool True), (''result'', py_or d (PyDict dflt))])))"

definition send_message_mock :: "'w services \<Rightarrow> string \<Rightarrow> py_val \<Rightarrow> py_val \<Rightarrow> ('w, py_kvs) act" where
  "send_message_mock sv base_url chat_id content =
     abind (lift (sv_dumps sv (PyDict (mkdict [(''text'', content)])))) (\<lambda>inner.
     abind (json_call sv ''POST'' (base_url @ ''/open-apis/im/v1/messages?receive_id_type=chat_id'')
              (mkdict [(''receive_id'', chat_id), (''msg_type'', PyStr ''text''), (''content'', PyStr inner)]))
       (reply_data sv ''mock POST failed: '' []))"

text \<open>\<open>response = self.client()...(request)\<close> and its success or failure.\<close>

definition lark_result ::
  "'w services \<Rightarrow> lark_req \<Rightarrow> string \<Rightarrow> (lark_resp \<Rightarrow> ('w, py_kvs) act) \<Rightarrow> ('w, py_kvs) act"
where
  "lark_result sv req failure success =
     abind client (\<lambda>_. abind (lark_call sv req) (\<lambda>r.
       if lr_success r then success r else ret (lark_failure r failure)))"

definition message_id_result :: "lark_resp \<Rightarrow> ('w, py_kvs) act" where
  "message_id_result r = abind (data_attr r ''message_id'') (\<lambda>i. ret (ok_result (mkdict [(''message_id'', i)])))"

definition send_message :: "'w services \<Rightarrow> py_val \<Rightarrow> ('w, py_kvs) act" where
  "send_message sv args =
     abind (arg args ''chat_id'') (\<lambda>chat_id. abind (arg args ''content'') (\<lambda>content.
     (\<lambda>s. (case local_base_str (st_adapter s) of
        Some base_url \<Rightarrow> send_message_mock sv base_url chat_id content
      | None \<Rightarrow>
          abind (lift (sv_dumps sv (PyDict (mkdict [(''text'', content)])))) (\<lambda>inner.
            lark_result sv (CreateMessage chat_id ''text'' inner) ''send failed'' message_id_result)) s)))"

definition reactions_url :: "string \<Rightarrow> py_val \<Rightarrow> string" where
  "reactions_url base_url msg_id = base_url @ ''/open-apis/im/v1/messages/'' @ py_str msg_id @ ''/reactions''"

definition reaction_body :: "py_val \<Rightarrow> py_kvs" where
  "reaction_body emoji_type = mkdict [(''reaction_type'', PyDict (mkdict [(''emoji_type'', emoji_type)]))]"

definition react_mock :: "'w services \<Rightarrow> string \<Rightarrow> py_val \<Rightarrow> py_val \<Rightarrow> ('w, py_kvs) act" where
  "react_mock sv base_url msg_id emoji_type =
     abind (json_call sv ''POST'' (reactions_url base_url msg_id) (reaction_body emoji_type))
       (reply_data sv ''mock react failed: '' [])"

definition react :: "'w services \<Rightarrow> py_val \<Rightarrow> ('w, py_kvs) act" where
  "react sv args =
     abind (arg args ''msg_id'') (\<lambda>msg_id. abind (arg args ''emoji_type'') (\<lambda>emoji_type.
     abind local_base (\<lambda>base.
       case base of
         Some base_url \<Rightarrow> react_mock sv base_url msg_id emoji_type
       | None \<Rightarrow>
           lark_result sv (CreateReaction msg_id emoji_type) ''react failed'' (\<lambda>r.
             ret (ok_result (mkdict [(''reaction_id'',
               py_or (dget_or ''reaction_id'' PyNone (lr_data r)) (dget_or ''message_id'' (PyStr []) (lr_data r)))]))))))"

definition un_react_mock :: "'w services \<Rightarrow> string \<Rightarrow> py_val \<Rightarrow> py_val \<Rightarrow> ('w, py_kvs) act" where
  "un_react_mock sv base_url msg_id emoji_type =
     abind (json_call sv ''DELETE'' (reactions_url base_url msg_id) (reaction_body emoji_type))
       (reply_data sv ''mock un_react failed: '' [])"

definition un_react_live :: "'w services \<Rightarrow> py_val \<Rightarrow> py_val \<Rightarrow> ('w, py_kvs) act" where
  "un_react_live sv msg_id emoji_type =
     lark_result sv (ListReactions msg_id emoji_type 50) ''un_react list failed'' (\<lambda>listed.
       case lr_items listed of
         [] \<Rightarrow> ret (ok_result (mkdict [(''deleted'', PyInt 0)]))
       | item # _ \<Rightarrow>
           abind (lift (case dget ''reaction_id'' item of Some v \<Rightarrow> Inr v
                        | None \<Rightarrow> Inl (Exc ''AttributeError'' ''reaction_id''))) (\<lambda>reaction_id.
             lark_result sv (DeleteReaction msg_id reaction_id) ''un_react delete failed'' (\<lambda>_.
               ret (ok_result (mkdict [(''deleted'', PyInt 1), (''reaction_id'', reaction_id)])))))"

definition un_react :: "'w services \<Rightarrow> py_val \<Rightarrow> ('w, py_kvs) act" where
  "un_react sv args =
     abind (arg args ''msg_id'') (\<lambda>msg_id.
     abind (lift (py_get args ''emoji_type'' (PyStr []))) (\<lambda>emoji_type.
     abind local_base (\<lambda>base.
       case base of
         Some base_url \<Rightarrow> un_react_mock sv base_url msg_id emoji_type
       | None \<Rightarrow> un_react_live sv msg_id emoji_type)))"

definition send_card :: "'w services \<Rightarrow> py_val \<Rightarrow> ('w, py_kvs) act" where
  "send_card sv args =
     abind (arg args ''chat_id'') (\<lambda>chat_id. abind (arg args ''card'') (\<lambda>card.
     abind (lift (sv_dumps sv card)) (\<lambda>content.
       lark_result sv (CreateMessage chat_id ''interactive'' content) ''send_card failed'' message_id_result)))"

definition pin :: "'w services \<Rightarrow> py_val \<Rightarrow> ('w, py_kvs) act" where
  "pin sv args =
     abind (arg args ''msg_id'') (\<lambda>msg_id.
       lark_result sv (CreatePin msg_id) ''pin failed'' (\<lambda>_. ret (mkdict [(''ok'', PyBool True)])))"

definition unpin :: "'w services \<Rightarrow> py_val \<Rightarrow> ('w, py_kvs) act" where
  "unpin sv args =
     abind (arg args ''msg_id'') (\<lambda>msg_id.
       lark_result sv (DeletePin msg_id) ''unpin failed'' (\<lambda>_. ret (mkdict [(''ok'', PyBool True)])))"


subsection \<open>Downloads\<close>

definition default_ext_for :: "py_val \<Rightarrow> string" where
  "default_ext_for msg_type =
     (case msg_type of
        PyStr mt \<Rightarrow> (case map_of [(''image'', ''.png''), (''file'', ''.bin''), (''audio'', ''.opus'')] mt of
                      Some x \<Rightarrow> x | None \<Rightarrow> ''.bin'')
      | _ \<Rightarrow> ''.bin'')"

definition download_via_http :: "'w services \<Rightarrow> string \<Rightarrow> py_val \<Rightarrow> py_val \<Rightarrow> ('w, string option) act" where
  "download_via_http sv base_url msg_id file_key =
     abind (http_call sv \<lparr>rq_method = ''GET'',
         rq_url = rstrip_char CHR ''/'' base_url @ ''/open-apis/im/v1/messages/'' @ py_str msg_id @ ''/resources/'' @ py_str file_key,
         rq_headers = [], rq_body = []\<rparr>) (\<lambda>r.
       case r of HttpBody b \<Rightarrow> ret (Some b) | HttpUrlError _ \<Rightarrow> ret None | HttpRaises e \<Rightarrow> lift (Inl e))"

definition download_via_lark_oapi :: "'w services \<Rightarrow> py_val \<Rightarrow> py_val \<Rightarrow> py_val \<Rightarrow> ('w, string option) act" where
  "download_via_lark_oapi sv msg_id file_key msg_type =
     abind client (\<lambda>_. abind (lark_call sv (GetResource msg_id file_key msg_type)) (\<lambda>r.
       ret (if lr_success r then Some (lr_file r) else None)))"

text \<open>The media store on any value as media type: only strings are in its table.\<close>

definition media_store :: "'w services \<Rightarrow> py_val \<Rightarrow> string \<Rightarrow> py_kvs \<Rightarrow> fs \<Rightarrow> py_kvs res \<times> fs" where
  "media_store sv msg_type tmp_path meta files =
     (case msg_type of
        PyStr mt \<Rightarrow> store (sv_sha256 sv) (sv_dumps sv) (sv_now sv) (sv_pid sv) (sv_ident sv) (sv_environ sv) mt tmp_path meta files
      | v \<Rightarrow> (Inl (if hashable v then resource_error (''unsupported_ext: unknown media_type '' @ py_repr v)
                   else type_error (''unhashable type: '' @ repr_str (type_name v))), files))"

text \<open>Writing the temporary file, storing it, and unlinking it whatever happens.\<close>

definition store_bytes :: "'w services \<Rightarrow> py_val \<Rightarrow> string \<Rightarrow> py_kvs \<Rightarrow> string \<Rightarrow> ('w, py_kvs) act" where
  "store_bytes sv msg_type suffix meta bytes s =
     (let tmp_path = sv_tmp sv @ suffix;
          files1 = dset (mk_path tmp_path) (File bytes) (st_files s)
      in case media_store sv msg_type tmp_path meta files1 of
           (r, files2) \<Rightarrow>
             let s' = s\<lparr>st_files := ddel (mk_path tmp_path) files2\<rparr> in
             (case r of
                Inr result \<Rightarrow> (Inr (ok_result result), s')
              | Inl e \<Rightarrow>
                  if exc_type e = ''EsrResourceError'' then (Inr (err_result (''store_failed: '' @ exc_msg e)), s')
                  else (Inl e, s')))"

definition download_file :: "'w services \<Rightarrow> py_val \<Rightarrow> ('w, py_kvs) act" where
  "download_file sv args =
     abind (arg args ''msg_id'') (\<lambda>msg_id. abind (arg args ''file_key'') (\<lambda>file_key.
     abind (arg args ''file_name'') (\<lambda>file_name. abind (arg args ''msg_type'') (\<lambda>msg_type.
     abind (lift (py_get args ''chat_id'' (PyStr []))) (\<lambda>chat_id.
     abind local_base (\<lambda>base.
     abind (case base of
              Some base_url \<Rightarrow> download_via_http sv base_url msg_id file_key
            | None \<Rightarrow> download_via_lark_oapi sv msg_id file_key msg_type) (\<lambda>data.
       case data of
         None \<Rightarrow> ret (err_result ''download failed'')
       | Some bytes \<Rightarrow>
           (case file_name of
              PyStr name \<Rightarrow>
                let sfx = suffix_of (mk_path name);
                    meta = mkdict [(''adapter'', PyStr ''feishu''), (''instance'', PyStr []), (''msg_id'', msg_id),
                      (''file_key'', file_key), (''file_name'', file_name), (''chat_id'', chat_id)]
                in if sfx = [] \<and> \<not> hashable msg_type
                   then lift (Inl (type_error (''unhashable type: '' @ repr_str (type_name msg_type))))
                   else store_bytes sv msg_type (if sfx = [] then default_ext_for msg_type else sfx) meta bytes
            | v \<Rightarrow> lift (Inl (type_error (''expected str, bytes or os.PathLike object, not '' @ type_name v)))))))))))"


subsection \<open>Uploads\<close>

text \<open>\<open>base64.b64decode(s, validate=True)\<close>: whole groups of the alphabet, padding only at the end.\<close>

definition is_b64_char :: "char \<Rightarrow> bool" where
  "is_b64_char c =
     (let n = of_char c :: nat in
      (65 \<le> n \<and> n \<le> 90) \<or> (97 \<le> n \<and> n \<le> 122) \<or> (48 \<le> n \<and> n \<le> 57) \<or> n = 43 \<or> n = 47)"

fun valid_b64 :: "string \<Rightarrow> bool" where
  "valid_b64 [] = True"
| "valid_b64 (a # b # c # d # rest) =
     (is_b64_char a \<and> is_b64_char b \<and>
      (if c = CHR ''='' then d = CHR ''='' \<and> rest = []
       else is_b64_char c \<and> (if d = CHR ''='' then rest = [] else is_b64_char d \<and> valid_b64 rest)))"
| "valid_b64 _ = False"

definition b64decode_strict :: "py_val \<Rightarrow> string option" where
  "b64decode_strict v =
     (case v of
        PyStr s \<Rightarrow> if valid_b64 s then (case b64decode s of Inr b \<Rightarrow> Some b | Inl _ \<Rightarrow> None) else None
      | _ \<Rightarrow> None)"

definition send_file_mock :: "'w services \<Rightarrow> string \<Rightarrow> py_val \<Rightarrow> py_val \<Rightarrow> string \<Rightarrow> ('w, py_kvs) act" where
  "send_file_mock sv base_url chat_id file_name bytes =
     abind (json_call sv ''POST'' (base_url @ ''/open-apis/im/v1/files'')
              (mkdict [(''file_type'', PyStr ''stream''), (''file_name'', file_name), (''content_b64'', PyStr (b64encode bytes))]))
     (\<lambda>r. case r of
        HttpUrlError m \<Rightarrow> ret (err_result (''mock upload failed: '' @ m))
      | HttpRaises e \<Rightarrow> lift (Inl e)
      | HttpBody t \<Rightarrow>
          abind (lift (rbind (sv_loads sv t) (\<lambda>v. rbind (py_get v ''data'' (PyDict [])) (\<lambda>d. py_get d ''file_key'' PyNone)))) (\<lambda>file_key.
            if \<not> py_truthy file_key then ret (err_result ''mock upload did not return file_key'')
            else
              abind (lift (sv_dumps sv (PyDict (mkdict [(''file_key'', file_key)])))) (\<lambda>inner.
              abind (json_call sv ''POST'' (base_url @ ''/open-apis/im/v1/messages?receive_id_type=chat_id'')
                       (mkdict [(''receive_id'', chat_id), (''msg_type'', PyStr ''file''), (''content'', PyStr inner)]))
                (reply_data sv ''mock send-file-message failed: '' (mkdict [(''file_key'', file_key)])))))"

definition send_file_live :: "('w, py_kvs) act" where
  "send_file_live = ret (err_result ''live send_file not yet implemented'')"

definition send_file :: "'w services \<Rightarrow> py_val \<Rightarrow> ('w, py_kvs) act" where
  "send_file sv args =
     abind (arg args ''chat_id'') (\<lambda>chat_id. abind (arg args ''file_name'') (\<lambda>file_name.
     abind (arg args ''content_b64'') (\<lambda>content_b64. abind (arg args ''sha256'') (\<lambda>expected_sha.
       case b64decode_strict content_b64 of
         None \<Rightarrow> ret (err_result (''b64 decode failed: '' @ sv_b64_error sv content_b64))
       | Some bytes \<Rightarrow>
           if PyStr (sv_sha256 sv bytes) \<noteq> expected_sha then ret (err_result ''sha256 mismatch'')
           else abind local_base (\<lambda>base.
             case base of
               Some base_url \<Rightarrow> send_file_mock sv base_url chat_id file_name bytes
             | None \<Rightarrow> send_file_live)))))"


subsection \<open>Dispatch\<close>

text \<open>\<open>react\<close> and \<open>un_react\<close> are retried on the live path only.\<close>

definition retry_unless_local :: "('w, py_kvs) act \<Rightarrow> ('w, py_kvs) act" where
  "retry_unless_local fn =
     abind local_base (\<lambda>base. case base of Some _ \<Rightarrow> fn | None \<Rightarrow> with_ratelimit_retry fn)"

definition on_directive :: "'w services \<Rightarrow> py_val \<Rightarrow> py_val \<Rightarrow> ('w, py_kvs) act" where
  "on_directive sv action args =
     (if action = PyStr ''send_message'' then with_ratelimit_retry (send_message sv args)
      else if action = PyStr ''react'' then retry_unless_local (react sv args)
      else if action = PyStr ''un_react'' then retry_unless_local (un_react sv args)
      else if action = PyStr ''send_card'' then with_ratelimit_retry (send_card sv args)
      else if action = PyStr ''pin'' then with_ratelimit_retry (pin sv args)
      else if action = PyStr ''unpin'' then with_ratelimit_retry (unpin sv args)
      else if action = PyStr ''download_file'' then download_file sv args
      else if action = PyStr ''send_file'' then send_file sv args
      else ret (err_result (''unknown action: '' @ py_str action)))"


section \<open>Retries\<close>

text \<open>A call whose outcome is handed out: it raised, or its result is not a rate limit.\<close>

definition answered :: "('w, py_kvs) act \<Rightarrow> 'w fstate \<Rightarrow> bool" where
  "answered fn s = (case fst (fn s) of Inl _ \<Rightarrow> True | Inr result \<Rightarrow> surfaces result)"

text \<open>The state in which the call number \<open>n\<close> is made, after \<open>n\<close> calls and their sleeps.\<close>

fun before_call :: "('w, py_kvs) act \<Rightarrow> nat \<Rightarrow> 'w fstate \<Rightarrow> 'w fstate" where
  "before_call fn 0 s = s"
| "before_call fn (Suc n) s = sleep (2 ^ n) (snd (fn (before_call fn n s)))"

lemma retry_Cons:
  "retry_loop fn (d # ds) e s =
     (if answered fn s then fn s
      else if e + d > RETRY_DEADLINE_S then (Inr (err_result ''timeout''), snd (fn s))
      else retry_loop fn ds (e + d) (sleep d (snd (fn s))))"
  by (cases "fn s") (auto simp: answered_def split: sum.splits)


section \<open>Frames\<close>

text \<open>An action that leaves a view of the state as it is.\<close>

definition keeps :: "('s \<Rightarrow> 'p) \<Rightarrow> ('s \<Rightarrow> 'a res \<times> 's) \<Rightarrow> bool" where
  "keeps view m = (\<forall>s. view (snd (m s)) = view s)"

named_theorems keeps_intros

lemma keeps_basic [keeps_intros]: "keeps view (ret x)" "keeps view (lift r)" "keeps view (arg a k)" "keeps view local_base"
  by (auto simp: keeps_def arg_def local_base_def Let_def split: py_val.splits)

lemma keeps_abind [keeps_intros]: "keeps view m \<Longrightarrow> (\<And>x. keeps view (f x)) \<Longrightarrow> keeps view (abind m f)"
  unfolding keeps_def abind_def by (auto split: prod.split sum.split dest: spec) (metis snd_conv)+

lemma keeps_state: "(\<And>t. keeps view (m t)) \<Longrightarrow> keeps view (\<lambda>s. m s s)"
  by (auto simp: keeps_def)

lemma keeps_cases [keeps_intros]:
  "(\<And>x. keeps view (f x)) \<Longrightarrow> keeps view g \<Longrightarrow> keeps view (case b of Some x \<Rightarrow> f x | None \<Rightarrow> g)"
  "keeps view g1 \<Longrightarrow> keeps view g2 \<Longrightarrow> keeps view (if c then g1 else g2)"
  "(\<And>x. keeps view (h1 x)) \<Longrightarrow> (\<And>x. keeps view (h2 x)) \<Longrightarrow> (\<And>x. keeps view (h3 x)) \<Longrightarrow>
    keeps view (case r of HttpBody x \<Rightarrow> h1 x | HttpUrlError x \<Rightarrow> h2 x | HttpRaises x \<Rightarrow> h3 x)"
  "keeps view g3 \<Longrightarrow> (\<And>x xs. keeps view (k x xs)) \<Longrightarrow> keeps view (case l of [] \<Rightarrow> g3 | x # xs \<Rightarrow> k x xs)"
  by (auto split: option.splits http_end.splits list.splits)

text \<open>A view that depends neither on the world nor on the adapter.\<close>

definition local_view :: "('w fstate \<Rightarrow> 'p) \<Rightarrow> bool" where
  "local_view view = (\<forall>s w f. view (s\<lparr>st_world := w\<rparr>) = view s \<and> view (s\<lparr>st_adapter := f\<rparr>) = view s)"

lemma keeps_calls:
  assumes "local_view view"
  shows "keeps view (lark_call sv req)" "keeps view (http_call sv rq)" "keeps view client"
  using assms
  by (auto simp: local_view_def keeps_def lark_call_def http_call_def client_def Let_def split: prod.splits sum.splits)

lemma keeps_json_call: "local_view view \<Longrightarrow> keeps view (json_call sv meth url body)"
  unfolding json_call_def by (rule keeps_state) (intro keeps_intros keeps_calls)

lemmas directive_defs = send_message_def send_message_mock_def reply_data_def lark_result_def message_id_result_def
  react_def react_mock_def un_react_def un_react_mock_def un_react_live_def send_card_def pin_def unpin_def data_attr_def
  send_file_def send_file_mock_def send_file_live_def

lemma keeps_directives:
  assumes "local_view view"
  shows "keeps view (react sv args)" "keeps view (un_react sv args)"
    "keeps view (send_card sv args)" "keeps view (pin sv args)" "keeps view (unpin sv args)" "keeps view (send_file sv args)"
  unfolding directive_defs
  by (intro keeps_intros keeps_calls keeps_json_call assms)+

lemma keeps_send_message:
  assumes "local_view view"
  shows "keeps view (send_message sv args)"
  unfolding send_message_def
  by (intro keeps_abind keeps_basic, rule keeps_state)
     (unfold directive_defs, intro keeps_intros keeps_calls keeps_json_call assms)

lemma local_views: "local_view st_sleeps" "local_view st_files" 
  by (auto simp: local_view_def)

lemma keeps_download_sleeps: "keeps st_sleeps (download_file sv args)"
proof -
  have *: "keeps st_sleeps (store_bytes sv mt sfx meta bytes)" for mt sfx meta bytes
    by (auto simp: keeps_def store_bytes_def Let_def split: prod.splits sum.splits)
  show ?thesis
    unfolding download_file_def download_via_http_def download_via_lark_oapi_def Let_def
    by (intro keeps_intros keeps_calls local_views * ) (auto split: py_val.splits intro!: keeps_intros *)
qed

lemma retry_eq:
  "with_ratelimit_retry fn s =
     (case find (\<lambda>n. answered fn (before_call fn n s)) [0, 1, 2, 3, 4] of
        Some n \<Rightarrow> fn (before_call fn n s)
      | None \<Rightarrow> (Inr (err_result ''timeout''), snd (fn (before_call fn 4 s))))"
  by (simp add: with_ratelimit_retry_def BACKOFF_SCHEDULE_def RETRY_DEADLINE_S_def retry_Cons numeral_eq_Suc
      del: retry_loop.simps)

lemma retry_state: "\<exists>n\<le>4. snd (with_ratelimit_retry fn s) = snd (fn (before_call fn n s))"
proof (cases "find (\<lambda>n. answered fn (before_call fn n s)) [0, 1, 2, 3, 4]")
  case None
  then show ?thesis by (auto simp: retry_eq)
next
  case (Some n)
  then have "n \<in> set [0, 1, 2, 3, 4]" by (metis find_Some_iff nth_mem)
  with Some show ?thesis by (intro exI [of _ n]) (auto simp: retry_eq)
qed

text \<open>The state after a directive: at most four sleeps of 1, 2, 4 and 8 seconds, and the files as before.\<close>

definition slept_only :: "'w fstate \<Rightarrow> 'w fstate \<Rightarrow> bool" where
  "slept_only s s' \<longleftrightarrow> (\<exists>k. k \<le> 4 \<and> st_sleeps s' = st_sleeps s @ map (\<lambda>i. 2 ^ i) [0..<k]) \<and> st_files s' = st_files s"

lemma before_call_slept:
  assumes "keeps st_sleeps fn" "keeps st_files fn"
  shows "st_sleeps (before_call fn n s) = st_sleeps s @ map (\<lambda>i. 2 ^ i) [0..<n] \<and> st_files (before_call fn n s) = st_files s"
  using assms by (induction n) (simp_all add: sleep_def keeps_def)

lemma slept_onlyI:
  assumes "keeps st_sleeps fn" "keeps st_files fn"
  shows slept_fn: "slept_only s (snd (fn s))"
    and slept_retry: "slept_only s (snd (with_ratelimit_retry fn s))"
    and slept_unless: "slept_only s (snd (retry_unless_local fn s))"
proof -
  show f: "slept_only s (snd (fn s))"
    unfolding slept_only_def using assms by (intro conjI exI [of _ 0]) (simp_all add: keeps_def)
  obtain n where "n \<le> 4" "snd (with_ratelimit_retry fn s) = snd (fn (before_call fn n s))"
    using retry_state by blast
  with assms before_call_slept [OF assms] show r: "slept_only s (snd (with_ratelimit_retry fn s))"
    unfolding slept_only_def keeps_def by metis
  have "retry_unless_local fn s = fn s \<or> retry_unless_local fn s = with_ratelimit_retry fn s \<or>
      (\<exists>e. retry_unless_local fn s = (Inl e, s))"
    by (auto simp: retry_unless_local_def abind_def local_base_def Let_def split: py_val.splits)
  moreover have "slept_only s s" unfolding slept_only_def by (intro conjI exI [of _ 0]) simp_all
  ultimately show "slept_only s (snd (retry_unless_local fn s))" using f r by (metis snd_conv)
qed

section \<open>Downloads into the store\<close>

definition tmp_apart :: "'w services \<Rightarrow> bool" where
  "tmp_apart sv \<longleftrightarrow> (\<forall>sfx mt sha ext. is_sha256_hex sha \<and> allowed_kind mt ext \<longrightarrow>
     mk_path (sv_tmp sv @ sfx) \<noteq> resource_path (sv_environ sv) mt sha ext)"

lemma media_inv_cong:
  assumes "tmp_apart sv" "\<And>p. p \<noteq> mk_path (sv_tmp sv @ sfx) \<Longrightarrow> map_of fs' p = map_of fs p"
  shows "media_inv sha (sv_environ sv) fs' = media_inv sha (sv_environ sv) fs"
  unfolding media_inv_def using assms unfolding tmp_apart_def by metis

text \<open>What a download may leave behind: an intact store and, on success, a URI that resolves to a file with the hash reported.\<close>

definition download_post :: "'w services \<Rightarrow> py_kvs res \<Rightarrow> fs \<Rightarrow> bool" where
  "download_post sv r files \<longleftrightarrow> media_inv (sv_sha256 sv) (sv_environ sv) files \<and>
     (\<forall>ack. r = Inr ack \<and> dget ''ok'' ack \<noteq> Some (PyBool False) \<longrightarrow>
        (\<exists>d uri p b. ack = ok_result d \<and> dget ''uri'' d = Some (PyStr uri) \<and> dget ''sha256'' d = Some (PyStr (sv_sha256 sv b)) \<and>
           resolve (sv_environ sv) files uri = Inr p \<and> map_of files p = Some (File b)))"

definition leaves :: "fs \<Rightarrow> ('a res \<Rightarrow> fs \<Rightarrow> bool) \<Rightarrow> ('w, 'a) act \<Rightarrow> bool" where
  "leaves F Q m = (\<forall>s. st_files s = F \<longrightarrow> Q (fst (m s)) (st_files (snd (m s))))"

lemma leaves_abind:
  assumes "keeps st_files m" "\<And>x. leaves F Q (f x)" "\<And>e. Q (Inl e) F"
  shows "leaves F Q (abind m f)"
  using assms unfolding leaves_def keeps_def abind_def
  by (auto split: prod.splits sum.splits) (metis snd_conv)+

lemma leaves_return:
  "Q (Inr x) F \<Longrightarrow> leaves F Q (ret x)" "Q r F \<Longrightarrow> leaves F Q (lift r)"
  by (simp_all add: leaves_def)

lemma resolve_frame:
  assumes "resolve e fs uri = Inr p" "map_of fs' p = map_of fs p"
  shows "resolve e fs' uri = Inr p"
  using assms by (auto simp: resolve_def exists_path_def Let_def split: sum.splits if_splits)

lemma media_store_cases:
  obtains (str) t where "mt = PyStr t"
    "media_store sv mt tmp meta fs = store (sv_sha256 sv) (sv_dumps sv) (sv_now sv) (sv_pid sv) (sv_ident sv) (sv_environ sv) t tmp meta fs"
  | (other) e where "media_store sv mt tmp meta fs = (Inl e, fs)"
  by (cases mt) (auto simp: media_store_def simp del: py_repr.simps)

lemma store_bytes_leaves:
  assumes hex: "\<And>b. is_sha256_hex (sv_sha256 sv b)" and inv: "media_inv (sv_sha256 sv) (sv_environ sv) F"
    and env: "wf_environ (sv_environ sv)" and apart: "tmp_apart sv"
  shows "leaves F (download_post sv) (store_bytes sv mt sfx meta bytes)"
proof -
  let ?tmp = "sv_tmp sv @ sfx"
  let ?F1 = "dset (mk_path ?tmp) (File bytes) F"
  have inv1: "media_inv (sv_sha256 sv) (sv_environ sv) ?F1"
    using media_inv_cong [OF apart, of sfx ?F1 F] inv by simp
  have del: "media_inv (sv_sha256 sv) (sv_environ sv) (ddel (mk_path ?tmp) G) = media_inv (sv_sha256 sv) (sv_environ sv) G" for G
    by (rule media_inv_cong [OF apart, where sfx = sfx]) (simp add: map_of_ddel)
  { fix s :: "'a fstate" assume F: "st_files s = F"
    obtain r G where m: "media_store sv mt ?tmp meta ?F1 = (r, G)" by fastforce
    have "media_inv (sv_sha256 sv) (sv_environ sv) G"
      using m inv1 by (cases rule: media_store_cases [of mt sv ?tmp meta ?F1]) (auto intro: store_media_inv [OF hex inv1 sym])
    moreover have "\<exists>uri p b. dget ''uri'' d = Some (PyStr uri) \<and> dget ''sha256'' d = Some (PyStr (sv_sha256 sv b)) \<and>
        resolve (sv_environ sv) (ddel (mk_path ?tmp) G) uri = Inr p \<and> map_of (ddel (mk_path ?tmp) G) p = Some (File b)"
      if d: "r = Inr d" for d
    proof -
      obtain t where "store (sv_sha256 sv) (sv_dumps sv) (sv_now sv) (sv_pid sv) (sv_ident sv) (sv_environ sv) t ?tmp meta ?F1 = (Inr d, G)"
        using m d by (cases rule: media_store_cases [of mt sv ?tmp meta ?F1]) (metis that, simp)
      from store_resolves [OF hex inv1 env this] obtain uri b where
        k: "allowed_kind t (ext_of (mk_path ?tmp))" and u: "dget ''uri'' d = Some (PyStr uri)" "dget ''sha256'' d = Some (PyStr (sv_sha256 sv b))"
        and p: "resolve (sv_environ sv) G uri = Inr (resource_path (sv_environ sv) t (sv_sha256 sv b) (ext_of (mk_path ?tmp)))"
          "map_of G (resource_path (sv_environ sv) t (sv_sha256 sv b) (ext_of (mk_path ?tmp))) = Some (File b)"
        unfolding Let_def by blast
      have "resource_path (sv_environ sv) t (sv_sha256 sv b) (ext_of (mk_path ?tmp)) \<noteq> mk_path ?tmp"
        using apart k hex unfolding tmp_apart_def by metis
      then have "map_of (ddel (mk_path ?tmp) G) (resource_path (sv_environ sv) t (sv_sha256 sv b) (ext_of (mk_path ?tmp))) = Some (File b)"
        using p(2) by (simp add: map_of_ddel)
      with resolve_frame [OF p(1)] p u show ?thesis by metis
    qed
    ultimately have "download_post sv (fst (store_bytes sv mt sfx meta bytes s)) (st_files (snd (store_bytes sv mt sfx meta bytes s)))"
      using m F by (auto simp: store_bytes_def Let_def download_post_def del err_result_def split: sum.splits) }
  then show ?thesis by (simp add: leaves_def)
qed

section \<open>The workspace of a chat\<close>

text \<open>The bindings of a workspaces file in its order: the chats of every workspace that have both ids.\<close>

fun chat_binding :: "py_val \<Rightarrow> py_val \<Rightarrow> ((string \<times> string) \<times> py_val) list" where
  "chat_binding name (PyDict d) =
     (case (dget ''chat_id'' d, dget ''app_id'' d) of (Some (PyStr c), Some (PyStr a)) \<Rightarrow> [((c, a), name)] | _ \<Rightarrow> [])"
| "chat_binding name _ = []"

definition chat_bindings :: "(py_val \<times> workspace) list \<Rightarrow> ((string \<times> string) \<times> py_val) list" where
  "chat_bindings wss = concat (map (\<lambda>(_, ws). concat (map (chat_binding (ws_name ws)) (ws_chats ws))) wss)"

lemma chat_entries_map:
  "chat_entries name chats out = Inr out' \<Longrightarrow>
   map_of out' = map_of out ++ map_of (rev (concat (map (chat_binding name) chats)))"
proof (induction chats arbitrary: out)
  case (Cons chat chats)
  obtain d where d: "chat = PyDict d" using Cons.prems by (auto simp: rbind_Inr_iff py_get_ok)
  define out1 where "out1 = (case (dget_or ''chat_id'' PyNone d, dget_or ''app_id'' PyNone d) of
    (PyStr c, PyStr a) \<Rightarrow> dset (c, a) name out | _ \<Rightarrow> out)"
  have "chat_entries name chats out1 = Inr out'" using Cons.prems by (simp add: d out1_def)
  from Cons.IH [OF this] have "map_of out' = map_of out1 ++ map_of (rev (concat (map (chat_binding name) chats)))" .
  moreover have "map_of out1 = map_of out ++ map_of (chat_binding name chat)"
    by (auto simp: out1_def d dget_or_def split: option.splits py_val.splits)
  moreover have "map_of (rev (chat_binding name chat)) = map_of (chat_binding name chat)"
    by (auto simp: d split: option.splits py_val.splits)
  ultimately show ?case by (simp add: map_add_assoc)
qed simp

lemma workspace_entries_map:
  "workspace_entries wss out = Inr out' \<Longrightarrow> map_of out' = map_of out ++ map_of (rev (chat_bindings wss))"
proof (induction wss arbitrary: out)
  case (Cons x wss)
  obtain k ws where x: "x = (k, ws)" by (cases x)
  from Cons.prems obtain out1 where o: "chat_entries (ws_name ws) (ws_chats ws) out = Inr out1" "workspace_entries wss out1 = Inr out'"
    by (auto simp: x rbind_Inr_iff)
  from Cons.IH [OF o(2)] chat_entries_map [OF o(1)] show ?case by (simp add: x chat_bindings_def map_add_assoc)
qed (simp add: chat_bindings_def)

text \<open>A missing or unreadable file leaves every chat unbound.\<close>

lemma factory_unreadable:
  assumes "workspaces_path env config = Inr p" "\<not> is_ok (read_workspaces yaml_load (file_at p))"
  shows "factory yaml_load file_at env actor_id config =
    Inr \<lparr>fa_actor_id = actor_id, fa_config = config, fa_lark_client = False, fa_workspace_of = []\<rparr>"
  using assms by (auto simp: factory_def load_workspace_map_def is_ok_def split: sum.splits)

lemma directive_effects:
  "slept_only s (snd (on_directive sv action args s)) \<or>
     action = PyStr ''download_file'' \<and> st_sleeps (snd (on_directive sv action args s)) = st_sleeps s"
proof -
  note k = keeps_directives [OF local_views(1)] keeps_directives [OF local_views(2)]
    keeps_send_message [OF local_views(1)] keeps_send_message [OF local_views(2)]
  show ?thesis
    using keeps_download_sleeps [of sv args] slept_fn [OF keeps_basic(1) keeps_basic(1), of s "err_result x" for x]
    by (simp add: on_directive_def slept_retry slept_unless slept_fn k keeps_def [of st_sleeps "download_file _ _"] del: act_simps)
qed

text \<open>The time a directive sleeps.\<close>

lemma directive_sleep_total:
  "sum_list (st_sleeps (snd (on_directive sv action args s))) \<le> sum_list (st_sleeps s) + 15"
proof -
  have *: "sum_list (map (\<lambda>i. 2 ^ i) [0..<k]) = (2 ^ k - 1 :: nat)" for k
    by (induction k) simp_all
  have le: "sum_list (map (\<lambda>i. 2 ^ i) [0..<k]) \<le> (15 :: nat)" if "k \<le> 4" for k
    using power_increasing [OF that, of "2 :: nat"] by (simp add: *)
  from directive_effects [of s sv action args] show ?thesis
  proof (elim disjE conjE)
    assume "slept_only s (snd (on_directive sv action args s))"
    then obtain k where "k \<le> 4" "st_sleeps (snd (on_directive sv action args s)) = st_sleeps s @ map (\<lambda>i. 2 ^ i) [0..<k]"
      unfolding slept_only_def by blast
    with le show ?thesis by simp
  qed simp
qed


section \<open>Properties\<close>

text \<open>
  C8. Rate limits are retried as a search: the call is made up to five times, after sleeps of 1, 2, 4 and 8 seconds, and
  the outcome is the first one that is an exception or a result other than a rate limit, in the state that call left; if all
  five are rate limited the result is a timeout.
\<close>

theorem retry_is_first_of_five:
  "with_ratelimit_retry fn s =
     (case find (\<lambda>n. answered fn (before_call fn n s)) [0, 1, 2, 3, 4] of
        Some n \<Rightarrow> fn (before_call fn n s)
      | None \<Rightarrow> (Inr (err_result ''timeout''), snd (fn (before_call fn 4 s))))"
  by (rule retry_eq)

text \<open>
  A directive of any kind sleeps at most four times, 1, 2, 4 and 8 seconds in this order, and leaves the local
  files alone; a download, which alone writes files, does not sleep.
\<close>

theorem directive_effects_bounded:
  "slept_only s (snd (on_directive sv action args s)) \<or>
     action = PyStr ''download_file'' \<and> st_sleeps (snd (on_directive sv action args s)) = st_sleeps s"
  by (rule directive_effects)

text \<open>
  C21. A download keeps the media store content-addressed whatever its outcome, and a successful one answers with a URI that
  resolves, once the temporary file is gone, to a stored file whose content has the hash of the answer.
  The temporary file is outside the store.
\<close>

theorem download_stores_content:
  assumes "\<And>b. is_sha256_hex (sv_sha256 sv b)" "media_inv (sv_sha256 sv) (sv_environ sv) (st_files s)"
    "wf_environ (sv_environ sv)" "tmp_apart sv" "download_file sv args s = (r, s')"
  shows "download_post sv r (st_files s')"
proof -
  let ?F = "st_files s"
  have e: "download_post sv (Inl e) ?F" "download_post sv (Inr (err_result m)) ?F" for e m
    using assms(2) by (simp_all add: download_post_def err_result_def)
  note k = keeps_intros keeps_calls [OF local_views(2)]
  have "leaves ?F (download_post sv) (download_file sv args)"
    unfolding download_file_def download_via_http_def download_via_lark_oapi_def Let_def
    by (intro leaves_abind k e)
       (auto split: option.splits py_val.splits intro!: leaves_return e store_bytes_leaves assms(1-4))
  with assms(5) show ?thesis unfolding leaves_def by fastforce
qed

text \<open>
  C19. The envelope of a received message carries the arguments unchanged, the sender as principal, or none if it is
  empty, and the workspace bound to the chat and the app by the last entry of the workspaces file that
  names both, or none.
\<close>

theorem envelope_names_last_binding:
  assumes "factory yaml_load file_at env actor_id config = Inr f" "workspaces_path env config = Inr p"
    "read_workspaces yaml_load (file_at p) = Inr wss" "app_id f = Inr (PyStr a)"
    "dget ''chat_id'' args = Some (PyStr c)" "c \<noteq> []"
  shows "\<exists>e. build_msg_received_envelope f args sender = Inr e \<and> dget ''event_type'' e = Some (PyStr ''msg_received'') \<and>
    dget ''args'' e = Some (PyDict args) \<and> dget ''principal_id'' e = Some (if py_truthy sender then sender else PyNone) \<and>
    dget ''workspace_name'' e = Some (case map_of (rev (chat_bindings wss)) (c, a) of Some w \<Rightarrow> w | None \<Rightarrow> PyNone)"
proof -
  obtain m where m: "workspace_entries wss [] = Inr m" "fa_workspace_of f = m"
    using assms(1-3) by (auto simp: factory_def load_workspace_map_def rbind_Inr_iff)
  have "map_of m = map_of (rev (chat_bindings wss))" using workspace_entries_map [OF m(1)] by simp
  with m assms(4-6) show ?thesis
    by (simp add: build_msg_received_envelope_def dget_or_def)
qed

text \<open>
  A file is sent only if its content is valid base64 and has the announced hash: otherwise nothing reaches the network.
\<close>

theorem send_file_sends_verified_bytes:
  "st_world (snd (send_file sv args s)) = st_world s \<or>
   (\<exists>d t b. args = PyDict d \<and> dget ''content_b64'' d = Some (PyStr t) \<and> valid_b64 t \<and> b64decode t = Inr b \<and>
      dget ''sha256'' d = Some (PyStr (sv_sha256 sv b)))"
  by (cases args) (auto simp: send_file_def arg_def py_index_def abind_def b64decode_strict_def split: option.splits py_val.splits if_splits sum.splits)

text \<open>A service that answers every request with the same bytes, for a concrete download.\<close>

definition demo_services :: "unit services" where
  "demo_services =
     \<lparr>sv_lark = (\<lambda>_ w. (Inl (Exc ''RuntimeError'' ''offline''), w)), sv_http = (\<lambda>_ w. (HttpBody ''data'', w)),
      sv_dumps = (\<lambda>_. Inr ''{}''), sv_loads = (\<lambda>_. Inr (PyDict [])), sv_sha256 = demo_sha, sv_b64_error = (\<lambda>_. ''bad''),
      sv_environ = demo_env, sv_now = ''t'', sv_pid = 1, sv_ident = 2, sv_tmp = ''/tmp/x''\<rparr>"

definition demo_config :: py_kvs where
  "demo_config = mkdict [(''app_id'', PyStr ''cli_1''), (''base_url'', PyStr ''http://127.0.0.1:8101''), (''workspaces_path'', PyStr ''/w.yaml'')]"

definition demo_feishu :: "unit fstate" where
  "demo_feishu = \<lparr>st_adapter = \<lparr>fa_actor_id = ''feishu_1'', fa_config = demo_config, fa_lark_client = False, fa_workspace_of = []\<rparr>,
     st_files = [], st_sleeps = [], st_world = ()\<rparr>"

definition demo_download :: py_val where
  "demo_download = PyDict (mkdict [(''msg_id'', PyStr ''om_1''), (''file_key'', PyStr ''k''), (''file_name'', PyStr ''a.png''),
     (''msg_type'', PyStr ''image'')])"

lemma demo_apart: "tmp_apart demo_services"
proof -
  have t: "hd (snd (mk_path (''/tmp/x'' @ sfx))) = ''tmp''" for sfx
    by (cases "split_on CHR ''/'' sfx") (simp_all add: mk_path_def)
  have h: "hd (snd (resource_path demo_env mt sha ext)) = ''h''" if "is_sha256_hex sha" "allowed_kind mt ext" for mt sha ext
  proof -
    have "snd (subpath (esrd_home demo_env) (env_name demo_env)) = [''h'', ''default'']" by code_simp
    then show ?thesis using that allowed_kind_clean [OF that(2)] resource_dir_parts [OF that(2), of demo_env]
      by (simp add: resource_path_def resource_file) (metis append_Cons hd_append2 list.sel(1) list.simps(3) snd_conv)
  qed
  have "mk_path (''/tmp/x'' @ sfx) \<noteq> resource_path demo_env mt sha ext"
    if "is_sha256_hex sha" "allowed_kind mt ext" for sfx mt sha ext
  proof
    assume "mk_path (''/tmp/x'' @ sfx) = resource_path demo_env mt sha ext"
    with t [of sfx] h [OF that] show False by (simp del: append.append_Cons)
  qed
  then show ?thesis by (simp add: tmp_apart_def demo_services_def)
qed

theorem download_stores_content_witness:
  "download_post demo_services (fst (download_file demo_services demo_download demo_feishu))
     (st_files (snd (download_file demo_services demo_download demo_feishu)))"
proof (rule download_stores_content)
  show "is_sha256_hex (sv_sha256 demo_services b)" for b by (simp add: demo_services_def demo_sha_hex)
  show "media_inv (sv_sha256 demo_services) (sv_environ demo_services) (st_files demo_feishu)"
    by (simp add: media_inv_def demo_feishu_def)
  show "wf_environ (sv_environ demo_services)" by (simp add: demo_services_def demo_wf_environ)
  show "tmp_apart demo_services" by (rule demo_apart)
qed simp

definition demo_rows :: py_kvs where
  "demo_rows = mkdict [(''w1'', PyDict (mkdict [(''chats'', PyList [PyDict (mkdict [(''chat_id'', PyStr ''oc_1''), (''app_id'', PyStr ''cli_1'')])])])),
     (''w2'', PyDict (mkdict [(''chats'', PyList [PyDict (mkdict [(''chat_id'', PyStr ''oc_1''), (''app_id'', PyStr ''cli_1'')])])]))]"

definition demo_file_at :: "path \<Rightarrow> string option" where
  "demo_file_at p = Some (encode_val (PyDict (mkdict [(''workspaces'', PyDict demo_rows)])))"

theorem envelope_names_last_binding_witness:
  "\<exists>f e. factory demo_load demo_file_at demo_env ''feishu_1'' demo_config = Inr f \<and>
     build_msg_received_envelope f (mkdict [(''chat_id'', PyStr ''oc_1'')]) (PyStr []) = Inr e \<and>
     dget ''workspace_name'' e = Some (PyStr ''w2'') \<and> dget ''principal_id'' e = Some PyNone"
proof -
  obtain wss where wss: "read_workspaces demo_load (demo_file_at (mk_path ''/w.yaml'')) = Inr wss"
    "map_of (rev (chat_bindings wss)) (''oc_1'', ''cli_1'') = Some (PyStr ''w2'')" "is_ok (workspace_entries wss [])"
    by (simp add: read_workspaces_def demo_load_def demo_file_at_def demo_rows_def read_row_def dget_or_def chat_bindings_def is_ok_def)
  have p: "workspaces_path demo_env demo_config = Inr (mk_path ''/w.yaml'')"
    by (simp add: workspaces_path_def demo_config_def config_getattr_def Let_def)
  obtain f where f: "factory demo_load demo_file_at demo_env ''feishu_1'' demo_config = Inr f" "fa_config f = demo_config"
    using wss p by (auto simp: factory_def load_workspace_map_def is_ok_iff)
  have "app_id f = Inr (PyStr ''cli_1'')" by (simp add: app_id_def f demo_config_def config_getattr_def)
  from envelope_names_last_binding [OF f(1) p wss(1) this, of "mkdict [(''chat_id'', PyStr ''oc_1'')]" "''oc_1''" "PyStr []"] f wss
  show ?thesis by auto
qed

end
