(* ===== verification/Feishu_Events.thy ===== *)
theory Feishu_Events
  imports Feishu_Adapter
begin

text \<open>
  \<^verbatim>\<open>adapters/feishu/src/esr_feishu/adapter.py\<close>, second half: the stream of inbound messages, from the Lark
  WebSocket, from the polling fallback and from the mock server.

  An object of the SDK is the dictionary of its attributes, and \<open>getattr\<close> with a default is a lookup in it.
  The source of the stream is a list of inputs: callbacks of the WebSocket client and results of the
  list request on the live path, connections with their frames on the mock path. \<open>json.loads\<close> raises
  only \<open>ValueError\<close> on a string.
\<close>

section \<open>Attributes and content\<close>

text \<open>\<open>o.k\<close> and \<open>getattr(o, k, dflt)\<close>.\<close>

definition oget :: "py_val \<Rightarrow> string \<Rightarrow> py_val res" where
  "oget obj k =
     (case obj of
        PyDict d \<Rightarrow> (case dget k d of Some v \<Rightarrow> Inr v | None \<Rightarrow> Inl (Exc ''AttributeError'' k))
      | v \<Rightarrow> Inl (attr_error v k))"

definition oattr :: "py_val \<Rightarrow> string \<Rightarrow> py_val \<Rightarrow> py_val" where
  "oattr obj k dflt = (case obj of PyDict d \<Rightarrow> dget_or k dflt d | _ \<Rightarrow> dflt)"

definition oattr_or_empty :: "py_val \<Rightarrow> string \<Rightarrow> py_val" where
  "oattr_or_empty obj k = py_or (oattr obj k (PyStr [])) (PyStr [])"

definition extract_text :: "(string \<Rightarrow> py_val res) \<Rightarrow> py_val \<Rightarrow> py_val \<Rightarrow> py_val" where
  "extract_text json_loads raw_content msg_type =
     (if \<not> py_truthy raw_content then PyStr []
      else if msg_type = PyStr ''text'' then
        (case raw_content of
           PyStr s \<Rightarrow>
             (case json_loads s of
                Inr (PyDict d) \<Rightarrow> (case dget ''text'' d of Some (PyStr t) \<Rightarrow> PyStr t | _ \<Rightarrow> raw_content)
              | _ \<Rightarrow> raw_content)
         | _ \<Rightarrow> raw_content)
      else raw_content)"

text \<open>The arguments every path sends.\<close>

definition msg_args ::
  "string \<Rightarrow> py_val \<Rightarrow> py_val \<Rightarrow> py_val \<Rightarrow> py_val \<Rightarrow> py_val \<Rightarrow> py_val \<Rightarrow> py_val \<Rightarrow> py_val \<Rightarrow> py_val \<Rightarrow> py_kvs"
where
  "msg_args actor_id chat_id message_id content raw_content msg_type sender_id sender_type thread_id root_id =
     mkdict [(''chat_id'', chat_id), (''app_id'', PyStr actor_id), (''message_id'', message_id), (''content'', content),
       (''raw_content'', raw_content), (''msg_type'', msg_type), (''sender_id'', sender_id), (''sender_type'', sender_type),
       (''thread_id'', thread_id), (''root_id'', root_id)]"


section \<open>The live WebSocket\<close>

definition handle_receive_envelope :: "(string \<Rightarrow> py_val res) \<Rightarrow> feishu \<Rightarrow> py_val \<Rightarrow> py_kvs res" where
  "handle_receive_envelope json_loads f data =
     rbind (oget data ''event'') (\<lambda>event.
     rbind (oget event ''message'') (\<lambda>message.
     rbind (oget event ''sender'') (\<lambda>sender.
       let raw_content = oattr_or_empty message ''content'';
           msg_type = oattr_or_empty message ''message_type'';
           extracted = extract_text json_loads raw_content msg_type;
           sender_open_id = oattr_or_empty (oattr sender ''sender_id'' PyNone) ''open_id'';
           chat_id = oattr_or_empty message ''chat_id''
       in build_msg_received_envelope f
            (msg_args (fa_actor_id f) chat_id (oattr_or_empty message ''message_id'') extracted raw_content msg_type
               sender_open_id (oattr_or_empty sender ''sender_type'') (oattr_or_empty message ''thread_id'')
               (oattr_or_empty message ''root_id''))
            sender_open_id)))"

text \<open>The callback: what it enqueues; an exception is logged and dropped.\<close>

definition handle_receive :: "(string \<Rightarrow> py_val res) \<Rightarrow> feishu \<Rightarrow> py_val \<Rightarrow> py_kvs list" where
  "handle_receive json_loads f data =
     (case handle_receive_envelope json_loads f data of Inr payload \<Rightarrow> [payload] | Inl _ \<Rightarrow> [])"


section \<open>The polling fallback\<close>

definition message_to_envelope :: "(string \<Rightarrow> py_val res) \<Rightarrow> feishu \<Rightarrow> py_val \<Rightarrow> py_val \<Rightarrow> py_kvs res" where
  "message_to_envelope json_loads f m chat_id =
     (let body = oattr m ''body'' PyNone;
          raw_content = (if py_truthy body then oattr body ''content'' (PyStr []) else PyStr []);
          msg_type = oattr_or_empty m ''msg_type'';
          extracted = extract_text json_loads raw_content msg_type;
          sender = oattr m ''sender'' PyNone;
          sender_open_id =
            py_or (if py_truthy sender then oattr (oattr sender ''id'' PyNone) ''open_id'' (PyStr []) else PyStr []) (PyStr [])
      in build_msg_received_envelope f
           (msg_args (fa_actor_id f) chat_id (oattr_or_empty m ''message_id'') extracted raw_content msg_type
              sender_open_id (if py_truthy sender then oattr sender ''sender_type'' (PyStr []) else PyStr [])
              (oattr_or_empty m ''thread_id'') (oattr_or_empty m ''root_id''))
           sender_open_id)"

record poller =
  pl_seen :: "py_val set"
  pl_bootstrap :: bool
  pl_queue :: "py_kvs list"

text \<open>The scan of a batch. The ids already marked stay marked when an unhashable one raises.\<close>

fun collect_fresh :: "bool \<Rightarrow> py_val list \<Rightarrow> py_val set \<Rightarrow> py_val list \<Rightarrow> py_val list res \<times> py_val set" where
  "collect_fresh bootstrap [] seen fresh = (Inr fresh, seen)"
| "collect_fresh bootstrap (m # ms) seen fresh =
     (let mid = oattr m ''message_id'' PyNone in
      if \<not> py_truthy mid then collect_fresh bootstrap ms seen fresh
      else if \<not> hashable mid then (Inl (type_error (''unhashable type: '' @ repr_str (type_name mid))), seen)
      else if mid \<in> seen then collect_fresh bootstrap ms seen fresh
      else collect_fresh bootstrap ms (insert mid seen) (if bootstrap then fresh else fresh @ [m]))"

fun enqueue_all :: "(py_val \<Rightarrow> py_kvs res) \<Rightarrow> py_val list \<Rightarrow> py_kvs list \<Rightarrow> unit res \<times> py_kvs list" where
  "enqueue_all conv [] q = (Inr (), q)"
| "enqueue_all conv (m # ms) q = (case conv m of Inl e \<Rightarrow> (Inl e, q) | Inr envelope \<Rightarrow> enqueue_all conv ms (q @ [envelope]))"

text \<open>The items of a response, if \<open>resp.code == 0 and resp.data and resp.data.items\<close>.\<close>

definition response_items :: "py_val \<Rightarrow> py_val list option res" where
  "response_items resp =
     rbind (oget resp ''code'') (\<lambda>code.
       if \<not> py_eq code (PyInt 0) then Inr None
       else rbind (oget resp ''data'') (\<lambda>data.
         if \<not> py_truthy data then Inr None
         else rbind (oget data ''items'') (\<lambda>items.
           if \<not> py_truthy items then Inr None else rbind (py_iter items) (\<lambda>xs. Inr (Some xs)))))"

text \<open>One turn of the loop on the outcome of the request; what raises is logged and the loop goes on.\<close>

definition poll_step :: "(string \<Rightarrow> py_val res) \<Rightarrow> feishu \<Rightarrow> py_val \<Rightarrow> py_val res \<Rightarrow> poller \<Rightarrow> poller" where
  "poll_step json_loads f chat_id outcome p =
     (case rbind outcome response_items of
        Inr (Some items) \<Rightarrow>
          (case collect_fresh (pl_bootstrap p) items (pl_seen p) [] of
             (Inl _, seen) \<Rightarrow> p\<lparr>pl_seen := seen\<rparr>
           | (Inr fresh, seen) \<Rightarrow>
               (case enqueue_all (\<lambda>m. message_to_envelope json_loads f m chat_id) (rev fresh) (pl_queue p) of
                  (Inl _, q) \<Rightarrow> p\<lparr>pl_seen := seen, pl_queue := q\<rparr>
                | (Inr _, q) \<Rightarrow> p\<lparr>pl_seen := seen, pl_bootstrap := False, pl_queue := q\<rparr>))
      | _ \<Rightarrow> p)"

definition poll_start :: poller where
  "poll_start = \<lparr>pl_seen = {}, pl_bootstrap = True, pl_queue = []\<rparr>"

definition poll_chat_messages :: "(string \<Rightarrow> py_val res) \<Rightarrow> feishu \<Rightarrow> py_val \<Rightarrow> py_val res list \<Rightarrow> poller \<Rightarrow> poller" where
  "poll_chat_messages json_loads f chat_id = fold (poll_step json_loads f chat_id)"

text \<open>
  The live stream: callbacks and poll results in the order they happen, onto one queue; the polling task
  exists only if a chat is configured or named by \<open>FEISHU_TEST_CHAT_ID\<close>, and only with credentials.
\<close>

datatype live_input = WsEvent py_val | PollResult "py_val res"

definition poll_chat_id :: "string option \<Rightarrow> feishu \<Rightarrow> py_val" where
  "poll_chat_id test_chat_id f =
     (let v = cfg_or ''poll_chat_id'' PyNone f in
      if py_truthy v then v else (case test_chat_id of Some t \<Rightarrow> PyStr t | None \<Rightarrow> PyStr []))"

definition live_step :: "(string \<Rightarrow> py_val res) \<Rightarrow> feishu \<Rightarrow> py_val \<Rightarrow> live_input \<Rightarrow> poller \<Rightarrow> poller" where
  "live_step json_loads f chat_id inp p =
     (case inp of
        WsEvent data \<Rightarrow> p\<lparr>pl_queue := pl_queue p @ handle_receive json_loads f data\<rparr>
      | PollResult outcome \<Rightarrow> if py_truthy chat_id then poll_step json_loads f chat_id outcome p else p)"

definition emit_events_lark ::
  "(string \<Rightarrow> py_val res) \<Rightarrow> string option \<Rightarrow> feishu \<Rightarrow> live_input list \<Rightarrow> py_kvs list res"
where
  "emit_events_lark json_loads test_chat_id f inputs =
     rbind (app_id f) (\<lambda>_. rbind (config_getattr (fa_config f) ''app_secret'') (\<lambda>_.
       Inr (pl_queue (fold (live_step json_loads f (poll_chat_id test_chat_id f)) inputs poll_start))))"


section \<open>The mock server\<close>

datatype ws_msg = WsText string | WsOther

text \<open>The branch for downloadable types.\<close>

definition mock_file_args :: "(string \<Rightarrow> py_val res) \<Rightarrow> py_val \<Rightarrow> py_val \<Rightarrow> py_kvs \<Rightarrow> py_kvs res" where
  "mock_file_args json_loads msg_type raw_content mock_args =
     (if \<not> hashable msg_type then Inl (type_error (''unhashable type: '' @ repr_str (type_name msg_type)))
      else if msg_type \<in> {PyStr ''image'', PyStr ''file'', PyStr ''audio'', PyStr ''media''} then
        let content_dict =
              (case raw_content of
                 PyStr s \<Rightarrow> (case json_loads s of Inr v \<Rightarrow> v | Inl _ \<Rightarrow> PyDict [])
               | _ \<Rightarrow> PyDict [])
        in rbind (py_get content_dict ''image_key'' PyNone) (\<lambda>ik.
           rbind (if py_truthy ik then Inr ik else py_get content_dict ''file_key'' PyNone) (\<lambda>fk.
           rbind (py_get content_dict ''file_name'' PyNone) (\<lambda>name.
             let file_key = py_or fk (PyStr []);
                 file_name =
                   (if py_truthy name then name
                    else if msg_type = PyStr ''image''
                      then PyStr (if py_truthy file_key then py_str file_key @ ''.png'' else ''unknown.png'')
                    else py_or file_key (PyStr ''unknown''))
             in Inr (dset (PyStr ''file_name'') file_name (dset (PyStr ''file_key'') file_key mock_args)))))
      else Inr mock_args)"

text \<open>The envelope of a decoded frame; \<open>or_dict v\<close> is \<open>v or {}\<close>.\<close>

definition or_dict :: "py_val \<Rightarrow> py_val" where
  "or_dict v = py_or v (PyDict [])"

definition mock_event :: "(string \<Rightarrow> py_val res) \<Rightarrow> feishu \<Rightarrow> py_val \<Rightarrow> py_kvs res" where
  "mock_event json_loads f envelope =
     rbind (py_get envelope ''event'' PyNone) (\<lambda>e. let event = or_dict e in
     rbind (py_get event ''message'' PyNone) (\<lambda>m. let message = or_dict m in
     rbind (py_get event ''sender'' PyNone) (\<lambda>sn. let sender = or_dict sn in
     rbind (py_get sender ''sender_id'' PyNone) (\<lambda>si. let sender_id = or_dict si in
     rbind (py_get message ''content'' (PyStr [])) (\<lambda>raw_content.
     rbind (py_get message ''message_type'' (PyStr [])) (\<lambda>msg_type.
     rbind (py_get sender_id ''open_id'' (PyStr [])) (\<lambda>oi. let sender_open_id = py_or oi (PyStr []) in
     rbind (py_get message ''chat_id'' (PyStr [])) (\<lambda>ci. let chat_id = py_or ci (PyStr []) in
     rbind (py_get message ''message_id'' (PyStr [])) (\<lambda>message_id.
     rbind (py_get sender ''sender_type'' (PyStr [])) (\<lambda>sender_type.
     rbind (py_get message ''thread_id'' (PyStr [])) (\<lambda>thread_id.
     rbind (py_get message ''root_id'' (PyStr [])) (\<lambda>root_id.
     rbind (mock_file_args json_loads msg_type raw_content
              (msg_args (fa_actor_id f) chat_id message_id (extract_text json_loads raw_content msg_type) raw_content msg_type
                 sender_open_id sender_type thread_id root_id)) (\<lambda>mock_args.
       build_msg_received_envelope f mock_args sender_open_id)))))))))))))"

text \<open>The frames of one connection: the envelopes yielded, and the exception that ends the generator if there is one.\<close>

fun relay_frames :: "(string \<Rightarrow> py_val res) \<Rightarrow> feishu \<Rightarrow> ws_msg list \<Rightarrow> py_kvs list \<times> py_exc option" where
  "relay_frames json_loads f [] = ([], None)"
| "relay_frames json_loads f (WsOther # msgs) = relay_frames json_loads f msgs"
| "relay_frames json_loads f (WsText t # msgs) =
     (case json_loads t of
        Inl _ \<Rightarrow> relay_frames json_loads f msgs
      | Inr envelope \<Rightarrow>
          (case mock_event json_loads f envelope of
             Inl e \<Rightarrow> ([], Some e)
           | Inr env \<Rightarrow> (case relay_frames json_loads f msgs of (envs, x) \<Rightarrow> (env # envs, x))))"

text \<open>
  The connections in turn: frames, and whether the connection ended in a client error or timeout (a refused one has
  no frames and does), which is slept on for a second; a clean close reconnects at once.
\<close>

fun mock_connections ::
  "(string \<Rightarrow> py_val res) \<Rightarrow> feishu \<Rightarrow> (ws_msg list \<times> bool) list \<Rightarrow> py_kvs list \<times> nat list \<times> py_exc option"
where
  "mock_connections json_loads f [] = ([], [], None)"
| "mock_connections json_loads f ((msgs, failed) # conns) =
     (case relay_frames json_loads f msgs of
        (envs, Some e) \<Rightarrow> (envs, [], Some e)
      | (envs, None) \<Rightarrow>
          (case mock_connections json_loads f conns of
             (envs', sleeps, x) \<Rightarrow> (envs @ envs', (if failed then [1] else []) @ sleeps, x)))"

text \<open>\<open>s.replace(old, new)\<close> for a non-empty \<open>old\<close>.\<close>

function replace_all :: "string \<Rightarrow> string \<Rightarrow> string \<Rightarrow> string" where
  "replace_all old new [] = []"
| "replace_all old new (c # cs) =
     (if startswith (c # cs) old then new @ replace_all old new (drop (length old - 1) cs) else c # replace_all old new cs)"
  by pat_completeness auto

termination
  by (relation "measure (\<lambda>(_, _, s). length s)") auto

definition ws_url :: "string \<Rightarrow> py_val \<Rightarrow> string" where
  "ws_url base_url app = replace_all ''http://'' ''ws://'' (rstrip_char CHR ''/'' base_url) @ ''/ws?app_id='' @ py_str app"

definition emit_events_mock ::
  "(string \<Rightarrow> py_val res) \<Rightarrow> (string \<Rightarrow> (ws_msg list \<times> bool) list) \<Rightarrow> feishu \<Rightarrow> string \<Rightarrow> py_kvs list \<times> nat list \<times> py_exc option"
where
  "emit_events_mock json_loads net f base_url =
     (case app_id f of
        Inl e \<Rightarrow> ([], [], Some e)
      | Inr app \<Rightarrow> mock_connections json_loads f (net (ws_url base_url app)))"

definition emit_events ::
  "(string \<Rightarrow> py_val res) \<Rightarrow> (string \<Rightarrow> (ws_msg list \<times> bool) list) \<Rightarrow> string option \<Rightarrow> feishu \<Rightarrow> live_input list \<Rightarrow>
   py_kvs list \<times> py_exc option"
where
  "emit_events json_loads net test_chat_id f inputs =
     (case local_base_str f of
        Some base_url \<Rightarrow> (case emit_events_mock json_loads net f base_url of (envs, _, x) \<Rightarrow> (envs, x))
      | None \<Rightarrow> (case emit_events_lark json_loads test_chat_id f inputs of Inr envs \<Rightarrow> (envs, None) | Inl e \<Rightarrow> ([], Some e)))"

section \<open>Lemmas on the mock path\<close>

lemma mock_file_args_eq:
  assumes "\<not> is_ok (json_loads [])"
  shows "mock_file_args json_loads msg_type raw_content args = add_file_args msg_type (load_content json_loads raw_content) args"
proof -
  obtain e where e: "json_loads [] = Inl e" using assms by (cases "json_loads []") (auto simp: is_ok_def)
  have c: "(case raw_content of PyStr s \<Rightarrow> (case json_loads s of Inr v \<Rightarrow> v | Inl _ \<Rightarrow> PyDict []) | _ \<Rightarrow> PyDict []) =
      load_content json_loads raw_content"
    by (auto simp: load_content_def e split: py_val.splits)
  have d: "msg_type \<in> {PyStr ''image'', PyStr ''file'', PyStr ''audio'', PyStr ''media''} \<longleftrightarrow> (\<exists>mt \<in> set DOWNLOADABLE. msg_type = PyStr mt)"
    by (auto simp: DOWNLOADABLE_def)
  show ?thesis
  proof (cases "msg_type \<in> {PyStr ''image'', PyStr ''file'', PyStr ''audio'', PyStr ''media''}")
    case True
    with d obtain mt where mt: "mt \<in> set DOWNLOADABLE" "msg_type = PyStr mt" by blast
    have h: "hashable msg_type" by (simp add: mt)
    define cd where "cd = load_content json_loads raw_content"
    show ?thesis
      unfolding mock_file_args_def c if_P [OF True]
      unfolding add_file_args_def cd_def [symmetric]
      using h mt by (cases cd) (simp_all add: file_args_def py_get_def py_or_def Let_def)
  next
    case False
    with d show ?thesis by (auto simp: mock_file_args_def add_file_args_def split: py_val.splits)
  qed
qed

definition str_fields :: "string list \<Rightarrow> py_kvs \<Rightarrow> bool" where
  "str_fields ks d = (\<forall>k\<in>set ks. case dget k d of None \<Rightarrow> True | Some (PyStr _) \<Rightarrow> True | _ \<Rightarrow> False)"

lemma str_field:
  assumes "str_fields ks d" "k \<in> set ks"
  shows "\<exists>t. dget_or k (PyStr []) d = PyStr t"
proof -
  from assms have c: "case dget k d of None \<Rightarrow> True | Some (PyStr _) \<Rightarrow> True | _ \<Rightarrow> False" by (auto simp: str_fields_def)
  show ?thesis
  proof (cases "dget k d")
    case (Some v)
    with c show ?thesis by (cases v) (simp_all add: dget_or_def)
  qed (simp add: dget_or_def)
qed

lemma oattr_or_empty_str: "str_fields ks d \<Longrightarrow> k \<in> set ks \<Longrightarrow> oattr_or_empty (PyDict d) k = dget_or k (PyStr []) d"
  using str_field [of ks d k] by (auto simp: oattr_or_empty_def oattr_def py_or_def)

section \<open>Lemmas on polling\<close>

text \<open>The id of a message, the messages of a batch that are new after a set of ids, and what a sequence of batches brings.\<close>

definition mid_of :: "py_val \<Rightarrow> py_val" where
  "mid_of m = oattr m ''message_id'' PyNone"

fun news :: "py_val set \<Rightarrow> py_val list \<Rightarrow> py_val list" where
  "news seen [] = []"
| "news seen (m # ms) = (if mid_of m \<in> seen then news seen ms else m # news (insert (mid_of m) seen) ms)"

fun polled :: "py_val set \<Rightarrow> py_val list list \<Rightarrow> py_val list" where
  "polled seen [] = []"
| "polled seen (b # bs) = rev (news seen b) @ polled (seen \<union> mid_of ` set b) bs"

definition batch_of :: "py_val res \<Rightarrow> py_val list option" where
  "batch_of outcome = (case rbind outcome response_items of Inr (Some items) \<Rightarrow> Some items | _ \<Rightarrow> None)"

definition has_str_id :: "py_val \<Rightarrow> bool" where
  "has_str_id m = (case mid_of m of PyStr t \<Rightarrow> t \<noteq> [] | _ \<Rightarrow> False)"

lemma has_str_id_simps: "has_str_id m \<Longrightarrow> py_truthy (mid_of m) \<and> hashable (mid_of m)"
  by (cases "mid_of m") (auto simp: has_str_id_def)

lemma collect_fresh_eq:
  "list_all has_str_id ms \<Longrightarrow>
   collect_fresh bootstrap ms seen fresh = (Inr (fresh @ (if bootstrap then [] else news seen ms)), seen \<union> mid_of ` set ms)"
proof (induction ms arbitrary: seen fresh)
  case (Cons m ms)
  then have "py_truthy (oattr m ''message_id'' PyNone)" "hashable (oattr m ''message_id'' PyNone)"
    using has_str_id_simps [of m] by (auto simp: mid_of_def)
  with Cons show ?case by (auto simp: Let_def mid_of_def)
qed simp

lemma enqueue_all_eq: "(\<And>m. conv m = Inr (g m)) \<Longrightarrow> enqueue_all conv ms q = (Inr (), q @ map g ms)"
  by (induction ms arbitrary: q) simp_all

lemma news_distinct: "distinct (map mid_of (news seen ms)) \<and> mid_of ` set (news seen ms) = mid_of ` set ms - seen"
  by (induction ms arbitrary: seen) (auto simp: image_iff)

lemma polled_distinct:
  "distinct (map mid_of (polled seen bs)) \<and> mid_of ` set (polled seen bs) = (\<Union>b\<in>set bs. mid_of ` set b) - seen"
proof (induction bs arbitrary: seen)
  case (Cons b bs)
  let ?P = "polled (seen \<union> mid_of ` set b) bs"
  have p: "distinct (map mid_of ?P)" "mid_of ` set ?P = (\<Union>b\<in>set bs. mid_of ` set b) - (seen \<union> mid_of ` set b)"
    and n: "distinct (map mid_of (news seen b))" "mid_of ` set (news seen b) = mid_of ` set b - seen"
    using Cons.IH [of "seen \<union> mid_of ` set b"] news_distinct [of seen b] by blast+
  have "distinct (rev (map mid_of (news seen b)) @ map mid_of ?P)"
    using p n by (simp add: disjoint_iff)
  moreover have "mid_of ` set (rev (news seen b) @ ?P) = (\<Union>b\<in>set (b # bs). mid_of ` set b) - seen"
    unfolding set_append image_Un set_rev p(2) n(2) by auto
  ultimately show ?case by (simp add: rev_map)
qed simp

lemma poll_run:
  assumes "\<And>m. message_to_envelope json_loads f m chat_id = Inr (g m)" "\<forall>b\<in>set (List.map_filter batch_of outcomes). list_all has_str_id b"
    "\<not> pl_bootstrap p"
  shows "pl_queue (poll_chat_messages json_loads f chat_id outcomes p) =
    pl_queue p @ map g (polled (pl_seen p) (List.map_filter batch_of outcomes))"
  using assms(2,3)
proof (induction outcomes arbitrary: p)
  case Nil
  show ?case by (simp add: poll_chat_messages_def map_filter_def)
next
  case (Cons x outcomes)
  show ?case
  proof (cases "batch_of x")
    case None
    then have "poll_step json_loads f chat_id x p = p"
      by (auto simp: poll_step_def batch_of_def split: sum.splits option.splits)
    with Cons None show ?thesis by (simp add: poll_chat_messages_def map_filter_simps)
  next
    case (Some b)
    define p' where "p' = poll_step json_loads f chat_id x p"
    have b: "list_all has_str_id b" using Cons.prems Some by (simp add: map_filter_simps)
    have p': "p' = p\<lparr>pl_seen := pl_seen p \<union> mid_of ` set b, pl_bootstrap := False, pl_queue := pl_queue p @ map g (rev (news (pl_seen p) b))\<rparr>"
      using Some Cons.prems(2) unfolding p'_def poll_step_def batch_of_def
      by (auto simp: collect_fresh_eq [OF b] enqueue_all_eq [OF assms(1)] split: sum.splits option.splits)
    have "pl_queue (poll_chat_messages json_loads f chat_id outcomes p') =
        pl_queue p' @ map g (polled (pl_seen p') (List.map_filter batch_of outcomes))"
      using Cons by (simp add: p' Some map_filter_simps)
    then show ?thesis by (simp add: poll_chat_messages_def p'_def [symmetric] Some map_filter_simps p')
  qed
qed

lemma message_to_envelope_ok:
  assumes "app_id f = Inr (PyStr a)"
  shows "\<exists>env. message_to_envelope json_loads f m (PyStr c) = Inr env \<and>
    (\<exists>args. dget ''args'' env = Some (PyDict args) \<and> dget ''message_id'' args = Some (oattr_or_empty m ''message_id''))"
proof -
  have "\<exists>env. build_msg_received_envelope f (msg_args act (PyStr c) i ct rc mt si st th ro) so = Inr env \<and>
      (\<exists>args. dget ''args'' env = Some (PyDict args) \<and> dget ''message_id'' args = Some i)" for act i ct rc mt si st th ro so
    using assms by (cases c) (auto simp: build_msg_received_envelope_def msg_args_def dget_or_def py_or_def)
  then show ?thesis unfolding message_to_envelope_def Let_def by blast
qed

lemma poll_bootstrap:
  assumes "list_all has_str_id b" "batch_of x = Some b" "pl_bootstrap p"
  shows "poll_step json_loads f chat_id x p = p\<lparr>pl_seen := pl_seen p \<union> mid_of ` set b, pl_bootstrap := False\<rparr>"
  using assms unfolding poll_step_def batch_of_def
  by (auto simp: collect_fresh_eq [OF assms(1)] split: sum.splits option.splits)

lemma poll_first:
  assumes "List.map_filter batch_of outcomes = b # bs" "list_all has_str_id b" "pl_bootstrap p"
  shows "\<exists>rest. List.map_filter batch_of rest = bs \<and> poll_chat_messages json_loads f chat_id outcomes p =
    poll_chat_messages json_loads f chat_id rest (p\<lparr>pl_seen := pl_seen p \<union> mid_of ` set b, pl_bootstrap := False\<rparr>)"
  using assms(1)
proof (induction outcomes)
  case (Cons x outcomes)
  show ?case
  proof (cases "batch_of x")
    case None
    then have "poll_step json_loads f chat_id x p = p"
      by (auto simp: poll_step_def batch_of_def split: sum.splits option.splits)
    with Cons None show ?thesis by (simp add: poll_chat_messages_def map_filter_simps)
  next
    case (Some b')
    with Cons.prems have "b' = b" "List.map_filter batch_of outcomes = bs" by (simp_all add: map_filter_simps)
    with Some poll_bootstrap [OF assms(2) _ assms(3)] show ?thesis
      by (intro exI [of _ outcomes]) (simp add: poll_chat_messages_def)
  qed
qed (simp add: map_filter_def)

section \<open>Properties\<close>


definition demo_message :: "string \<Rightarrow> py_val" where
  "demo_message i = PyDict (mkdict [(''message_id'', PyStr i), (''msg_type'', PyStr ''text'')])"

definition demo_response :: "string list \<Rightarrow> py_val res" where
  "demo_response ids = Inr (PyDict (mkdict [(''code'', PyInt 0), (''data'', PyDict (mkdict [(''items'', PyList (map demo_message ids))]))]))"

lemma demo_batch: "ids \<noteq> [] \<Longrightarrow> batch_of (demo_response ids) = Some (map demo_message ids)"
  by (simp add: batch_of_def demo_response_def response_items_def oget_def py_eq_def py_num_def)

lemma batch_of_Inl: "batch_of (Inl e) = None"
  by (simp add: batch_of_def)


text \<open>
  The mock path mirrors the live one: on the same event with string fields it builds its envelope from the same
  arguments and sender, to which it adds, for a downloadable message only, the file key and file name
  that the parser of events computes; the live path never has them.
\<close>

theorem mock_is_live_plus_file_args:
  assumes "dget ''event'' root = Some (PyDict ev)" "dget ''message'' ev = Some (PyDict m)" "dget ''sender'' ev = Some (PyDict sn)"
    "dget ''sender_id'' sn = Some (PyDict i)"
    "str_fields [''content'', ''message_type'', ''chat_id'', ''message_id'', ''thread_id'', ''root_id''] m"
    "str_fields [''sender_type''] sn" "str_fields [''open_id''] i" "\<not> is_ok (json_loads [])"
  shows "\<exists>args sender. handle_receive_envelope json_loads f (PyDict root) = build_msg_received_envelope f args sender \<and>
    dget ''file_key'' args = None \<and> dget ''file_name'' args = None \<and>
    mock_event json_loads f (PyDict root) =
      rbind (add_file_args (dget_or ''message_type'' (PyStr []) m) (load_content json_loads (dget_or ''content'' (PyStr []) m)) args)
        (\<lambda>args'. build_msg_received_envelope f args' sender)"
proof -
  note mf = oattr_or_empty_str [OF assms(5)] and sf = oattr_or_empty_str [OF assms(6)] and jf = oattr_or_empty_str [OF assms(7)]
  have o: "oattr (PyDict sn) ''sender_id'' PyNone = PyDict i" by (simp add: oattr_def dget_or_def assms(4))
  have d: "or_dict (PyDict x) = PyDict x" for x by (auto simp: or_dict_def py_or_def)
  have e: "py_or (PyStr t) (PyStr []) = PyStr t" for t by (simp add: py_or_def)
  obtain t u where t: "dget_or ''open_id'' (PyStr []) i = PyStr t" "dget_or ''chat_id'' (PyStr []) m = PyStr u"
    using str_field [OF assms(7), of "''open_id''"] str_field [OF assms(5), of "''chat_id''"] by auto
  define args where "args = msg_args (fa_actor_id f) (PyStr u) (dget_or ''message_id'' (PyStr []) m)
    (extract_text json_loads (dget_or ''content'' (PyStr []) m) (dget_or ''message_type'' (PyStr []) m))
    (dget_or ''content'' (PyStr []) m) (dget_or ''message_type'' (PyStr []) m) (PyStr t) (dget_or ''sender_type'' (PyStr []) sn)
    (dget_or ''thread_id'' (PyStr []) m) (dget_or ''root_id'' (PyStr []) m)"
  have "handle_receive_envelope json_loads f (PyDict root) = build_msg_received_envelope f args (PyStr t)"
    unfolding handle_receive_envelope_def by (simp add: oget_def assms(1-3) mf sf o jf t args_def Let_def)
  moreover have "mock_event json_loads f (PyDict root) =
      rbind (add_file_args (dget_or ''message_type'' (PyStr []) m) (load_content json_loads (dget_or ''content'' (PyStr []) m)) args)
        (\<lambda>args'. build_msg_received_envelope f args' (PyStr t))"
    unfolding mock_event_def mock_file_args_eq [where json_loads = json_loads, OF assms(8)]
    by (simp add: dget_or_def [of _ PyNone] assms(1-4) d t e args_def Let_def)
  moreover have "dget ''file_key'' args = None" "dget ''file_name'' args = None" by (simp_all add: args_def msg_args_def)
  ultimately show ?thesis by blast
qed

definition demo_event :: py_kvs where
  "demo_event = mkdict [(''event'', PyDict (mkdict
     [(''message'', PyDict (mkdict [(''message_type'', PyStr ''image''), (''content'', PyStr ''x''), (''chat_id'', PyStr ''oc_1'')])),
      (''sender'', PyDict (mkdict [(''sender_id'', PyDict (mkdict [(''open_id'', PyStr ''ou_1'')]))]))]))]"

definition demo_loads :: "string \<Rightarrow> py_val res" where
  "demo_loads s = (if s = ''x'' then Inr (PyDict (mkdict [(''image_key'', PyStr ''k'')])) else Inl (Exc ''ValueError'' []))"

theorem mock_is_live_plus_file_args_witness:
  "\<exists>args sender. handle_receive_envelope demo_loads (st_adapter demo_feishu) (PyDict demo_event) =
       build_msg_received_envelope (st_adapter demo_feishu) args sender \<and> dget ''file_key'' args = None \<and>
     mock_event demo_loads (st_adapter demo_feishu) (PyDict demo_event) =
       build_msg_received_envelope (st_adapter demo_feishu)
         (dset (PyStr ''file_name'') (PyStr ''k.png'') (dset (PyStr ''file_key'') (PyStr ''k'') args)) sender"
proof -
  let ?m = "mkdict [(''message_type'', PyStr ''image''), (''content'', PyStr ''x''), (''chat_id'', PyStr ''oc_1'')]"
  let ?i = "mkdict [(''open_id'', PyStr ''ou_1'')]"
  let ?s = "mkdict [(''sender_id'', PyDict ?i)]"
  let ?e = "mkdict [(''message'', PyDict ?m), (''sender'', PyDict ?s)]"
  have a: "add_file_args (dget_or ''message_type'' (PyStr []) ?m) (load_content demo_loads (dget_or ''content'' (PyStr []) ?m)) args =
      Inr (dset (PyStr ''file_name'') (PyStr ''k.png'') (dset (PyStr ''file_key'') (PyStr ''k'') args))" for args
    by (simp add: add_file_args_def DOWNLOADABLE_def file_args_def load_content_def demo_loads_def dget_or_def py_or_def Let_def)
  from mock_is_live_plus_file_args [of demo_event ?e ?m ?s ?i demo_loads "st_adapter demo_feishu"]
  show ?thesis unfolding a by (auto simp: demo_event_def str_fields_def demo_loads_def is_ok_def)
qed

end
