(* ===== verification/Mock_Feishu.thy ===== *)
theory Mock_Feishu
  imports Feishu_Events "HOL-Library.Multiset"
begin

text \<open>
  \<^verbatim>\<open>scripts/mock_feishu.py\<close>: the stand-in for the Lark server that the adapter's mock paths talk to, with its state, its
  handlers and its routes.

  A handler maps the request and the state to its JSON result, or the exception the web framework turns into
  a status 500, and the state it leaves; what it has changed before it raises stays changed.
  \<open>secrets.token_hex\<close> is a function of the number of draws, and \<open>json\<close>, SHA-256 and the clock, one reading per
  request, are parameters. A send to a subscriber, which the code schedules as a task, is an entry of an outbox.
  Path arguments and queries are taken literally, without percent-decoding.
\<close>

section \<open>State\<close>

record ws_client =
  wc_id :: nat
  wc_closed :: bool

type_synonym 'e buckets = "(py_val \<times> 'e list) list"

record mock =
  mf_sent_messages :: "py_kvs buckets"
  mf_chat_history :: "py_kvs buckets"
  mf_ws_clients :: "ws_client buckets"
  mf_reactions :: "py_kvs buckets"
  mf_un_reactions :: "py_kvs buckets"
  mf_chat_membership :: "(py_val \<times> py_val set) list"
  mf_uploaded_files :: "py_kvs list"
  mf_files_dir :: "(string \<times> string) list option"
  mf_inbound_resources :: "((string \<times> string) \<times> string) list"
  mf_port :: "nat option"
  mf_outbox :: "(nat \<times> string) list"
  mf_tokens :: nat

definition mock_init :: mock where
  "mock_init = \<lparr>mf_sent_messages = [], mf_chat_history = [], mf_ws_clients = [], mf_reactions = [], mf_un_reactions = [],
     mf_chat_membership = [], mf_uploaded_files = [], mf_files_dir = None, mf_inbound_resources = [], mf_port = None,
     mf_outbox = [], mf_tokens = 0\<rparr>"

record mock_env =
  me_loads :: "string \<Rightarrow> py_val res"
  me_dumps :: "py_val \<Rightarrow> string res"
  me_sha256 :: "string \<Rightarrow> string"
  me_token :: "nat \<Rightarrow> string"
  me_now :: nat

type_synonym 'a handler = "mock \<Rightarrow> 'a res \<times> mock"

definition upd :: "(mock \<Rightarrow> mock) \<Rightarrow> unit handler" where
  "upd g s = (Inr (), g s)"

definition gets :: "(mock \<Rightarrow> 'a) \<Rightarrow> 'a handler" where
  "gets g s = (Inr (g s), s)"

lemma handler_simps [simp]: "abind (upd g) f s = f () (g s)" "abind (gets h) k s = k (h s) s"
  by (simp_all add: abind_def upd_def gets_def)

definition token :: "mock_env \<Rightarrow> string handler" where
  "token env s = (Inr (me_token env (mf_tokens s)), s\<lparr>mf_tokens := Suc (mf_tokens s)\<rparr>)"

definition new_message_id :: "mock_env \<Rightarrow> string handler" where
  "new_message_id env = abind (token env) (\<lambda>t. ret (''om_mock_'' @ t))"

text \<open>\<open>d.get(k, [])\<close>, \<open>d.setdefault(k, []).append(e)\<close> and \<open>d.setdefault(k, []).insert(0, e)\<close>, and the union of the buckets.\<close>

definition bucket :: "py_val \<Rightarrow> 'e buckets \<Rightarrow> 'e list" where
  "bucket k d = (case map_of d k of Some es \<Rightarrow> es | None \<Rightarrow> [])"

definition bucket_append :: "py_val \<Rightarrow> 'e \<Rightarrow> 'e buckets \<Rightarrow> 'e buckets" where
  "bucket_append k e d = dset k (bucket k d @ [e]) d"

definition bucket_push :: "py_val \<Rightarrow> 'e \<Rightarrow> 'e buckets \<Rightarrow> 'e buckets" where
  "bucket_push k e d = dset k (e # bucket k d) d"

definition union_buckets :: "'e buckets \<Rightarrow> 'e list" where
  "union_buckets d = concat (map snd d)"

definition require_hashable :: "py_val \<Rightarrow> unit handler" where
  "require_hashable v = lift (if hashable v then Inr () else Inl (type_error (''unhashable type: '' @ repr_str (type_name v))))"

definition jget :: "py_val \<Rightarrow> string \<Rightarrow> py_val \<Rightarrow> py_val handler" where
  "jget v k dflt = lift (py_get v k dflt)"

definition reply_ok :: "py_kvs \<Rightarrow> py_val" where
  "reply_ok data = PyDict (mkdict [(''code'', PyInt 0), (''msg'', PyStr []), (''data'', PyDict data)])"


section \<open>Public operations\<close>

definition sent_messages :: "mock \<Rightarrow> py_kvs list" where
  "sent_messages s = union_buckets (mf_sent_messages s)"

definition members :: "py_val \<Rightarrow> mock \<Rightarrow> py_val set" where
  "members app s = (case map_of (mf_chat_membership s) app of Some m \<Rightarrow> m | None \<Rightarrow> {})"

definition register_chat_membership :: "py_val \<Rightarrow> py_val \<Rightarrow> mock \<Rightarrow> mock" where
  "register_chat_membership app chat_id s =
     s\<lparr>mf_chat_membership := dset app (insert chat_id (members app s)) (mf_chat_membership s)\<rparr>"

definition history_entry :: "string \<Rightarrow> nat \<Rightarrow> py_val \<Rightarrow> py_val \<Rightarrow> py_val \<Rightarrow> string \<Rightarrow> py_val \<Rightarrow> py_kvs" where
  "history_entry message_id now chat_id msg_type sender_type open_id content =
     mkdict [(''message_id'', PyStr message_id), (''create_time'', PyStr (show_nat now)), (''chat_id'', chat_id),
       (''msg_type'', msg_type),
       (''sender'', PyDict (mkdict [(''sender_type'', sender_type),
          (''sender_id'', PyDict (mkdict [(''open_id'', PyStr open_id)]))])),
       (''body'', PyDict (mkdict [(''content'', content)]))]"

definition seed_inbound_message :: "mock_env \<Rightarrow> py_val \<Rightarrow> py_val \<Rightarrow> py_val \<Rightarrow> py_val \<Rightarrow> string handler" where
  "seed_inbound_message env chat_id sender_type msg_type content_text =
     abind (new_message_id env) (\<lambda>msg_id.
     abind (lift (me_dumps env (PyDict (mkdict [(''text'', content_text)])))) (\<lambda>content.
     abind (require_hashable chat_id) (\<lambda>_.
     abind (upd (\<lambda>s. s\<lparr>mf_chat_history := bucket_push chat_id
              (history_entry msg_id (me_now env) chat_id msg_type sender_type ''ou_test'' (PyStr content)) (mf_chat_history s)\<rparr>)) (\<lambda>_.
       ret msg_id))))"

text \<open>
  \<open>start\<close>: the files directory and the bound port; the directory of an earlier run is emptied when the port was
  chosen by the system. \<open>stop\<close> closes and forgets the subscribers.
\<close>

definition start :: "nat \<Rightarrow> nat \<Rightarrow> (string \<times> string) list \<Rightarrow> mock \<Rightarrow> string \<times> mock" where
  "start port bound old_files s =
     (''http://127.0.0.1:'' @ show_nat bound,
      s\<lparr>mf_files_dir := Some (if port = 0 then [] else old_files), mf_port := Some bound\<rparr>)"

definition stop :: "mock \<Rightarrow> mock" where
  "stop s = s\<lparr>mf_ws_clients := [], mf_port := None\<rparr>"


section \<open>Inbound messages\<close>

text \<open>The content of a pushed message; for a medium, its bytes are kept under the message id and a new file key.\<close>

definition keep_resource :: "mock_env \<Rightarrow> string \<Rightarrow> string option \<Rightarrow> string \<Rightarrow> string handler" where
  "keep_resource env msg_id bytes_data kind =
     (case bytes_data of
        None \<Rightarrow> lift (Inl (value_error (''bytes_data required for '' @ kind @ '' inbound'')))
      | Some bytes \<Rightarrow>
          abind (token env) (\<lambda>t.
            let file_key = ''file_mock_'' @ t in
            abind (upd (\<lambda>s. s\<lparr>mf_inbound_resources := dset (msg_id, file_key) bytes (mf_inbound_resources s)\<rparr>)) (\<lambda>_.
              ret file_key)))"

definition inbound_content ::
  "mock_env \<Rightarrow> string \<Rightarrow> py_val \<Rightarrow> py_val \<Rightarrow> string option \<Rightarrow> py_val \<Rightarrow> string handler"
where
  "inbound_content env msg_id msg_type content_text bytes_data file_name =
     (if msg_type = PyStr ''text'' then lift (me_dumps env (PyDict (mkdict [(''text'', content_text)])))
      else if msg_type = PyStr ''image'' then
        abind (keep_resource env msg_id bytes_data ''image'') (\<lambda>file_key.
          lift (me_dumps env (PyDict (mkdict ([(''image_key'', PyStr file_key)] @
            (if py_truthy file_name then [(''file_name'', file_name)] else []))))))
      else if msg_type = PyStr ''file'' then
        abind (keep_resource env msg_id bytes_data ''file'') (\<lambda>file_key.
          lift (me_dumps env (PyDict (mkdict [(''file_key'', PyStr file_key),
            (''file_name'', py_or file_name (PyStr ''unknown''))]))))
      else if msg_type = PyStr ''audio'' then
        abind (keep_resource env msg_id bytes_data ''audio'') (\<lambda>file_key.
          lift (me_dumps env (PyDict (mkdict [(''file_key'', PyStr file_key), (''duration'', PyInt 0)]))))
      else lift (me_dumps env (PyDict (mkdict [(''text'', content_text)]))))"

definition TENANT_KEY :: string where
  "TENANT_KEY = ''16a9e2384317175f''"

definition inbound_envelope ::
  "string \<Rightarrow> string \<Rightarrow> string \<Rightarrow> string \<Rightarrow> nat \<Rightarrow> py_val \<Rightarrow> py_val \<Rightarrow> py_val \<Rightarrow> py_val \<Rightarrow> string \<Rightarrow> py_kvs"
where
  "inbound_envelope msg_id event_id user_id union_id now app chat_id sender_open_id msg_type content =
     mkdict [(''schema'', PyStr ''2.0''),
       (''header'', PyDict (mkdict [(''event_id'', PyStr event_id), (''token'', PyStr []), (''create_time'', PyStr (show_nat now)),
          (''event_type'', PyStr ''im.message.receive_v1''), (''tenant_key'', PyStr TENANT_KEY), (''app_id'', app)])),
       (''event'', PyDict (mkdict
          [(''sender'', PyDict (mkdict
              [(''sender_id'', PyDict (mkdict [(''user_id'', PyStr user_id), (''open_id'', sender_open_id),
                  (''union_id'', PyStr (''on_'' @ union_id))])),
               (''sender_type'', PyStr ''user''), (''tenant_key'', PyStr TENANT_KEY)])),
           (''message'', PyDict (mkdict
              [(''message_id'', PyStr msg_id), (''create_time'', PyStr (show_nat now)), (''update_time'', PyStr (show_nat now)),
               (''chat_id'', chat_id), (''chat_type'', PyStr ''p2p''), (''message_type'', msg_type), (''content'', PyStr content),
               (''user_agent'', PyStr ''Mozilla/5.0 (mock_feishu) MockFeishuClient/1.0'')]))]))]"

definition open_clients :: "py_val \<Rightarrow> mock \<Rightarrow> ws_client list" where
  "open_clients app s = filter (\<lambda>ws. \<not> wc_closed ws) (bucket app (mf_ws_clients s))"

definition push_inbound ::
  "mock_env \<Rightarrow> py_val \<Rightarrow> py_val \<Rightarrow> py_val \<Rightarrow> py_val \<Rightarrow> string option \<Rightarrow> py_val \<Rightarrow> py_val \<Rightarrow> string handler"
where
  "push_inbound env chat_id sender_open_id msg_type content_text bytes_data file_name app =
     abind (new_message_id env) (\<lambda>msg_id.
     abind (inbound_content env msg_id msg_type content_text bytes_data file_name) (\<lambda>content.
     abind (token env) (\<lambda>event_id. abind (token env) (\<lambda>user_id. abind (token env) (\<lambda>union_id.
     abind (lift (me_dumps env (PyDict (inbound_envelope msg_id event_id user_id union_id (me_now env) app chat_id
              sender_open_id msg_type content)))) (\<lambda>data.
     abind (require_hashable app) (\<lambda>_.
     abind (upd (\<lambda>s. s\<lparr>mf_outbox := mf_outbox s @ map (\<lambda>ws. (wc_id ws, data)) (open_clients app s)\<rparr>)) (\<lambda>_.
       ret msg_id))))))))"


section \<open>Handlers\<close>

definition header_get :: "string \<Rightarrow> (string \<times> string) list \<Rightarrow> string option" where
  "header_get name hs = map_option snd (find (\<lambda>(k, _). lower k = lower name) hs)"

definition app_of :: "(string \<times> string) list \<Rightarrow> py_val" where
  "app_of hs = PyStr (case header_get ''X-App-Id'' hs of Some a \<Rightarrow> a | None \<Rightarrow> ''default'')"

definition json_body :: "mock_env \<Rightarrow> string \<Rightarrow> py_val handler" where
  "json_body env body = lift (me_loads env body)"

text \<open>The first uploaded file with the key and without a chat gets the chat.\<close>

fun link_file :: "py_val \<Rightarrow> py_val \<Rightarrow> py_kvs list \<Rightarrow> py_kvs list" where
  "link_file file_key chat_id [] = []"
| "link_file file_key chat_id (f # fs) =
     (if dget_or ''file_key'' PyNone f = file_key \<and> \<not> py_truthy (dget_or ''chat_id'' PyNone f)
      then dset (PyStr ''chat_id'') chat_id f # fs else f # link_file file_key chat_id fs)"

definition link_upload :: "mock_env \<Rightarrow> py_val \<Rightarrow> unit handler" where
  "link_upload env body =
     abind (jget body ''content'' PyNone) (\<lambda>c.
     abind (lift (case py_or c (PyStr ''{}'') of
                    PyStr t \<Rightarrow> me_loads env t
                  | v \<Rightarrow> Inl (type_error (''the JSON object must be str, bytes or bytearray, not '' @ type_name v)))) (\<lambda>content.
     abind (jget content ''file_key'' (PyStr [])) (\<lambda>file_key.
     abind (jget body ''receive_id'' (PyStr [])) (\<lambda>chat_id.
       upd (\<lambda>s. s\<lparr>mf_uploaded_files := link_file file_key chat_id (mf_uploaded_files s)\<rparr>)))))"

definition sent_record :: "string \<Rightarrow> string \<Rightarrow> py_val \<Rightarrow> py_val \<Rightarrow> py_val \<Rightarrow> nat \<Rightarrow> py_val \<Rightarrow> py_kvs" where
  "sent_record message_id receive_id_type receive_id msg_type content now app =
     mkdict [(''message_id'', PyStr message_id), (''receive_id_type'', PyStr receive_id_type), (''receive_id'', receive_id),
       (''msg_type'', msg_type), (''content'', content), (''ts_unix_ms'', PyInt (int now)), (''app_id'', app)]"

definition not_member :: "py_val \<Rightarrow> py_val \<Rightarrow> py_val" where
  "not_member app receive_id =
     PyDict (mkdict [(''code'', PyInt 230002),
       (''msg'', PyStr (''app '' @ py_repr app @ '' is not a member of chat '' @ py_repr receive_id)), (''data'', PyDict [])])"

definition record_message :: "mock_env \<Rightarrow> string option \<Rightarrow> py_val \<Rightarrow> py_val \<Rightarrow> py_val \<Rightarrow> string \<Rightarrow> py_val handler" where
  "record_message env rtype app body receive_id message_id =
     abind (jget body ''msg_type'' PyNone) (\<lambda>msg_type. abind (jget body ''content'' PyNone) (\<lambda>content.
     abind (upd (\<lambda>s. s\<lparr>mf_sent_messages := bucket_append app
              (sent_record message_id (case rtype of Some t \<Rightarrow> t | None \<Rightarrow> ''chat_id'') receive_id msg_type content (me_now env) app)
              (mf_sent_messages s)\<rparr>)) (\<lambda>_.
     abind (if msg_type = PyStr ''file'' then link_upload env body else ret ()) (\<lambda>_.
     let chat_id = py_or receive_id (PyStr ''unknown'') in
     abind (require_hashable chat_id) (\<lambda>_.
     abind (upd (\<lambda>s. s\<lparr>mf_chat_history := bucket_push chat_id
              (history_entry message_id (me_now env) chat_id msg_type (PyStr ''app'') ''ou_mock_bot'' content) (mf_chat_history s)\<rparr>)) (\<lambda>_.
       ret (reply_ok (mkdict [(''message_id'', PyStr message_id)]))))))))"

definition on_create_message ::
  "mock_env \<Rightarrow> (string \<times> string) list \<Rightarrow> string option \<Rightarrow> string \<Rightarrow> py_val handler"
where
  "on_create_message env headers rtype text_body =
     abind (json_body env text_body) (\<lambda>body.
     abind (new_message_id env) (\<lambda>message_id.
     abind (jget body ''receive_id'' PyNone) (\<lambda>receive_id.
       let app = app_of headers in
       if app \<noteq> PyStr ''default'' then
         abind (require_hashable receive_id) (\<lambda>_.
         abind (gets (members app)) (\<lambda>ms.
           if receive_id \<notin> ms then ret (not_member app receive_id)
           else record_message env rtype app body receive_id message_id))
       else record_message env rtype app body receive_id message_id)))"

text \<open>A subscriber connects, its connection closes, and its handler's \<open>finally\<close> removes it.\<close>

definition ws_connect :: "string option \<Rightarrow> nat \<Rightarrow> mock \<Rightarrow> mock" where
  "ws_connect app ident s =
     s\<lparr>mf_ws_clients := bucket_append (PyStr (case app of Some a \<Rightarrow> a | None \<Rightarrow> ''default''))
        \<lparr>wc_id = ident, wc_closed = False\<rparr> (mf_ws_clients s)\<rparr>"

definition ws_mark_closed :: "nat \<Rightarrow> mock \<Rightarrow> mock" where
  "ws_mark_closed ident s =
     s\<lparr>mf_ws_clients := map (\<lambda>(k, wss). (k, map (\<lambda>ws. if wc_id ws = ident then ws\<lparr>wc_closed := True\<rparr> else ws) wss)) (mf_ws_clients s)\<rparr>"

fun remove_client :: "nat \<Rightarrow> ws_client list \<Rightarrow> ws_client list" where
  "remove_client ident [] = []"
| "remove_client ident (ws # wss) = (if wc_id ws = ident then wss else ws # remove_client ident wss)"

definition ws_disconnect :: "string option \<Rightarrow> nat \<Rightarrow> mock \<Rightarrow> mock" where
  "ws_disconnect app ident s =
     (let k = PyStr (case app of Some a \<Rightarrow> a | None \<Rightarrow> ''default'') in
      case map_of (mf_ws_clients s) k of
        None \<Rightarrow> s
      | Some wss \<Rightarrow> s\<lparr>mf_ws_clients := dset k (remove_client ident wss) (mf_ws_clients s)\<rparr>)"

definition on_get_ws_clients :: "py_val handler" where
  "on_get_ws_clients =
     gets (\<lambda>s. PyDict (mkdict [(''count'', PyInt (int (sum_list (map (length \<circ> snd) (mf_ws_clients s)))))]))"

text \<open>
  \<open>base64.b64decode\<close> without validation: characters outside the alphabet are skipped, and the padding that completes
  a group ends the input.
\<close>

fun a2b_base64 :: "string \<Rightarrow> nat \<Rightarrow> nat \<Rightarrow> string \<Rightarrow> string option" where
  "a2b_base64 [] quad_pos pads acc = (if quad_pos = 0 then Some acc else None)"
| "a2b_base64 (c # cs) quad_pos pads acc =
     (if c = CHR ''='' then
        (if quad_pos \<ge> 2 then (if quad_pos + Suc pads \<ge> 4 then Some acc else a2b_base64 cs quad_pos (Suc pads) acc)
         else a2b_base64 cs quad_pos pads acc)
      else if \<not> is_b64_char c then a2b_base64 cs quad_pos pads acc
      else a2b_base64 cs (Suc quad_pos mod 4) 0 (acc @ [c]))"

definition b64decode_loose :: "py_val \<Rightarrow> string res" where
  "b64decode_loose v =
     (case v of
        PyStr t \<Rightarrow>
          if \<exists>c\<in>set t. of_char c \<ge> (128 :: nat) then Inl (value_error ''string argument should contain only ASCII characters'')
          else (case a2b_base64 t 0 0 [] of
                  None \<Rightarrow> Inl (Exc ''Error'' ''Incorrect padding'')
                | Some acc \<Rightarrow> b64decode (acc @ replicate ((4 - length acc mod 4) mod 4) CHR ''=''))
      | _ \<Rightarrow> Inl (type_error (''argument should be a bytes-like object or ASCII string, not '' @ repr_str (type_name v))))"

fun push_each :: "(py_val \<Rightarrow> string handler) \<Rightarrow> py_val list \<Rightarrow> string \<Rightarrow> string handler" where
  "push_each push [] msg_id = ret msg_id"
| "push_each push (app # apps) msg_id = abind (push app) (\<lambda>i. push_each push apps i)"

definition connected_buckets :: "mock \<Rightarrow> py_val list" where
  "connected_buckets s =
     (let cs = map fst (filter (\<lambda>(_, wss). \<exists>ws\<in>set wss. \<not> wc_closed ws) (mf_ws_clients s))
      in if cs = [] then [PyStr ''default''] else cs)"

definition on_push_inbound :: "mock_env \<Rightarrow> string \<Rightarrow> py_val handler" where
  "on_push_inbound env text_body =
     abind (json_body env text_body) (\<lambda>body.
     abind (jget body ''chat_id'' (PyStr [])) (\<lambda>chat_id.
     abind (jget body ''user'' (PyStr ''ou_test'')) (\<lambda>user.
     abind (jget body ''msg_type'' (PyStr ''text'')) (\<lambda>msg_type.
     abind (jget body ''text'' (PyStr [])) (\<lambda>content_text.
     abind (jget body ''file_name'' PyNone) (\<lambda>file_name.
     abind (jget body ''bytes_b64'' PyNone) (\<lambda>b64.
     abind (if py_truthy b64 then abind (lift (b64decode_loose b64)) (\<lambda>b. ret (Some b)) else ret None) (\<lambda>bytes_data.
     abind (jget body ''app_id'' PyNone) (\<lambda>explicit.
       let push = push_inbound env chat_id user msg_type content_text bytes_data file_name in
       abind (if py_truthy explicit then push explicit
              else abind (gets connected_buckets) (\<lambda>apps. push_each push apps [])) (\<lambda>msg_id.
         ret (PyDict (mkdict [(''ok'', PyBool True), (''message_id'', PyStr msg_id)]))))))))))))"

definition on_register_membership :: "mock_env \<Rightarrow> string \<Rightarrow> py_val handler" where
  "on_register_membership env text_body =
     abind (json_body env text_body) (\<lambda>body.
     abind (jget body ''app_id'' (PyStr ''default'')) (\<lambda>app.
     abind (jget body ''chat_id'' (PyStr [])) (\<lambda>chat_id.
     abind (require_hashable app) (\<lambda>_.
     abind (upd (\<lambda>s. s\<lparr>mf_chat_membership := dset app (members app s) (mf_chat_membership s)\<rparr>)) (\<lambda>_.
     abind (require_hashable chat_id) (\<lambda>_.
     abind (upd (register_chat_membership app chat_id)) (\<lambda>_.
       ret (PyDict (mkdict [(''ok'', PyBool True)])))))))))"

text \<open>The logs: one app's bucket or their union.\<close>

definition log_of :: "(mock \<Rightarrow> py_kvs buckets) \<Rightarrow> string option \<Rightarrow> py_val handler" where
  "log_of field app =
     gets (\<lambda>s. PyList (map PyDict (case app of Some a \<Rightarrow> bucket (PyStr a) (field s) | None \<Rightarrow> union_buckets (field s))))"

definition on_get_sent_messages :: "string option \<Rightarrow> py_val handler" where
  "on_get_sent_messages = log_of mf_sent_messages"

definition on_get_reactions :: "string option \<Rightarrow> py_val handler" where
  "on_get_reactions = log_of mf_reactions"

definition on_get_un_reactions :: "string option \<Rightarrow> py_val handler" where
  "on_get_un_reactions = log_of mf_un_reactions"

definition reaction_entry :: "string \<Rightarrow> py_val \<Rightarrow> nat \<Rightarrow> py_val \<Rightarrow> py_kvs" where
  "reaction_entry message_id emoji_type now app =
     mkdict [(''message_id'', PyStr message_id), (''emoji_type'', emoji_type), (''ts_unix_ms'', PyInt (int now)), (''app_id'', app)]"

definition on_create_reaction :: "mock_env \<Rightarrow> (string \<times> string) list \<Rightarrow> string \<Rightarrow> string \<Rightarrow> py_val handler" where
  "on_create_reaction env headers message_id text_body =
     abind (json_body env text_body) (\<lambda>body.
     abind (jget body ''reaction_type'' (PyDict [])) (\<lambda>rt.
     abind (jget rt ''emoji_type'' (PyStr [])) (\<lambda>emoji_type.
     abind (token env) (\<lambda>t.
     abind (upd (\<lambda>s. s\<lparr>mf_reactions := bucket_append (app_of headers)
              (reaction_entry message_id emoji_type (me_now env) (app_of headers)) (mf_reactions s)\<rparr>)) (\<lambda>_.
       ret (reply_ok (mkdict [(''reaction_id'', PyStr (''rc_mock_'' @ t)), (''message_id'', PyStr message_id)])))))))"

definition on_message :: "string \<Rightarrow> py_kvs \<Rightarrow> bool" where
  "on_message message_id e = (dget_or ''message_id'' PyNone e = PyStr message_id)"

fun remove_first :: "('a \<Rightarrow> bool) \<Rightarrow> 'a list \<Rightarrow> 'a list" where
  "remove_first P [] = []"
| "remove_first P (x # xs) = (if P x then xs else x # remove_first P xs)"

text \<open>Removal is in place: a missing bucket stays missing.\<close>

definition on_delete_reaction_by_id :: "mock_env \<Rightarrow> (string \<times> string) list \<Rightarrow> string \<Rightarrow> string \<Rightarrow> py_val handler" where
  "on_delete_reaction_by_id env headers message_id reaction_id =
     (let app = app_of headers in
      abind (upd (\<lambda>s. s\<lparr>mf_un_reactions := bucket_append app
               (mkdict [(''message_id'', PyStr message_id), (''reaction_id'', PyStr reaction_id),
                  (''ts_unix_ms'', PyInt (int (me_now env))), (''app_id'', app)]) (mf_un_reactions s)\<rparr>)) (\<lambda>_.
      abind (upd (\<lambda>s. case map_of (mf_reactions s) app of
                 None \<Rightarrow> s
               | Some es \<Rightarrow> s\<lparr>mf_reactions := dset app (remove_first (on_message message_id) es) (mf_reactions s)\<rparr>)) (\<lambda>_.
        ret (reply_ok []))))"

text \<open>A body that is not JSON counts as empty.\<close>

definition on_delete_reactions_by_message :: "mock_env \<Rightarrow> (string \<times> string) list \<Rightarrow> string \<Rightarrow> string \<Rightarrow> py_val handler" where
  "on_delete_reactions_by_message env headers message_id text_body =
     (let body = (if text_body = [] then PyDict []
                  else (case me_loads env text_body of Inr v \<Rightarrow> v | Inl _ \<Rightarrow> PyDict []));
          app = app_of headers in
      abind (jget body ''reaction_type'' PyNone) (\<lambda>rt.
      abind (jget (or_dict rt) ''emoji_type'' (PyStr [])) (\<lambda>emoji_type.
      abind (upd (\<lambda>s.
        let es = bucket app (mf_reactions s);
            removed = filter (on_message message_id) es;
            entry = (\<lambda>emoji. reaction_entry message_id emoji (me_now env) app);
            entries = (if removed = [] then [entry emoji_type]
                       else map (\<lambda>r. entry (py_or emoji_type (dget_or ''emoji_type'' (PyStr []) r))) removed)
        in s\<lparr>mf_reactions := dset app (filter (\<lambda>e. \<not> on_message message_id e) es) (mf_reactions s),
             mf_un_reactions := dset app (bucket app (mf_un_reactions s) @ entries) (mf_un_reactions s)\<rparr>)) (\<lambda>_.
        ret (reply_ok [])))))"

text \<open>\<open>p in s\<close> on strings.\<close>

fun contains :: "string \<Rightarrow> string \<Rightarrow> bool" where
  "contains p [] = (p = [])"
| "contains p (c # cs) = (startswith (c # cs) p \<or> contains p cs)"

text \<open>
  An upload, as JSON or as a form. A form, as the framework parses it, is its text field \<open>file_name\<close> and its field
  \<open>file\<close>, each if present.
\<close>

datatype form_field = FileField string | TextField string

type_synonym form = "string option \<times> form_field option"

definition upload_input ::
  "mock_env \<Rightarrow> (string \<times> string) list \<Rightarrow> form \<Rightarrow> string \<Rightarrow> (py_val \<times> string) res"
where
  "upload_input env headers form text_body =
     (if contains ''application/json'' (case header_get ''content-type'' headers of Some c \<Rightarrow> c | None \<Rightarrow> [])
      then rbind (me_loads env text_body) (\<lambda>body.
           rbind (py_index body ''file_name'') (\<lambda>file_name.
           rbind (py_index body ''content_b64'') (\<lambda>c.
           rbind (b64decode_loose c) (\<lambda>data. Inr (file_name, data)))))
      else (case form of
              (None, _) \<Rightarrow> Inl (key_error ''file_name'')
            | (Some n, None) \<Rightarrow> Inl (key_error ''file'')
            | (Some n, Some (FileField data)) \<Rightarrow> Inr (PyStr n, data)
            | (Some n, Some (TextField t)) \<Rightarrow> Inl (type_error ''string argument without an encoding'')))"

definition upload_entry :: "mock_env \<Rightarrow> string \<Rightarrow> py_val \<Rightarrow> string \<Rightarrow> py_kvs" where
  "upload_entry env file_key file_name data =
     mkdict [(''chat_id'', PyStr []), (''file_key'', PyStr file_key), (''file_name'', file_name), (''size'', PyInt (int (length data))),
       (''sha256'', PyStr (me_sha256 env data)), (''ts_unix_ms'', PyInt (int (me_now env)))]"

definition on_upload_file ::
  "mock_env \<Rightarrow> (string \<times> string) list \<Rightarrow> form \<Rightarrow> string \<Rightarrow> py_val handler"
where
  "on_upload_file env headers form text_body =
     abind (lift (upload_input env headers form text_body)) (\<lambda>(file_name, data).
     abind (token env) (\<lambda>t.
       let file_key = ''file_mock_'' @ t in
       abind (gets mf_files_dir) (\<lambda>dir.
         case dir of
           None \<Rightarrow> lift (Inl (Exc ''AssertionError'' []))
         | Some files \<Rightarrow>
             abind (upd (\<lambda>s. s\<lparr>mf_files_dir := Some (dset file_key data files),
                      mf_uploaded_files := mf_uploaded_files s @ [upload_entry env file_key file_name data]\<rparr>)) (\<lambda>_.
               ret (reply_ok (mkdict [(''file_key'', PyStr file_key)]))))))"

definition on_get_sent_files :: "py_val handler" where
  "on_get_sent_files =
     gets (\<lambda>s. PyList (map PyDict (filter (\<lambda>f. py_truthy (dget_or ''chat_id'' PyNone f)) (mf_uploaded_files s))))"

definition on_get_message_resource :: "string \<Rightarrow> string \<Rightarrow> mock \<Rightarrow> nat \<times> string" where
  "on_get_message_resource msg_id file_key s =
     (case map_of (mf_inbound_resources s) (msg_id, file_key) of
        None \<Rightarrow> (404, ''resource not found: msg_id='' @ msg_id @ '' file_key='' @ file_key)
      | Some bytes \<Rightarrow> (200, bytes))"

text \<open>\<open>xs[:n]\<close>.\<close>

definition upto_index :: "int \<Rightarrow> 'a list \<Rightarrow> 'a list" where
  "upto_index n xs = (if n \<ge> 0 then take (nat n) xs else take (nat (int (length xs) + n)) xs)"

definition on_list_messages :: "string option \<Rightarrow> string option \<Rightarrow> py_val handler" where
  "on_list_messages container_id page_size =
     (case py_int (case page_size of Some p \<Rightarrow> p | None \<Rightarrow> ''20'') of
        None \<Rightarrow> lift (Inl (value_error ''invalid literal for int() with base 10''))
      | Some n \<Rightarrow>
          gets (\<lambda>s. let history = bucket (PyStr (case container_id of Some c \<Rightarrow> c | None \<Rightarrow> [])) (mf_chat_history s) in
            reply_ok (mkdict [(''items'', PyList (map PyDict (upto_index n history))),
              (''has_more'', PyBool (int (length history) > n))])))"


section \<open>Routes\<close>

text \<open>
  The path and the query of a URL of the server, and the endpoints registered by \<open>start\<close>; what no route answers,
  whether for its path or its method, is refused with a status above 400.
\<close>

definition url_path :: "string \<Rightarrow> string list" where
  "url_path u = tl (split_on CHR ''/'' (before CHR ''?'' u))"

definition url_query :: "string \<Rightarrow> (string \<times> string) list" where
  "url_query u = (if CHR ''?'' \<in> set u
     then map (\<lambda>kv. (before CHR ''='' kv, after CHR ''='' kv)) (split_on CHR ''&'' (after CHR ''?'' u)) else [])"

definition IM_V1 :: "string list" where
  "IM_V1 = [''open-apis'', ''im'', ''v1'']"

definition respond :: "mock_env \<Rightarrow> py_val handler \<Rightarrow> (nat \<times> string) handler" where
  "respond env h =
     (\<lambda>s. case abind h (\<lambda>v. lift (me_dumps env v)) s of
            (Inr t, s') \<Rightarrow> (Inr (200, t), s')
          | (Inl _, s') \<Rightarrow> (Inr (500, ''500 Internal Server Error''), s'))"

definition route :: "mock_env \<Rightarrow> form \<Rightarrow> http_req \<Rightarrow> string \<Rightarrow> (nat \<times> string) handler" where
  "route env form req u =
     (let meth = rq_method req; hs = rq_headers req; body = rq_body req; q = map_of (url_query u); path = url_path u in
      if take 3 path = IM_V1 then
        (case (meth, drop 3 path) of
           (m, [r]) \<Rightarrow>
             if r = ''messages'' \<and> m = ''POST'' then respond env (on_create_message env hs (q ''receive_id_type'') body)
             else if r = ''messages'' \<and> m = ''GET'' then respond env (on_list_messages (q ''container_id'') (q ''page_size''))
             else if r = ''files'' \<and> m = ''POST'' then respond env (on_upload_file env hs form body)
             else ret (404, ''404: Not Found'')
         | (m, [r, i, x]) \<Rightarrow>
             if r = ''messages'' \<and> i \<noteq> [] \<and> x = ''reactions'' \<and> m = ''POST'' then respond env (on_create_reaction env hs i body)
             else if r = ''messages'' \<and> i \<noteq> [] \<and> x = ''reactions'' \<and> m = ''DELETE''
               then respond env (on_delete_reactions_by_message env hs i body)
             else ret (404, ''404: Not Found'')
         | (m, [r, i, x, k]) \<Rightarrow>
             if r = ''messages'' \<and> i \<noteq> [] \<and> k \<noteq> [] \<and> x = ''reactions'' \<and> m = ''DELETE''
               then respond env (on_delete_reaction_by_id env hs i k)
             else if r = ''messages'' \<and> i \<noteq> [] \<and> k \<noteq> [] \<and> x = ''resources'' \<and> m = ''GET''
               then gets (on_get_message_resource i k)
             else ret (404, ''404: Not Found'')
         | _ \<Rightarrow> ret (404, ''404: Not Found''))
      else (case path of
              [r] \<Rightarrow>
                if r = ''reactions'' \<and> meth = ''GET'' then respond env (on_get_reactions (q ''app_id''))
                else if r = ''un_reactions'' \<and> meth = ''GET'' then respond env (on_get_un_reactions (q ''app_id''))
                else if r = ''sent_files'' \<and> meth = ''GET'' then respond env on_get_sent_files
                else if r = ''ws_clients'' \<and> meth = ''GET'' then respond env on_get_ws_clients
                else if r = ''push_inbound'' \<and> meth = ''POST'' then respond env (on_push_inbound env body)
                else if r = ''sent_messages'' \<and> meth = ''GET'' then respond env (on_get_sent_messages (q ''app_id''))
                else if r = ''register_membership'' \<and> meth = ''POST'' then respond env (on_register_membership env body)
                else ret (404, ''404: Not Found'')
            | _ \<Rightarrow> ret (404, ''404: Not Found'')))"

text \<open>
  The server as \<open>urllib\<close> sees it at a base URL: a status of 400 or more is an \<open>HTTPError\<close>, a kind of \<open>URLError\<close>, and so
  is a connection to any other address.
\<close>

definition serve :: "mock_env \<Rightarrow> string \<Rightarrow> http_req \<Rightarrow> mock \<Rightarrow> http_end \<times> mock" where
  "serve env base req s =
     (if startswith (rq_url req) base then
        (case route env (None, None) req (drop (length base) (rq_url req)) s of
           (Inr (status, body), s') \<Rightarrow>
             (if status < 400 then HttpBody body else HttpUrlError (''HTTP Error '' @ show_nat status), s')
         | (Inl e, s') \<Rightarrow> (HttpRaises e, s'))
      else (HttpUrlError ''<urlopen error [Errno 111] Connection refused>'', s))"


section \<open>Lemmas\<close>

text \<open>
  A reflexive and transitive relation between states that the elementary steps respect is respected by every handler
  built from them.
\<close>

locale frame =
  fixes R :: "mock \<Rightarrow> mock \<Rightarrow> bool"
  assumes frame_refl: "R s s"
    and frame_trans: "R s t \<Longrightarrow> R t u \<Longrightarrow> R s u"
    and frame_token: "R s (s\<lparr>mf_tokens := Suc (mf_tokens s)\<rparr>)"
begin

definition within :: "'a handler \<Rightarrow> bool" where
  "within h = (\<forall>s. R s (snd (h s)))"

lemma within_basic: "within (ret x)" "within (lift r)" "within (gets g)" "within (token env)" "within (require_hashable v)"
  "within (jget v k d)" "within (json_body env b)"
  by (simp_all add: within_def gets_def token_def require_hashable_def jget_def json_body_def frame_refl frame_token)

lemma within_abind: "within h \<Longrightarrow> (\<And>x. within (f x)) \<Longrightarrow> within (abind h f)"
  unfolding within_def abind_def
  by (auto split: prod.splits sum.splits) (metis frame_trans snd_conv)+

lemma within_upd: "(\<And>s. R s (g s)) \<Longrightarrow> within (upd g)"
  by (simp add: within_def upd_def)

lemma within_if: "(c \<Longrightarrow> within g) \<Longrightarrow> (\<not> c \<Longrightarrow> within h) \<Longrightarrow> within (if c then g else h)"
  by simp

lemma within_option: "(\<And>x. within (f x)) \<Longrightarrow> within g \<Longrightarrow> within (case b of Some x \<Rightarrow> f x | None \<Rightarrow> g)"
  by (cases b) simp_all

lemma within_prod: "(\<And>x y. within (f x y)) \<Longrightarrow> within (case p of (x, y) \<Rightarrow> f x y)"
  by (cases p) simp

lemma within_respond: "within h \<Longrightarrow> within (respond env h)"
  unfolding within_def respond_def abind_def
  by (auto split: prod.splits sum.splits) (metis snd_conv)+

lemma within_push_each: "(\<And>a. within (push a)) \<Longrightarrow> within (push_each push apps i)"
  by (induction apps arbitrary: i) (auto intro: within_basic within_abind)

lemmas within_intros = within_basic within_abind within_if within_option within_prod

end

lemma respond_state: "snd (respond env h s) = snd (h s)"
  by (auto simp: respond_def abind_def split: prod.splits sum.splits)

text \<open>Every route leads to one of the handlers, or nowhere.\<close>

lemma route_cases:
  assumes "\<And>rt b. P (respond env (on_create_message env (rq_headers req) rt b))" "\<And>c p. P (respond env (on_list_messages c p))"
    "\<And>b. P (respond env (on_upload_file env (rq_headers req) form b))" "P (ret (404, ''404: Not Found''))"
    "\<And>i b. P (respond env (on_create_reaction env (rq_headers req) i b))"
    "\<And>i b. P (respond env (on_delete_reactions_by_message env (rq_headers req) i b))"
    "\<And>i k. P (respond env (on_delete_reaction_by_id env (rq_headers req) i k))" "\<And>i k. P (gets (on_get_message_resource i k))"
    "\<And>a. P (respond env (on_get_reactions a))" "\<And>a. P (respond env (on_get_un_reactions a))"
    "P (respond env on_get_sent_files)" "P (respond env on_get_ws_clients)" "\<And>b. P (respond env (on_push_inbound env b))"
    "\<And>a. P (respond env (on_get_sent_messages a))" "\<And>b. P (respond env (on_register_membership env b))"
  shows "P (route env form req u)"
proof -
  have i: "P g \<Longrightarrow> P h \<Longrightarrow> P (if c then g else h)" for c g h by simp
  have l: "P g \<Longrightarrow> (\<And>x xs. P (f x xs)) \<Longrightarrow> P (case ys of [] \<Rightarrow> g | x # xs \<Rightarrow> f x xs)" for f g and ys :: "string list"
    by (cases ys) simp_all
  show ?thesis unfolding route_def Let_def prod.case by (intro i l assms)
qed

text \<open>Buckets.\<close>

lemma bucket_append_self [simp]: "bucket k (bucket_append k e d) = bucket k d @ [e]"
  by (simp add: bucket_append_def bucket_def)

lemma bucket_append_other: "k' \<noteq> k \<Longrightarrow> bucket k' (bucket_append k e d) = bucket k' d"
  by (simp add: bucket_append_def bucket_def)

lemma mset_union_dset: "mset (union_buckets (dset k es d)) + mset (bucket k d) = mset (union_buckets d) + mset es"
  by (induction d) (auto simp: union_buckets_def bucket_def)

lemma mset_union_append: "mset (union_buckets (bucket_append k e d)) = add_mset e (mset (union_buckets d))"
  using mset_union_dset [of k "bucket k d @ [e]" d] by (simp add: bucket_append_def)

lemma distinct_union_append:
  "distinct (map f (union_buckets (bucket_append k e d))) \<longleftrightarrow> f e \<notin> f ` set (union_buckets d) \<and> distinct (map f (union_buckets d))"
proof -
  have "mset (map f (union_buckets (bucket_append k e d))) = mset (map f (e # union_buckets d))"
    by (simp add: mset_union_append)
  then have "distinct (map f (union_buckets (bucket_append k e d))) = distinct (map f (e # union_buckets d))"
    by (rule mset_eq_imp_distinct_iff)
  then show ?thesis by simp
qed

lemma set_union_append: "set (union_buckets (bucket_append k e d)) = insert e (set (union_buckets d))"
  by (metis mset_union_append set_mset_add_mset_insert set_mset_mset)


text \<open>Steps that record no message: draws and memberships only grow.\<close>

definition quiet :: "mock \<Rightarrow> mock \<Rightarrow> bool" where
  "quiet s s' \<longleftrightarrow> mf_sent_messages s' = mf_sent_messages s \<and> mf_tokens s \<le> mf_tokens s' \<and> (\<forall>k. members k s \<subseteq> members k s')"

interpretation quiet: frame quiet
  by unfold_locales (auto simp: quiet_def members_def)

lemma quiet_updates:
  "quiet s (s\<lparr>mf_chat_history := h\<rparr>)" "quiet s (s\<lparr>mf_uploaded_files := f\<rparr>)" "quiet s (s\<lparr>mf_reactions := r\<rparr>)"
  "quiet s (s\<lparr>mf_un_reactions := r\<rparr>)" "quiet s (s\<lparr>mf_reactions := r, mf_un_reactions := r'\<rparr>)"
  "quiet s (s\<lparr>mf_files_dir := d, mf_uploaded_files := f\<rparr>)" "quiet s (s\<lparr>mf_inbound_resources := i\<rparr>)" "quiet s (s\<lparr>mf_outbox := b\<rparr>)"
  "quiet s (s\<lparr>mf_ws_clients := w\<rparr>)" "quiet s (s\<lparr>mf_ws_clients := w, mf_port := p\<rparr>)"
  "quiet s (s\<lparr>mf_chat_membership := dset a (members a s) (mf_chat_membership s)\<rparr>)" "quiet s (register_chat_membership a c s)"
  "quiet s s"
  by (auto simp: quiet_def members_def register_chat_membership_def split: option.splits)

lemmas quiet_intros = quiet.within_intros quiet.within_upd quiet.within_push_each quiet_updates

lemma quiet_push_inbound: "quiet.within (push_inbound env c u mt ct b fn a)"
  unfolding push_inbound_def new_message_id_def inbound_content_def keep_resource_def Let_def
  by (intro quiet_intros)

lemma quiet_handlers:
  "quiet.within (on_list_messages c p)" "quiet.within (on_upload_file env hs form b)" "quiet.within (on_create_reaction env hs i b)"
  "quiet.within (on_delete_reactions_by_message env hs i b)" "quiet.within (on_get_reactions a)" "quiet.within (on_get_un_reactions a)"
  "quiet.within on_get_sent_files" "quiet.within on_get_ws_clients" "quiet.within (on_push_inbound env b)"
  "quiet.within (on_get_sent_messages a)" "quiet.within (on_register_membership env b)" "quiet.within (link_upload env v)"
  "quiet.within (seed_inbound_message env ch st mt ct)"
  unfolding on_list_messages_def on_upload_file_def on_create_reaction_def on_delete_reactions_by_message_def
    on_get_reactions_def on_get_un_reactions_def log_of_def on_get_sent_files_def on_get_ws_clients_def on_push_inbound_def
    on_get_sent_messages_def on_register_membership_def link_upload_def seed_inbound_message_def new_message_id_def Let_def
  by (intro quiet_intros quiet_push_inbound)+

lemma quiet_delete_by_id: "quiet.within (on_delete_reaction_by_id env hs i k)"
  unfolding on_delete_reaction_by_id_def Let_def
  by (intro quiet_intros) (auto simp: quiet_updates split: option.splits)

text \<open>Creating a message: nothing is recorded, or one record with a new id, of a member or of the default app.\<close>

definition sends_one :: "mock_env \<Rightarrow> mock \<Rightarrow> mock \<Rightarrow> bool" where
  "sends_one env s s' \<longleftrightarrow> quiet s s' \<or>
     (\<exists>app i rt r mt c now. mf_sent_messages s' = bucket_append app (sent_record (''om_mock_'' @ me_token env i) rt r mt c now app) (mf_sent_messages s) \<and>
        mf_tokens s \<le> i \<and> i < mf_tokens s' \<and> (\<forall>k. members k s \<subseteq> members k s') \<and> (app = PyStr ''default'' \<or> r \<in> members app s'))"

lemma record_message_sends:
  assumes "app = PyStr ''default'' \<or> r \<in> members app s" "mf_tokens s0 = i" "mf_tokens s = Suc i" "mf_sent_messages s = mf_sent_messages s0"
    "\<And>k. members k s = members k s0"
  shows "sends_one env s0 (snd (record_message env rt app body r (''om_mock_'' @ me_token env i) s))"
proof (cases body)
  case (PyDict d)
  let ?rec = "sent_record (''om_mock_'' @ me_token env i) (case rt of Some t \<Rightarrow> t | None \<Rightarrow> ''chat_id'') r
    (dget_or ''msg_type'' PyNone d) (dget_or ''content'' PyNone d) (me_now env) app"
  let ?s1 = "s\<lparr>mf_sent_messages := bucket_append app ?rec (mf_sent_messages s)\<rparr>"
  have "quiet ?s1 (snd (record_message env rt app body r (''om_mock_'' @ me_token env i) s))"
  proof -
    have "quiet.within (abind (if dget_or ''msg_type'' PyNone d = PyStr ''file'' then link_upload env (PyDict d) else ret ()) (\<lambda>_.
       let chat_id = py_or r (PyStr ''unknown'') in
       abind (require_hashable chat_id) (\<lambda>_.
       abind (upd (\<lambda>s. s\<lparr>mf_chat_history := bucket_push chat_id
              (history_entry (''om_mock_'' @ me_token env i) (me_now env) chat_id (dget_or ''msg_type'' PyNone d) (PyStr ''app'') ''ou_mock_bot''
                 (dget_or ''content'' PyNone d)) (mf_chat_history s)\<rparr>)) (\<lambda>_.
       ret (reply_ok (mkdict [(''message_id'', PyStr (''om_mock_'' @ me_token env i))]))))))"
      unfolding Let_def by (intro quiet_intros quiet_handlers)
    then show ?thesis unfolding quiet.within_def PyDict record_message_def
      by (simp add: jget_def)
  qed
  then obtain s' where s': "snd (record_message env rt app body r (''om_mock_'' @ me_token env i) s) = s'" "quiet ?s1 s'" by blast
  have "mf_sent_messages s' = bucket_append app ?rec (mf_sent_messages s0)" "i < mf_tokens s'" "\<forall>k. members k s0 \<subseteq> members k s'"
    using s'(2) assms by (auto simp: quiet_def members_def)
  moreover have "app = PyStr ''default'' \<or> r \<in> members app s'"
    using calculation(3) assms by blast
  moreover have "mf_tokens s0 \<le> i" using assms(2) by simp
  ultimately show ?thesis unfolding sends_one_def s'(1) by blast
qed (use assms in \<open>simp_all add: record_message_def jget_def sends_one_def quiet_def py_get_def\<close>)


lemma create_message_sends: "sends_one env s (snd (on_create_message env hs rt b s))"
proof (cases "me_loads env b")
  case (Inl e)
  then show ?thesis by (simp add: on_create_message_def json_body_def sends_one_def quiet_updates)
next
  case (Inr body)
  let ?s1 = "s\<lparr>mf_tokens := Suc (mf_tokens s)\<rparr>"
  let ?id = "''om_mock_'' @ me_token env (mf_tokens s)"
  have q: "sends_one env s ?s1" by (simp add: sends_one_def quiet.frame_token)
  show ?thesis
  proof (cases body)
    case (PyDict d)
    let ?r = "dget_or ''receive_id'' PyNone d"
    have r: "sends_one env s (snd (record_message env rt (app_of hs) body ?r ?id ?s1))"
      if "app_of hs = PyStr ''default'' \<or> ?r \<in> members (app_of hs) ?s1"
      by (rule record_message_sends [OF that]) (simp_all add: members_def)
    have "on_create_message env hs rt b s =
        (if app_of hs \<noteq> PyStr ''default'' then
          (if hashable ?r then
             (if ?r \<notin> members (app_of hs) ?s1 then (Inr (not_member (app_of hs) ?r), ?s1)
              else record_message env rt (app_of hs) body ?r ?id ?s1)
           else (Inl (type_error (''unhashable type: '' @ repr_str (type_name ?r))), ?s1))
         else record_message env rt (app_of hs) body ?r ?id ?s1)"
      using Inr PyDict
      by (simp add: on_create_message_def json_body_def new_message_id_def jget_def token_def abind_def require_hashable_def gets_def Let_def)
    then show ?thesis using q r by auto
  qed (use Inr q in \<open>simp_all add: on_create_message_def json_body_def new_message_id_def jget_def token_def abind_def py_get_def\<close>)
qed


section \<open>Reachable states\<close>

text \<open>
  The server after a start, under requests in any order, each with its own clock reading, the coming and going of
  subscribers, and the calls of the test API.
\<close>

inductive reachable :: "mock_env \<Rightarrow> mock \<Rightarrow> bool" for env where
  started: "reachable env (snd (start port bound old mock_init))"
| request: "reachable env s \<Longrightarrow> reachable env (snd (route (env\<lparr>me_now := now\<rparr>) form req u s))"
| connect: "reachable env s \<Longrightarrow> reachable env (ws_connect a ident s)"
| closed: "reachable env s \<Longrightarrow> reachable env (ws_mark_closed ident s)"
| disconnect: "reachable env s \<Longrightarrow> reachable env (ws_disconnect a ident s)"
| membership: "reachable env s \<Longrightarrow> reachable env (register_chat_membership app chat_id s)"
| seed: "reachable env s \<Longrightarrow> reachable env (snd (seed_inbound_message (env\<lparr>me_now := now\<rparr>) chat_id st mt ct s))"
| pushed: "reachable env s \<Longrightarrow> reachable env (snd (push_inbound (env\<lparr>me_now := now\<rparr>) chat_id user mt ct bytes fname app s))"
| stopped: "reachable env s \<Longrightarrow> reachable env (stop s)"

definition owned :: "mock \<Rightarrow> bool" where
  "owned s \<longleftrightarrow> (\<forall>app e. e \<in> set (bucket app (mf_sent_messages s)) \<longrightarrow> dget ''app_id'' e = Some app \<and>
     (app = PyStr ''default'' \<or> (\<exists>r. dget ''receive_id'' e = Some r \<and> r \<in> members app s)))"

definition numbered :: "mock_env \<Rightarrow> mock \<Rightarrow> bool" where
  "numbered env s \<longleftrightarrow> (\<forall>e. e \<in> set (sent_messages s) \<longrightarrow>
     (\<exists>i < mf_tokens s. dget ''message_id'' e = Some (PyStr (''om_mock_'' @ me_token env i))))"

definition sent_inv :: "mock_env \<Rightarrow> mock \<Rightarrow> bool" where
  [inv_simps]: "sent_inv env s \<longleftrightarrow> owned s \<and> numbered env s \<and> distinct (map (dget ''message_id'') (sent_messages s))"

lemma sent_inv_quiet:
  assumes "sent_inv env s" "quiet s s'"
  shows "sent_inv env s'"
proof -
  have q: "mf_sent_messages s' = mf_sent_messages s" "mf_tokens s \<le> mf_tokens s'" "\<And>k. members k s \<subseteq> members k s'"
    using assms(2) by (auto simp: quiet_def)
  have "owned s'" using assms(1) q(3) unfolding sent_inv_def owned_def q(1) by blast
  moreover have "numbered env s'"
    using assms(1) order_less_le_trans [OF _ q(2)] unfolding sent_inv_def numbered_def sent_messages_def q(1) by blast
  ultimately show ?thesis using assms(1) by (simp add: sent_inv_def sent_messages_def q(1))
qed

lemma sent_inv_sends:
  assumes "inj (me_token env)" "sent_inv env s" "sends_one env s s'"
  shows "sent_inv env s'"
proof (cases "quiet s s'")
  case False
  then obtain app i rt r mt c now where a: "mf_sent_messages s' = bucket_append app (sent_record (''om_mock_'' @ me_token env i) rt r mt c now app) (mf_sent_messages s)"
    "mf_tokens s \<le> i" "i < mf_tokens s'" "\<forall>k. members k s \<subseteq> members k s'" "app = PyStr ''default'' \<or> r \<in> members app s'"
    using assms(3) unfolding sends_one_def by blast
  let ?e = "sent_record (''om_mock_'' @ me_token env i) rt r mt c now app"
  have inv: "owned s" "numbered env s" "distinct (map (dget ''message_id'') (sent_messages s))"
    using assms(2) by (simp_all add: sent_inv_def)
  have "owned s'"
    unfolding owned_def
  proof (intro allI impI)
    fix k e assume that: "e \<in> set (bucket k (mf_sent_messages s'))"
    show "dget ''app_id'' e = Some k \<and> (k = PyStr ''default'' \<or> (\<exists>r. dget ''receive_id'' e = Some r \<and> r \<in> members k s'))"
    proof (cases "e \<in> set (bucket k (mf_sent_messages s))")
      case True
      with inv(1) a(4) show ?thesis unfolding owned_def by blast
    next
      case False
      with that a(1) have "k = app \<and> e = ?e" by (cases "k = app") (auto simp: bucket_append_other)
      with a(5) show ?thesis by (simp add: sent_record_def)
    qed
  qed
  moreover have "numbered env s'"
    unfolding numbered_def
  proof (intro allI impI)
    fix e assume that: "e \<in> set (sent_messages s')"
    show "\<exists>j < mf_tokens s'. dget ''message_id'' e = Some (PyStr (''om_mock_'' @ me_token env j))"
    proof (cases "e \<in> set (sent_messages s)")
      case True
      with inv(2) a(2,3) show ?thesis unfolding numbered_def by (meson order.strict_trans order.strict_trans1)
    next
      case False
      with that a(1) have "e = ?e" by (simp add: sent_messages_def set_union_append)
      with a(3) show ?thesis by (auto simp: sent_record_def)
    qed
  qed
  moreover have "dget ''message_id'' ?e \<notin> dget ''message_id'' ` set (sent_messages s)"
  proof
    assume "dget ''message_id'' ?e \<in> dget ''message_id'' ` set (sent_messages s)"
    then obtain e where e: "e \<in> set (sent_messages s)" "dget ''message_id'' ?e = dget ''message_id'' e" by auto
    then obtain j where j: "j < mf_tokens s" "dget ''message_id'' e = Some (PyStr (''om_mock_'' @ me_token env j))"
      using inv(2) unfolding numbered_def by blast
    with e(2) have "me_token env i = me_token env j" by (simp add: sent_record_def)
    with a(2) j(1) injD [OF assms(1)] show False by force
  qed
  ultimately show ?thesis using inv(3) a(1) by (simp add: sent_inv_def sent_messages_def distinct_union_append)
qed (rule sent_inv_quiet [OF assms(2)])


lemma sends_one_now: "sends_one (env\<lparr>me_now := now\<rparr>) = sends_one env"
  by (simp add: sends_one_def fun_eq_iff)

lemma within_sends: "quiet.within h \<Longrightarrow> sends_one env s (snd (h s))"
  by (simp add: sends_one_def quiet.within_def)

lemma route_sends: "sends_one env s (snd (route env form req u s))"
proof -
  have "\<forall>s. sends_one env s (snd (route env form req u s))"
    by (rule route_cases [of "\<lambda>h. \<forall>s. sends_one env s (snd (h s))"])
       (simp_all add: respond_state create_message_sends within_sends quiet_handlers quiet_delete_by_id quiet.within_basic del: act_simps)
  then show ?thesis by blast
qed

text \<open>Steps that leave the buckets of every app but one as they are.\<close>

definition confined :: "py_val \<Rightarrow> mock \<Rightarrow> mock \<Rightarrow> bool" where
  "confined app s s' \<longleftrightarrow> (\<forall>k. k \<noteq> app \<longrightarrow> bucket k (mf_sent_messages s') = bucket k (mf_sent_messages s) \<and>
     bucket k (mf_reactions s') = bucket k (mf_reactions s) \<and> bucket k (mf_un_reactions s') = bucket k (mf_un_reactions s))"

interpretation confined: frame "confined app" for app
  by unfold_locales (auto simp: confined_def)

lemma confined_updates:
  "confined app s (s\<lparr>mf_sent_messages := bucket_append app e (mf_sent_messages s)\<rparr>)"
  "confined app s (s\<lparr>mf_reactions := bucket_append app e (mf_reactions s)\<rparr>)"
  "confined app s (s\<lparr>mf_un_reactions := bucket_append app e (mf_un_reactions s)\<rparr>)"
  "confined app s (s\<lparr>mf_reactions := dset app es (mf_reactions s)\<rparr>)"
  "confined app s (s\<lparr>mf_reactions := dset app es (mf_reactions s), mf_un_reactions := dset app es' (mf_un_reactions s)\<rparr>)"
  "confined app s (s\<lparr>mf_chat_history := h\<rparr>)" "confined app s (s\<lparr>mf_uploaded_files := f\<rparr>)"
  "confined app s (s\<lparr>mf_files_dir := d, mf_uploaded_files := f\<rparr>)" "confined app s (s\<lparr>mf_inbound_resources := i\<rparr>)"
  "confined app s (s\<lparr>mf_outbox := b\<rparr>)" "confined app s (s\<lparr>mf_chat_membership := m\<rparr>)"
  "confined app s (register_chat_membership a c s)" "confined app s s"
  by (auto simp: confined_def bucket_append_def bucket_def register_chat_membership_def)

lemmas confined_intros = confined.within_intros confined.within_upd confined.within_push_each confined_updates

lemma confined_link_upload: "confined.within app (link_upload env v)"
  unfolding link_upload_def by (intro confined_intros)

lemma confined_handlers:
  "confined.within (app_of hs) (on_create_message env hs rt b)" "confined.within (app_of hs) (on_create_reaction env hs i b)"
  "confined.within (app_of hs) (on_delete_reactions_by_message env hs i b)"
  unfolding on_create_message_def record_message_def on_create_reaction_def on_delete_reactions_by_message_def new_message_id_def Let_def
  by (intro confined_intros confined_link_upload)+

lemma confined_delete_by_id: "confined.within (app_of hs) (on_delete_reaction_by_id env hs i k)"
  unfolding on_delete_reaction_by_id_def Let_def
  by (intro confined_intros) (auto simp: confined_updates split: option.splits)

lemma confined_others:
  "confined.within app (on_list_messages c p)" "confined.within app (on_upload_file env hs form b)"
  "confined.within app (on_get_reactions a)" "confined.within app (on_get_un_reactions a)"
  "confined.within app on_get_sent_files" "confined.within app on_get_ws_clients" "confined.within app (on_push_inbound env b)"
  "confined.within app (on_get_sent_messages a)" "confined.within app (on_register_membership env b)"
  unfolding on_list_messages_def on_upload_file_def on_get_reactions_def on_get_un_reactions_def log_of_def on_get_sent_files_def
    on_get_ws_clients_def on_push_inbound_def push_inbound_def new_message_id_def inbound_content_def keep_resource_def
    on_get_sent_messages_def on_register_membership_def Let_def
  by (intro confined_intros)+

lemma route_confined: "confined (app_of (rq_headers req)) s (snd (route env form req u s))"
proof -
  have w: "confined (app_of (rq_headers req)) s (snd (h s))" if "confined.within (app_of (rq_headers req)) h"
    for h :: "py_val handler" and s using that by (simp add: confined.within_def)
  have "\<forall>s. confined (app_of (rq_headers req)) s (snd (route env form req u s))"
    by (rule route_cases [of "\<lambda>h. \<forall>s. confined (app_of (rq_headers req)) s (snd (h s))"])
       (simp_all add: respond_state w confined_handlers confined_others confined_delete_by_id confined_updates gets_def)
  then show ?thesis by blast
qed


section \<open>Properties\<close>

text \<open>
  C15. Sending is by members only: in every reachable state of the server each recorded message carries the app it is filed
  under, an app other than the default one has sent only to chats it has been registered for, and the ids of
  all recorded messages are distinct, if no token is drawn twice.
\<close>

theorem membership_enforced:
  assumes "reachable env s" "inj (me_token env)"
  shows "sent_inv env s"
  using assms(1)
proof induction
  case (started port bound old)
  show ?case by (simp add: sent_inv_def owned_def numbered_def start_def mock_init_def sent_messages_def union_buckets_def bucket_def)
next
  case (request s now form req u)
  show ?case
    by (rule sent_inv_sends [OF assms(2) request.IH]) (metis route_sends sends_one_now)
next
  case (seed s now chat_id st mt ct)
  then show ?case using sent_inv_quiet quiet_handlers(13) unfolding quiet.within_def by blast
next
  case (pushed s now chat_id user mt ct bytes fname app)
  then show ?case using sent_inv_quiet quiet_push_inbound unfolding quiet.within_def by blast
next
  case (disconnect s a ident)
  then show ?case using sent_inv_quiet by (force simp: ws_disconnect_def Let_def quiet_updates split: option.splits)
qed (auto intro: sent_inv_quiet simp: ws_connect_def ws_mark_closed_def stop_def quiet_updates)

definition demo_mock_env :: mock_env where
  "demo_mock_env = \<lparr>me_loads = (\<lambda>t. Inr (decode_val t)), me_dumps = (\<lambda>v. Inr (encode_val v)), me_sha256 = demo_sha,
     me_token = (\<lambda>n. replicate n CHR ''a''), me_now = 0\<rparr>"

definition demo_mock :: mock where
  "demo_mock = register_chat_membership (PyStr ''feishu_1'') (PyStr ''oc_1'') (snd (start 8101 8101 [] mock_init))"

lemma demo_token_inj: "inj (me_token demo_mock_env)"
  by (rule injI) (simp add: demo_mock_env_def)

definition demo_post :: http_req where
  "demo_post = \<lparr>rq_method = ''POST'', rq_url = [], rq_headers = [(''X-App-Id'', ''feishu_1'')],
     rq_body = encode_val (PyDict (mkdict [(''receive_id'', PyStr ''oc_1''), (''msg_type'', PyStr ''text''), (''content'', PyStr ''hi'')]))\<rparr>"

theorem membership_enforced_witness:
  "sent_inv demo_mock_env (snd (route (demo_mock_env\<lparr>me_now := 5\<rparr>) (None, None) demo_post ''/open-apis/im/v1/messages'' demo_mock))"
  by (rule membership_enforced [OF _ demo_token_inj])
     (unfold demo_mock_def, intro reachable.intros)

text \<open>
  The apps are kept apart: a request on behalf of one app, whatever it is, leaves the sent messages, the reactions
  and the removed reactions of every other app as they are.
\<close>

theorem apps_isolated:
  assumes "k \<noteq> app_of (rq_headers req)" "snd (route env form req u s) = s'"
  shows "bucket k (mf_sent_messages s') = bucket k (mf_sent_messages s) \<and> bucket k (mf_reactions s') = bucket k (mf_reactions s) \<and>
    bucket k (mf_un_reactions s') = bucket k (mf_un_reactions s)"
  using route_confined [of req s env form u] assms by (simp add: confined_def)

theorem apps_isolated_witness:
  "bucket (PyStr ''feishu_2'') (mf_sent_messages (snd (route demo_mock_env (None, None) demo_post ''/open-apis/im/v1/messages'' demo_mock))) =
     bucket (PyStr ''feishu_2'') (mf_sent_messages demo_mock)"
proof -
  have "lower ''X-App-Id'' = ''x-app-id''" by code_simp
  then have "PyStr ''feishu_2'' \<noteq> app_of (rq_headers demo_post)" by (simp add: demo_post_def app_of_def header_get_def)
  from apps_isolated [OF this refl] show ?thesis by blast
qed

end
