(* ===== verification/Feishu_Loop.thy ===== *)
theory Feishu_Loop
  imports Mock_Feishu
begin

text \<open>
  The Feishu adapter and the mock server together: the adapter's HTTP service is the server, its world the server's state.
  The directives with a mock path are followed through the request, the route and the handler to the
  state of the server, and a medium pushed into the server through the frame and the adapter's event to the
  bytes that the adapter downloads.
\<close>

section \<open>Base64 without validation\<close>

text \<open>The shape of an encoding: groups of four characters of the alphabet, the last one possibly padded.\<close>

lemma b64encode_shape:
  assumes "P []" "\<And>p q. p < 64 \<Longrightarrow> q < 64 \<Longrightarrow> P [b64_char p, b64_char q, CHR ''='', CHR ''='']"
    "\<And>p q r. p < 64 \<Longrightarrow> q < 64 \<Longrightarrow> r < 64 \<Longrightarrow> P [b64_char p, b64_char q, b64_char r, CHR ''='']"
    "\<And>p q r u t. p < 64 \<Longrightarrow> q < 64 \<Longrightarrow> r < 64 \<Longrightarrow> u < 64 \<Longrightarrow> P t \<Longrightarrow> P ([b64_char p, b64_char q, b64_char r, b64_char u] @ t)"
  shows "P (b64encode s)"
proof -
  have lt: "of_char c < (256 :: nat)" for c :: char by simp
  show ?thesis
  proof (induction s rule: b64encode.induct)
    case (2 a)
    show ?case unfolding b64encode.simps Let_def
      by (rule assms(2)) (rule b64_three [OF lt [of a] lt [of a] lt [of a]])+
  next
    case (3 a b)
    show ?case unfolding b64encode.simps Let_def
      by (rule assms(3)) (rule b64_three [OF lt [of a] lt [of b] lt [of b]])+
  next
    case (4 a b c rest)
    show ?case unfolding b64encode.simps Let_def
      by (rule assms(4)) (rule b64_three [OF lt [of a] lt [of b] lt [of c]] "4.IH" [OF refl refl refl])+
  qed (simp add: assms(1))
qed

lemma replicate_12: "replicate 1 c = [c]" "replicate 2 c = [c, c]"
  by (simp_all add: numeral_2_eq_2)

lemma b64_char_alphabet:
  assumes "n < 64"
  shows "is_b64_char (b64_char n)" "of_char (b64_char n) < (128 :: nat)"
proof -
  consider "n < 26" | "26 \<le> n" "n < 52" | "52 \<le> n" "n < 62" | "n = 62" | "n = 63" using assms by linarith
  then show "is_b64_char (b64_char n)" by cases (auto simp: b64_char_def is_b64_char_def Let_def)
  show "of_char (b64_char n) < (128 :: nat)" using assms by (auto simp: b64_char_def)
qed

lemmas b64_chars = b64_char_props b64_char_alphabet

lemma a2b_encode:
  "\<forall>acc. \<exists>x. a2b_base64 (b64encode s) 0 0 acc = Some (acc @ x) \<and> x @ replicate ((4 - length x mod 4) mod 4) CHR ''='' = b64encode s"
proof (rule b64encode_shape, goal_cases)
  case (2 p q)
  then show ?case by (intro allI exI [of _ "[b64_char p, b64_char q]"]) (simp add: b64_chars replicate_12)
next
  case (3 p q r)
  then show ?case by (intro allI exI [of _ "[b64_char p, b64_char q, b64_char r]"]) (simp add: b64_chars replicate_12)
next
  case (4 p q r u t)
  let ?g = "[b64_char p, b64_char q, b64_char r, b64_char u]"
  show ?case
  proof
    fix acc
    have g: "a2b_base64 (?g @ t) 0 0 acc = a2b_base64 t 0 0 (acc @ ?g)" using 4(1-4) by (simp add: b64_chars)
    obtain x where "a2b_base64 t 0 0 (acc @ ?g) = Some ((acc @ ?g) @ x)" "x @ replicate ((4 - length x mod 4) mod 4) CHR ''='' = t"
      using 4(5) by blast
    with g show "\<exists>x. a2b_base64 (?g @ t) 0 0 acc = Some (acc @ x) \<and> x @ replicate ((4 - length x mod 4) mod 4) CHR ''='' = ?g @ t"
      by (intro exI [of _ "?g @ x"]) simp
  qed
qed simp

lemma b64encode_ascii: "\<forall>c\<in>set (b64encode s). of_char c < (128 :: nat)"
  by (rule b64encode_shape) (simp_all add: b64_chars)

interpretation loose64: codec b64encode "\<lambda>t. b64decode_loose (PyStr t)" "\<lambda>_. True"
proof
  fix s :: string
  obtain x where x: "a2b_base64 (b64encode s) 0 0 [] = Some x" "x @ replicate ((4 - length x mod 4) mod 4) CHR ''='' = b64encode s"
    using spec [OF a2b_encode [of s], of "[]"] by auto
  have "\<not> (\<exists>c\<in>set (b64encode s). of_char c \<ge> (128 :: nat))" using b64encode_ascii [of s] by force
  with x show "b64decode_loose (PyStr (b64encode s)) = Inr s"
    by (simp add: b64decode_loose_def base64.dec_enc)
qed


section \<open>The adapter against the server\<close>

text \<open>JSON texts of plain documents are not empty and load to the document.\<close>

definition json_faithful :: "(string \<Rightarrow> py_val res) \<Rightarrow> (py_val \<Rightarrow> string res) \<Rightarrow> bool" where
  "json_faithful json_loads json_dumps \<longleftrightarrow>
     (\<forall>v. plain_doc v \<longrightarrow> (\<exists>t. json_dumps v = Inr t \<and> t \<noteq> [] \<and> json_loads t = Inr v))"

text \<open>An adapter whose configured base URL is that of the server, with the same JSON and hash functions.\<close>

definition wired :: "mock services \<Rightarrow> mock_env \<Rightarrow> string \<Rightarrow> mock fstate \<Rightarrow> bool" where
  "wired sv env base s \<longleftrightarrow> sv_http sv = serve env base \<and> sv_dumps sv = me_dumps env \<and> sv_loads sv = me_loads env \<and>
     sv_sha256 sv = me_sha256 env \<and> json_faithful (me_loads env) (me_dumps env) \<and>
     cfg_or ''base_url'' (PyStr []) (st_adapter s) = PyStr base \<and> is_local base"

lemma local_base_wired: "wired sv env base s \<Longrightarrow> local_base s = (Inr (Some base), s)"
  by (auto simp: wired_def local_base_def is_local_def py_or_def Let_def)

lemma wired_world: "wired sv env base s \<Longrightarrow> wired sv env base (s\<lparr>st_world := w\<rparr>)"
  by (simp add: wired_def)

definition app_key :: "'w fstate \<Rightarrow> py_val" where
  "app_key s = PyStr (fa_actor_id (st_adapter s))"

lemma app_of_request: "app_of (rq_headers (json_request meth url t (st_adapter s))) = app_key s"
proof -
  have "lower ''X-App-Id'' = ''x-app-id''" "lower ''content-type'' = ''content-type''" by code_simp+
  then show ?thesis by (simp add: app_of_def header_get_def json_request_def app_key_def)
qed

text \<open>A JSON call that reaches a handler which answers: the answer's data come back, and the state is the handler's.\<close>

lemma json_call_answered:
  assumes w: "wired sv env base s" and "plain_doc (PyDict body)" "plain_doc v"
    and h: "\<And>t. me_loads env t = Inr (PyDict body) \<Longrightarrow> t \<noteq> [] \<Longrightarrow>
      route env (None, None) (json_request meth (base @ u) t (st_adapter s)) u (st_world s) = respond env (h t) (st_world s) \<and>
      h t (st_world s) = (Inr v, w')"
  shows "\<exists>t. me_loads env t = Inr v \<and> json_call sv meth (base @ u) body s = (Inr (HttpBody t), s\<lparr>st_world := w'\<rparr>)"
proof -
  obtain b where b: "me_dumps env (PyDict body) = Inr b" "b \<noteq> []" "me_loads env b = Inr (PyDict body)"
    using w assms(2) unfolding wired_def json_faithful_def by blast
  obtain t where t: "me_dumps env v = Inr t" "me_loads env t = Inr v"
    using w assms(3) unfolding wired_def json_faithful_def by blast
  let ?req = "json_request meth (base @ u) b (st_adapter s)"
  have r: "route env (None, None) ?req u (st_world s) = (Inr (200, t), w')"
    using h [OF b(3,2)] t by (simp add: respond_def abind_def)
  have "serve env base ?req (st_world s) = (HttpBody t, w')"
    using r by (simp add: serve_def json_request_def)
  then have "json_call sv meth (base @ u) body s = (Inr (HttpBody t), s\<lparr>st_world := w'\<rparr>)"
    using w b(1) by (simp add: json_call_def http_call_def wired_def)
  with t show ?thesis by blast
qed

lemma json_reply:
  assumes w: "wired sv env base s" and "plain_doc (PyDict body)" "plain_doc (reply_ok data)"
    and h: "\<And>t. me_loads env t = Inr (PyDict body) \<Longrightarrow> t \<noteq> [] \<Longrightarrow>
      route env (None, None) (json_request meth (base @ u) t (st_adapter s)) u (st_world s) = respond env (h t) (st_world s) \<and>
      h t (st_world s) = (Inr (reply_ok data), w')"
  shows "abind (json_call sv meth (base @ u) body) (reply_data sv failure dflt) s =
    (Inr (mkdict [(''ok'', PyBool True), (''result'', py_or (PyDict data) (PyDict dflt))]), s\<lparr>st_world := w'\<rparr>)"
proof -
  obtain t where "me_loads env t = Inr (reply_ok data)" "json_call sv meth (base @ u) body s = (Inr (HttpBody t), s\<lparr>st_world := w'\<rparr>)"
    using json_call_answered [OF w assms(2,3) h] by blast
  with w show ?thesis by (simp add: abind_def reply_data_def wired_def reply_ok_def dget_or_def)
qed

text \<open>The path of an endpoint of a message.\<close>

lemma url_path_reactions:
  assumes "CHR ''/'' \<notin> set mid" "CHR ''?'' \<notin> set mid"
  shows "url_path (''/open-apis/im/v1/messages/'' @ mid @ ''/reactions'') = [''open-apis'', ''im'', ''v1'', ''messages'', mid, ''reactions'']"
  using split_on_append [OF assms(1), of "''reactions''"] assms(2) by (simp add: url_path_def before_absent)

lemma react_mock_effect:
  assumes w: "wired sv env base s" and m: "CHR ''/'' \<notin> set mid" "CHR ''?'' \<notin> set mid" "mid \<noteq> []"
  shows "\<exists>r i. react_mock sv base (PyStr mid) (PyStr e) s = (Inr r, s\<lparr>st_world := (st_world s)\<lparr>mf_tokens := i,
    mf_reactions := bucket_append (app_key s) (reaction_entry mid (PyStr e) (me_now env) (app_key s)) (mf_reactions (st_world s))\<rparr>\<rparr>) \<and>
    dget ''ok'' r = Some (PyBool True)"
proof -
  let ?u = "''/open-apis/im/v1/messages/'' @ mid @ ''/reactions''"
  let ?w = "(st_world s)\<lparr>mf_tokens := Suc (mf_tokens (st_world s)),
    mf_reactions := bucket_append (app_key s) (reaction_entry mid (PyStr e) (me_now env) (app_key s)) (mf_reactions (st_world s))\<rparr>"
  let ?d = "mkdict [(''reaction_id'', PyStr (''rc_mock_'' @ me_token env (mf_tokens (st_world s)))), (''message_id'', PyStr mid)]"
  have r: "route env (None, None) (json_request ''POST'' (base @ ?u) t (st_adapter s)) ?u =
      respond env (on_create_reaction env (rq_headers (json_request ''POST'' (base @ ?u) t (st_adapter s))) mid t)" for t
    unfolding route_def Let_def url_path_reactions [OF m(1,2)] using m(3) by (simp add: IM_V1_def json_request_def)
  have h: "on_create_reaction env (rq_headers (json_request ''POST'' (base @ ?u) t (st_adapter s))) mid t (st_world s) = (Inr (reply_ok ?d), ?w)"
    if "me_loads env t = Inr (PyDict (reaction_body (PyStr e)))" for t
    unfolding on_create_reaction_def app_of_request
    using that by (simp add: json_body_def jget_def reaction_body_def dget_or_def abind_def token_def upd_def)
  have "abind (json_call sv ''POST'' (base @ ?u) (reaction_body (PyStr e))) (reply_data sv ''mock react failed: '' []) s =
      (Inr (mkdict [(''ok'', PyBool True), (''result'', py_or (PyDict ?d) (PyDict []))]), s\<lparr>st_world := ?w\<rparr>)"
  proof (rule json_reply [OF w])
    show "plain_doc (PyDict (reaction_body (PyStr e)))" by (simp add: reaction_body_def)
    show "plain_doc (reply_ok ?d)" by (simp add: reply_ok_def)
  qed (rule conjI [OF fun_cong [OF r] h])
  then show ?thesis by (auto simp: react_mock_def reactions_url_def)
qed


definition removal_entries :: "mock_env \<Rightarrow> py_val \<Rightarrow> string \<Rightarrow> string \<Rightarrow> py_kvs list \<Rightarrow> py_kvs list" where
  "removal_entries env app mid e es =
     (let removed = filter (on_message mid) es in
      if removed = [] then [reaction_entry mid (PyStr e) (me_now env) app]
      else map (\<lambda>r. reaction_entry mid (py_or (PyStr e) (dget_or ''emoji_type'' (PyStr []) r)) (me_now env) app) removed)"

lemma un_react_mock_effect:
  assumes w: "wired sv env base s" and m: "CHR ''/'' \<notin> set mid" "CHR ''?'' \<notin> set mid" "mid \<noteq> []"
  shows "\<exists>r. un_react_mock sv base (PyStr mid) (PyStr e) s = (Inr r, s\<lparr>st_world := (st_world s)\<lparr>
      mf_reactions := dset (app_key s) (filter (\<lambda>x. \<not> on_message mid x) (bucket (app_key s) (mf_reactions (st_world s)))) (mf_reactions (st_world s)),
      mf_un_reactions := dset (app_key s) (bucket (app_key s) (mf_un_reactions (st_world s)) @
        removal_entries env (app_key s) mid e (bucket (app_key s) (mf_reactions (st_world s)))) (mf_un_reactions (st_world s))\<rparr>\<rparr>) \<and>
    dget ''ok'' r = Some (PyBool True)"
proof -
  let ?u = "''/open-apis/im/v1/messages/'' @ mid @ ''/reactions''"
  let ?w = "(st_world s)\<lparr>
      mf_reactions := dset (app_key s) (filter (\<lambda>x. \<not> on_message mid x) (bucket (app_key s) (mf_reactions (st_world s)))) (mf_reactions (st_world s)),
      mf_un_reactions := dset (app_key s) (bucket (app_key s) (mf_un_reactions (st_world s)) @
        removal_entries env (app_key s) mid e (bucket (app_key s) (mf_reactions (st_world s)))) (mf_un_reactions (st_world s))\<rparr>"
  have r: "route env (None, None) (json_request ''DELETE'' (base @ ?u) t (st_adapter s)) ?u =
      respond env (on_delete_reactions_by_message env (rq_headers (json_request ''DELETE'' (base @ ?u) t (st_adapter s))) mid t)" for t
    unfolding route_def Let_def url_path_reactions [OF m(1,2)] using m(3) by (simp add: IM_V1_def json_request_def)
  have h: "on_delete_reactions_by_message env (rq_headers (json_request ''DELETE'' (base @ ?u) t (st_adapter s))) mid t (st_world s) =
      (Inr (reply_ok []), ?w)"
    if "me_loads env t = Inr (PyDict (reaction_body (PyStr e)))" "t \<noteq> []" for t
    unfolding on_delete_reactions_by_message_def app_of_request
    using that by (simp add: jget_def reaction_body_def dget_or_def or_dict_def removal_entries_def abind_def upd_def Let_def)
  have "abind (json_call sv ''DELETE'' (base @ ?u) (reaction_body (PyStr e))) (reply_data sv ''mock un_react failed: '' []) s =
      (Inr (mkdict [(''ok'', PyBool True), (''result'', py_or (PyDict []) (PyDict []))]), s\<lparr>st_world := ?w\<rparr>)"
  proof (rule json_reply [OF w])
    show "plain_doc (PyDict (reaction_body (PyStr e)))" by (simp add: reaction_body_def)
    show "plain_doc (reply_ok [])" by (simp add: reply_ok_def)
  qed (rule conjI [OF fun_cong [OF r] h])
  then show ?thesis by (auto simp: un_react_mock_def reactions_url_def)
qed

definition react_args :: "string \<Rightarrow> string \<Rightarrow> py_val" where
  "react_args mid e = PyDict (mkdict [(''msg_id'', PyStr mid), (''emoji_type'', PyStr e)])"

lemma react_directives:
  assumes "wired sv env base s"
  shows "on_directive sv (PyStr ''react'') (react_args mid e) s = react_mock sv base (PyStr mid) (PyStr e) s"
    "on_directive sv (PyStr ''un_react'') (react_args mid e) s = un_react_mock sv base (PyStr mid) (PyStr e) s"
  using local_base_wired [OF assms]
  by (simp_all add: on_directive_def retry_unless_local_def react_def un_react_def arg_def react_args_def py_index_def dget_or_def abind_def)

lemma link_file_new:
  assumes "\<And>f. f \<in> set fs \<Longrightarrow> dget ''file_key'' f \<noteq> Some key" "dget ''file_key'' e = Some key" "dget ''chat_id'' e = Some (PyStr [])"
    "key \<noteq> PyNone"
  shows "link_file key chat (fs @ [e]) = fs @ [dset (PyStr ''chat_id'') chat e]"
  using assms(1)
proof (induction fs)
  case (Cons f fs)
  then have "dget_or ''file_key'' PyNone f \<noteq> key" using assms(4) by (auto simp: dget_or_def split: option.splits)
  with Cons show ?case by simp
qed (use assms in \<open>simp add: dget_or_def\<close>)

text \<open>The state after an upload, and after the message that sends it.\<close>

definition uploaded :: "mock_env \<Rightarrow> string \<Rightarrow> string \<Rightarrow> (string \<times> string) list \<Rightarrow> mock \<Rightarrow> mock" where
  "uploaded env name bytes files w =
     (let key = ''file_mock_'' @ me_token env (mf_tokens w) in
      w\<lparr>mf_tokens := Suc (mf_tokens w), mf_files_dir := Some (dset key bytes files),
        mf_uploaded_files := mf_uploaded_files w @ [upload_entry env key (PyStr name) bytes]\<rparr>)"

lemma upload_answered:
  assumes w: "wired sv env base s" and f: "mf_files_dir (st_world s) = Some files"
  shows "\<exists>t. me_loads env t = Inr (reply_ok (mkdict [(''file_key'', PyStr (''file_mock_'' @ me_token env (mf_tokens (st_world s))))])) \<and>
    json_call sv ''POST'' (base @ ''/open-apis/im/v1/files'')
      (mkdict [(''file_type'', PyStr ''stream''), (''file_name'', PyStr name), (''content_b64'', PyStr (b64encode bytes))]) s =
    (Inr (HttpBody t), s\<lparr>st_world := uploaded env name bytes files (st_world s)\<rparr>)"
proof (rule json_call_answered [OF w])
  let ?b = "mkdict [(''file_type'', PyStr ''stream''), (''file_name'', PyStr name), (''content_b64'', PyStr (b64encode bytes))]"
  let ?req = "\<lambda>t. json_request ''POST'' (base @ ''/open-apis/im/v1/files'') t (st_adapter s)"
  fix t assume t: "me_loads env t = Inr (PyDict ?b)"
  have p: "url_path ''/open-apis/im/v1/files'' = [''open-apis'', ''im'', ''v1'', ''files'']" by code_simp
  have "route env (None, None) (?req t) ''/open-apis/im/v1/files'' = respond env (on_upload_file env (rq_headers (?req t)) (None, None) t)"
    unfolding route_def Let_def p by (simp add: IM_V1_def json_request_def)
  moreover have "upload_input env (rq_headers (?req t)) (None, None) t = Inr (PyStr name, bytes)"
    using t loose64.dec_enc by (simp add: upload_input_def header_get_def json_request_def py_index_def)
  then have "on_upload_file env (rq_headers (?req t)) (None, None) t (st_world s) =
      (Inr (reply_ok (mkdict [(''file_key'', PyStr (''file_mock_'' @ me_token env (mf_tokens (st_world s))))])),
       uploaded env name bytes files (st_world s))"
    using f by (simp add: on_upload_file_def abind_def token_def gets_def upd_def uploaded_def Let_def)
  ultimately show "route env (None, None) (?req t) ''/open-apis/im/v1/files'' (st_world s) =
        respond env (on_upload_file env (rq_headers (?req t)) (None, None) t) (st_world s) \<and>
      on_upload_file env (rq_headers (?req t)) (None, None) t (st_world s) =
        (Inr (reply_ok (mkdict [(''file_key'', PyStr (''file_mock_'' @ me_token env (mf_tokens (st_world s))))])),
         uploaded env name bytes files (st_world s))" by simp
qed (simp_all add: reply_ok_def)

definition file_sent :: "mock_env \<Rightarrow> py_val \<Rightarrow> string \<Rightarrow> string \<Rightarrow> string \<Rightarrow> mock \<Rightarrow> mock" where
  "file_sent env app chat key inner w =
     (let mid = ''om_mock_'' @ me_token env (mf_tokens w) in
      w\<lparr>mf_tokens := Suc (mf_tokens w),
        mf_sent_messages := bucket_append app
          (sent_record mid ''chat_id'' (PyStr chat) (PyStr ''file'') (PyStr inner) (me_now env) app) (mf_sent_messages w),
        mf_uploaded_files := link_file (PyStr key) (PyStr chat) (mf_uploaded_files w),
        mf_chat_history := bucket_push (PyStr chat)
          (history_entry mid (me_now env) (PyStr chat) (PyStr ''file'') (PyStr ''app'') ''ou_mock_bot'' (PyStr inner)) (mf_chat_history w)\<rparr>)"

lemma file_message_sent:
  assumes w: "wired sv env base s" and i: "me_loads env inner = Inr (PyDict (mkdict [(''file_key'', PyStr key)]))" "inner \<noteq> []"
    and c: "chat \<noteq> []" "app_key s = PyStr ''default'' \<or> PyStr chat \<in> members (app_key s) (st_world s)"
  shows "abind (json_call sv ''POST'' (base @ ''/open-apis/im/v1/messages?receive_id_type=chat_id'')
      (mkdict [(''receive_id'', PyStr chat), (''msg_type'', PyStr ''file''), (''content'', PyStr inner)])) (reply_data sv failure dflt) s =
    (Inr (mkdict [(''ok'', PyBool True), (''result'', py_or
       (PyDict (mkdict [(''message_id'', PyStr (''om_mock_'' @ me_token env (mf_tokens (st_world s))))])) (PyDict dflt))]),
     s\<lparr>st_world := file_sent env (app_key s) chat key inner (st_world s)\<rparr>)"
proof (rule json_reply [OF w])
  let ?b = "mkdict [(''receive_id'', PyStr chat), (''msg_type'', PyStr ''file''), (''content'', PyStr inner)]"
  let ?u = "''/open-apis/im/v1/messages?receive_id_type=chat_id''"
  let ?req = "\<lambda>t. json_request ''POST'' (base @ ?u) t (st_adapter s)"
  fix t assume t: "me_loads env t = Inr (PyDict ?b)"
  have p: "url_path ?u = [''open-apis'', ''im'', ''v1'', ''messages'']" "url_query ?u = [(''receive_id_type'', ''chat_id'')]" by code_simp+
  have "route env (None, None) (?req t) ?u = respond env (on_create_message env (rq_headers (?req t)) (Some ''chat_id'') t)"
    unfolding route_def Let_def p by (simp add: IM_V1_def json_request_def)
  moreover have "on_create_message env (rq_headers (?req t)) (Some ''chat_id'') t (st_world s) =
      (Inr (reply_ok (mkdict [(''message_id'', PyStr (''om_mock_'' @ me_token env (mf_tokens (st_world s))))])),
       file_sent env (app_key s) chat key inner (st_world s))"
    unfolding on_create_message_def app_of_request
    using t i c by (auto simp: json_body_def new_message_id_def jget_def abind_def token_def require_hashable_def gets_def dget_or_def
        record_message_def link_upload_def upd_def file_sent_def members_def py_or_def Let_def)
  ultimately show "route env (None, None) (?req t) ?u (st_world s) =
        respond env (on_create_message env (rq_headers (?req t)) (Some ''chat_id'') t) (st_world s) \<and>
      on_create_message env (rq_headers (?req t)) (Some ''chat_id'') t (st_world s) =
      (Inr (reply_ok (mkdict [(''message_id'', PyStr (''om_mock_'' @ me_token env (mf_tokens (st_world s))))])),
       file_sent env (app_key s) chat key inner (st_world s))" by simp
qed (simp_all add: reply_ok_def)


definition send_file_args :: "string \<Rightarrow> string \<Rightarrow> string \<Rightarrow> string \<Rightarrow> py_val" where
  "send_file_args chat name content_b64 sha =
     PyDict (mkdict [(''chat_id'', PyStr chat), (''file_name'', PyStr name), (''content_b64'', PyStr content_b64), (''sha256'', PyStr sha)])"

lemma send_file_wired:
  assumes "wired sv env base s" "valid_b64 t" "b64decode t = Inr bytes"
  shows "on_directive sv (PyStr ''send_file'') (send_file_args chat name t (me_sha256 env bytes)) s =
    send_file_mock sv base (PyStr chat) (PyStr name) bytes s"
proof -
  have "sv_sha256 sv = me_sha256 env" using assms(1) by (simp add: wired_def)
  with local_base_wired [OF assms(1)] assms(2,3) show ?thesis
    by (simp add: on_directive_def send_file_def send_file_args_def arg_def py_index_def abind_def b64decode_strict_def)
qed

text \<open>The content of a pushed medium.\<close>

definition media_doc :: "string \<Rightarrow> string \<Rightarrow> py_val \<Rightarrow> py_kvs" where
  "media_doc mt key fname =
     (if mt = ''image'' then mkdict ([(''image_key'', PyStr key)] @ (if py_truthy fname then [(''file_name'', fname)] else []))
      else if mt = ''file'' then mkdict [(''file_key'', PyStr key), (''file_name'', py_or fname (PyStr ''unknown''))]
      else mkdict [(''file_key'', PyStr key), (''duration'', PyInt 0)])"

lemma abind_token: "abind (token env) f s = f (me_token env (mf_tokens s)) (s\<lparr>mf_tokens := Suc (mf_tokens s)\<rparr>)"
  by (simp add: abind_def token_def)

lemma push_media_effect:
  assumes j: "json_faithful (me_loads env) (me_dumps env)" and m: "mt \<in> set [''image'', ''file'', ''audio'']" and p: "plain_doc fname"
    and mid: "mid = ''om_mock_'' @ me_token env (mf_tokens w)" and key: "key = ''file_mock_'' @ me_token env (Suc (mf_tokens w))"
  shows "\<exists>c data ev us un w'. me_loads env c = Inr (PyDict (media_doc mt key fname)) \<and>
    me_loads env data = Inr (PyDict (inbound_envelope mid ev us un (me_now env) (PyStr app) (PyStr chat) (PyStr user) (PyStr mt) c)) \<and>
    push_inbound env (PyStr chat) (PyStr user) (PyStr mt) ct (Some bytes) fname (PyStr app) w = (Inr mid, w') \<and>
    mf_inbound_resources w' = dset (mid, key) bytes (mf_inbound_resources w) \<and>
    mf_outbox w' = mf_outbox w @ map (\<lambda>ws. (wc_id ws, data)) (open_clients (PyStr app) w)"
proof -
  have "plain_doc (PyDict (media_doc mt key fname))" using p by (auto simp: media_doc_def py_or_def)
  then obtain c where c: "me_dumps env (PyDict (media_doc mt key fname)) = Inr c" "me_loads env c = Inr (PyDict (media_doc mt key fname))"
    using j unfolding json_faithful_def by blast
  let ?w1 = "w\<lparr>mf_tokens := Suc (Suc (mf_tokens w)), mf_inbound_resources := dset (mid, key) bytes (mf_inbound_resources w)\<rparr>"
  have content: "inbound_content env mid (PyStr mt) ct (Some bytes) fname (w\<lparr>mf_tokens := Suc (mf_tokens w)\<rparr>) = (Inr c, ?w1)"
  proof -
    have k: "keep_resource env mid (Some bytes) kind (w\<lparr>mf_tokens := Suc (mf_tokens w)\<rparr>) = (Inr key, ?w1)" for kind
      using key by (simp add: keep_resource_def abind_token Let_def)
    consider "mt = ''image''" | "mt = ''file''" | "mt = ''audio''" using m by auto
    then show ?thesis
      using c(1) by cases (simp_all add: inbound_content_def media_doc_def abind_def k)
  qed
  define ev us un where "ev = me_token env (Suc (Suc (mf_tokens w)))" and "us = me_token env (Suc (Suc (Suc (mf_tokens w))))"
    and "un = me_token env (Suc (Suc (Suc (Suc (mf_tokens w)))))"
  define doc where "doc = PyDict (inbound_envelope mid ev us un (me_now env) (PyStr app) (PyStr chat) (PyStr user) (PyStr mt) c)"
  have "plain_doc doc" by (simp add: doc_def inbound_envelope_def)
  then obtain data where data: "me_dumps env doc = Inr data" "me_loads env data = Inr doc"
    using j unfolding json_faithful_def by blast
  have oc: "open_clients (PyStr app) (w\<lparr>mf_inbound_resources := x, mf_tokens := i\<rparr>) = open_clients (PyStr app) w" for i x
    by (simp add: open_clients_def)
  have "push_inbound env (PyStr chat) (PyStr user) (PyStr mt) ct (Some bytes) fname (PyStr app) w =
      (Inr mid, ?w1\<lparr>mf_tokens := Suc (Suc (Suc (Suc (Suc (mf_tokens w))))), mf_outbox := mf_outbox w @ map (\<lambda>ws. (wc_id ws, data)) (open_clients (PyStr app) w)\<rparr>)"
    unfolding push_inbound_def
    using content data(1) mid
    by (simp add: new_message_id_def abind_token abind_def [of "inbound_content _ _ _ _ _ _"] ev_def us_def un_def doc_def
        require_hashable_def oc)
  with c data show ?thesis unfolding doc_def by fastforce
qed

lemma build_envelope_ok:
  assumes "app_id f = Inr (PyStr a)" "dget ''chat_id'' args = Some (PyStr c)"
  shows "\<exists>envl. build_msg_received_envelope f args sender = Inr envl \<and> dget ''args'' envl = Some (PyDict args)"
  using assms by (cases c) (simp_all add: build_msg_received_envelope_def dget_or_def py_or_def)

lemma mock_event_inbound:
  assumes c: "json_loads c = Inr (PyDict (media_doc mt key fname))" and m: "mt \<in> set [''image'', ''file'', ''audio'']" and a: "app_id f = Inr (PyStr a)"
    and key: "key \<noteq> []"
  shows "\<exists>envl args. mock_event json_loads f (PyDict (inbound_envelope mid ev us un now (PyStr app) (PyStr chat) (PyStr user) (PyStr mt) c)) = Inr envl \<and>
    dget ''args'' envl = Some (PyDict args) \<and> dget ''message_id'' args = Some (PyStr mid) \<and> dget ''chat_id'' args = Some (PyStr chat) \<and>
    dget ''msg_type'' args = Some (PyStr mt) \<and> dget ''sender_id'' args = Some (PyStr user) \<and> dget ''file_key'' args = Some (PyStr key)"
proof -
  define A where "A = msg_args (fa_actor_id f) (PyStr chat) (PyStr mid) (extract_text json_loads (PyStr c) (PyStr mt)) (PyStr c) (PyStr mt)
    (PyStr user) (PyStr ''user'') (PyStr []) (PyStr [])"
  have e: "py_or (PyStr t) (PyStr []) = PyStr t" for t by (simp add: py_or_def)
  have 1: "mock_event json_loads f (PyDict (inbound_envelope mid ev us un now (PyStr app) (PyStr chat) (PyStr user) (PyStr mt) c)) =
      rbind (mock_file_args json_loads (PyStr mt) (PyStr c) A) (\<lambda>args. build_msg_received_envelope f args (PyStr user))"
    by (simp add: mock_event_def inbound_envelope_def dget_or_def or_dict_def e A_def Let_def)
  obtain name where 2: "mock_file_args json_loads (PyStr mt) (PyStr c) A =
      Inr (dset (PyStr ''file_name'') name (dset (PyStr ''file_key'') (PyStr key) A))"
  proof -
    consider "mt = ''image''" | "mt = ''file''" | "mt = ''audio''" using m by auto
    then show ?thesis using that c key
      by cases (simp_all add: mock_file_args_def media_doc_def dget_or_def Let_def)
  qed
  let ?A = "dset (PyStr ''file_name'') name (dset (PyStr ''file_key'') (PyStr key) A)"
  have A: "dget ''chat_id'' ?A = Some (PyStr chat)" "dget ''message_id'' ?A = Some (PyStr mid)" "dget ''msg_type'' ?A = Some (PyStr mt)"
    "dget ''sender_id'' ?A = Some (PyStr user)" "dget ''file_key'' ?A = Some (PyStr key)" by (simp_all add: A_def msg_args_def)
  obtain envl where "build_msg_received_envelope f ?A (PyStr user) = Inr envl" "dget ''args'' envl = Some (PyDict ?A)"
    using build_envelope_ok [OF a A(1)] by blast
  with A show ?thesis unfolding 1 2 rbind_simps by blast
qed

lemma url_path_resources:
  assumes "CHR ''/'' \<notin> set mid" "CHR ''?'' \<notin> set mid" "CHR ''/'' \<notin> set key" "CHR ''?'' \<notin> set key"
  shows "url_path (''/open-apis/im/v1/messages/'' @ mid @ ''/resources/'' @ key) =
    [''open-apis'', ''im'', ''v1'', ''messages'', mid, ''resources'', key]"
  using split_on_append [OF assms(1), of "''resources/'' @ key"] split_on_absent [OF assms(3)] assms(2,4)
  by (simp add: url_path_def before_absent)

lemma download_resource:
  assumes w: "wired sv env base s" and b: "rstrip_char CHR ''/'' base = base"
    and m: "CHR ''/'' \<notin> set mid" "CHR ''?'' \<notin> set mid" "CHR ''/'' \<notin> set key" "CHR ''?'' \<notin> set key" "mid \<noteq> []" "key \<noteq> []"
    and r: "map_of (mf_inbound_resources (st_world s)) (mid, key) = Some bytes"
  shows "download_via_http sv base (PyStr mid) (PyStr key) s = (Inr (Some bytes), s)"
proof -
  let ?u = "''/open-apis/im/v1/messages/'' @ mid @ ''/resources/'' @ key"
  let ?req = "\<lparr>rq_method = ''GET'', rq_url = base @ ?u, rq_headers = [], rq_body = []\<rparr>"
  have "route env (None, None) ?req ?u = gets (on_get_message_resource mid key)"
    unfolding route_def Let_def url_path_resources [OF m(1-4)] using m(5,6) by (simp add: IM_V1_def)
  then have "serve env base ?req (st_world s) = (HttpBody bytes, st_world s)"
    using r by (simp add: serve_def gets_def on_get_message_resource_def)
  with w b show ?thesis
    by (simp add: download_via_http_def http_call_def abind_def wired_def)
qed


section \<open>Properties\<close>

text \<open>
  Reactions made and removed through the adapter: after \<open>react\<close> on a message the server has one more reaction of this app,
  on this message and with this emoji, and after \<open>un_react\<close> it has none of this app on the message while those on
  other messages are as before; both directives are acknowledged, and the server has logged one removal
  for each reaction it removed.
\<close>

theorem react_then_un_react:
  assumes "wired sv env base s" "CHR ''/'' \<notin> set mid" "CHR ''?'' \<notin> set mid" "mid \<noteq> []"
    "on_directive sv (PyStr ''react'') (react_args mid e) s = (r1, s1)"
    "on_directive sv (PyStr ''un_react'') (react_args mid e) s1 = (r2, s2)"
  shows "(\<exists>a1 a2. r1 = Inr a1 \<and> r2 = Inr a2 \<and> dget ''ok'' a1 = Some (PyBool True) \<and> dget ''ok'' a2 = Some (PyBool True)) \<and>
    bucket (app_key s) (mf_reactions (st_world s1)) =
      bucket (app_key s) (mf_reactions (st_world s)) @ [reaction_entry mid (PyStr e) (me_now env) (app_key s)] \<and>
    bucket (app_key s) (mf_reactions (st_world s2)) =
      filter (\<lambda>x. \<not> on_message mid x) (bucket (app_key s) (mf_reactions (st_world s))) \<and>
    length (bucket (app_key s) (mf_un_reactions (st_world s2))) = length (bucket (app_key s) (mf_un_reactions (st_world s))) +
      length (filter (on_message mid) (bucket (app_key s) (mf_reactions (st_world s1))))"
proof -
  obtain a1 i where 1: "r1 = Inr a1" "dget ''ok'' a1 = Some (PyBool True)" "s1 = s\<lparr>st_world := (st_world s)\<lparr>mf_tokens := i,
    mf_reactions := bucket_append (app_key s) (reaction_entry mid (PyStr e) (me_now env) (app_key s)) (mf_reactions (st_world s))\<rparr>\<rparr>"
    using react_mock_effect [OF assms(1-4), of e] assms(5) react_directives(1) [OF assms(1), of mid e] by auto
  have w1: "wired sv env base s1" and k: "app_key s1 = app_key s" using assms(1) by (simp_all add: 1 wired_def app_key_def)
  have on: "on_message mid (reaction_entry mid (PyStr e) (me_now env) (app_key s))" by (simp add: on_message_def reaction_entry_def dget_or_def)
  obtain a2 where 2: "r2 = Inr a2" "dget ''ok'' a2 = Some (PyBool True)" "s2 = s1\<lparr>st_world := (st_world s1)\<lparr>
      mf_reactions := dset (app_key s) (filter (\<lambda>x. \<not> on_message mid x) (bucket (app_key s) (mf_reactions (st_world s1)))) (mf_reactions (st_world s1)),
      mf_un_reactions := dset (app_key s) (bucket (app_key s) (mf_un_reactions (st_world s1)) @
        removal_entries env (app_key s) mid e (bucket (app_key s) (mf_reactions (st_world s1)))) (mf_un_reactions (st_world s1))\<rparr>\<rparr>"
    using un_react_mock_effect [OF w1 assms(2-4), of e] assms(6) react_directives(2) [OF w1, of mid e] by (auto simp: k)
  have self: "bucket q (dset q es d) = es" for q and es :: "py_kvs list" and d by (simp add: bucket_def)
  have b1: "bucket (app_key s) (mf_reactions (st_world s1)) =
      bucket (app_key s) (mf_reactions (st_world s)) @ [reaction_entry mid (PyStr e) (me_now env) (app_key s)]" by (simp add: 1)
  moreover have "bucket (app_key s) (mf_reactions (st_world s2)) =
      filter (\<lambda>x. \<not> on_message mid x) (bucket (app_key s) (mf_reactions (st_world s)))"
    by (simp add: 2(3) self b1 on)
  moreover have "bucket (app_key s) (mf_un_reactions (st_world s2)) = bucket (app_key s) (mf_un_reactions (st_world s)) @
      removal_entries env (app_key s) mid e (bucket (app_key s) (mf_reactions (st_world s1)))"
    by (simp add: 2(3) self) (simp add: 1)
  moreover have "length (removal_entries env (app_key s) mid e (bucket (app_key s) (mf_reactions (st_world s1)))) =
      length (filter (on_message mid) (bucket (app_key s) (mf_reactions (st_world s1))))"
    by (simp add: removal_entries_def b1 on)
  ultimately show ?thesis using 1(1,2) 2(1,2) by simp
qed

text \<open>An adapter connected to the server of the examples.\<close>

definition demo_base :: string where
  "demo_base = ''http://127.0.0.1:8101''"

definition demo_wired :: "mock services" where
  "demo_wired =
     \<lparr>sv_lark = (\<lambda>_ w. (Inl (Exc ''RuntimeError'' ''offline''), w)), sv_http = serve demo_mock_env demo_base,
      sv_dumps = me_dumps demo_mock_env, sv_loads = me_loads demo_mock_env, sv_sha256 = demo_sha, sv_b64_error = (\<lambda>_. ''bad''),
      sv_environ = demo_env, sv_now = ''t'', sv_pid = 1, sv_ident = 2, sv_tmp = ''/tmp/x''\<rparr>"

definition demo_state :: "mock fstate" where
  "demo_state = \<lparr>st_adapter = st_adapter demo_feishu, st_files = [], st_sleeps = [], st_world = demo_mock\<rparr>"

lemma demo_is_wired: "wired demo_wired demo_mock_env demo_base demo_state"
proof -
  have "json_faithful (me_loads demo_mock_env) (me_dumps demo_mock_env)"
    by (simp add: json_faithful_def demo_mock_env_def) (simp add: encode_val_def)
  then show ?thesis
    by (simp add: wired_def demo_wired_def demo_mock_env_def demo_state_def demo_feishu_def demo_config_def demo_base_def cfg_or_def
        config_getattr_def is_local_def)
qed

lemma demo_app: "app_key demo_state = PyStr ''feishu_1''"
  by (simp add: app_key_def demo_state_def demo_feishu_def)

theorem react_then_un_react_witness:
  "bucket (PyStr ''feishu_1'') (mf_reactions (st_world (snd (on_directive demo_wired (PyStr ''un_react'') (react_args ''om_1'' ''TYPING'')
     (snd (on_directive demo_wired (PyStr ''react'') (react_args ''om_1'' ''TYPING'') demo_state)))))) =
   filter (\<lambda>x. \<not> on_message ''om_1'' x) (bucket (PyStr ''feishu_1'') (mf_reactions demo_mock))"
proof -
  have w: "st_world demo_state = demo_mock" by (simp add: demo_state_def)
  have "CHR ''/'' \<notin> set ''om_1''" "CHR ''?'' \<notin> set ''om_1''" "''om_1'' \<noteq> []" by simp_all
  from react_then_un_react [OF demo_is_wired this prod.collapse [symmetric] prod.collapse [symmetric], of "''TYPING''"]
  show ?thesis unfolding demo_app w by blast
qed

text \<open>
  C6. A file sent through the adapter arrives: if the announced hash is that of the decoded content, the app is a member of
  the chat and the token drawn for the key is new, the directive is acknowledged, the server holds exactly
  the decoded bytes under a new key, and it has recorded one upload with that key, the name and the
  hash, linked to the chat, and one file message of the app to the chat.
\<close>

theorem file_reaches_chat:
  assumes w: "wired sv env base s" and b: "valid_b64 t" "b64decode t = Inr bytes"
    and f: "mf_files_dir (st_world s) = Some files"
    and key: "key = ''file_mock_'' @ me_token env (mf_tokens (st_world s))"
    and fresh: "PyStr key \<notin> set (map (dget_or ''file_key'' PyNone) (mf_uploaded_files (st_world s)))"
    and c: "chat \<noteq> []" "app_key s = PyStr ''default'' \<or> PyStr chat \<in> members (app_key s) (st_world s)"
    and d: "on_directive sv (PyStr ''send_file'') (send_file_args chat name t (me_sha256 env bytes)) s = (r, s')"
  shows "\<exists>ack entry record. r = Inr ack \<and> dget ''ok'' ack = Some (PyBool True) \<and>
    mf_files_dir (st_world s') = Some (dset key bytes files) \<and>
    mf_uploaded_files (st_world s') = mf_uploaded_files (st_world s) @ [entry] \<and>
    dget ''chat_id'' entry = Some (PyStr chat) \<and> dget ''file_name'' entry = Some (PyStr name) \<and>
    dget ''file_key'' entry = Some (PyStr key) \<and> dget ''sha256'' entry = Some (PyStr (me_sha256 env bytes)) \<and>
    bucket (app_key s) (mf_sent_messages (st_world s')) = bucket (app_key s) (mf_sent_messages (st_world s)) @ [record] \<and>
    dget ''receive_id'' record = Some (PyStr chat) \<and> dget ''msg_type'' record = Some (PyStr ''file'')"
proof -
  let ?w1 = "uploaded env name bytes files (st_world s)"
  let ?s1 = "s\<lparr>st_world := ?w1\<rparr>"
  let ?e = "upload_entry env key (PyStr name) bytes"
  obtain u where u: "me_loads env u = Inr (reply_ok (mkdict [(''file_key'', PyStr key)]))" and up:
    "json_call sv ''POST'' (base @ ''/open-apis/im/v1/files'')
      (mkdict [(''file_type'', PyStr ''stream''), (''file_name'', PyStr name), (''content_b64'', PyStr (b64encode bytes))]) s = (Inr (HttpBody u), ?s1)"
    using upload_answered [OF w f, of name bytes] key by blast
  have w1: "wired sv env base ?s1" by (rule wired_world [OF w])
  obtain inner where inner: "me_dumps env (PyDict (mkdict [(''file_key'', PyStr key)])) = Inr inner" "inner \<noteq> []"
    "me_loads env inner = Inr (PyDict (mkdict [(''file_key'', PyStr key)]))"
  proof -
    have "plain_doc (PyDict (mkdict [(''file_key'', PyStr key)]))" by simp
    with w that show ?thesis unfolding wired_def json_faithful_def by blast
  qed
  have c1: "app_key ?s1 = PyStr ''default'' \<or> PyStr chat \<in> members (app_key ?s1) (st_world ?s1)"
    using c(2) by (simp add: app_key_def uploaded_def members_def Let_def)
  note sent = file_message_sent [OF w1 inner(3,2) c(1) c1, of "''mock send-file-message failed: ''" "mkdict [(''file_key'', PyStr key)]"]
  have link: "link_file (PyStr key) (PyStr chat) (mf_uploaded_files (st_world s) @ [?e]) =
      mf_uploaded_files (st_world s) @ [dset (PyStr ''chat_id'') (PyStr chat) ?e]"
    by (rule link_file_new) (use fresh in \<open>auto simp: upload_entry_def dget_or_def image_iff split: option.splits\<close>)
  have truthy: "py_truthy (PyStr key)" by (simp add: key)
  have loads: "sv_loads sv = me_loads env" "sv_dumps sv = me_dumps env" using w by (simp_all add: wired_def)
  have "send_file_mock sv base (PyStr chat) (PyStr name) bytes s =
      abind (json_call sv ''POST'' (base @ ''/open-apis/im/v1/messages?receive_id_type=chat_id'')
        (mkdict [(''receive_id'', PyStr chat), (''msg_type'', PyStr ''file''), (''content'', PyStr inner)]))
        (reply_data sv ''mock send-file-message failed: '' (mkdict [(''file_key'', PyStr key)])) ?s1"
    unfolding send_file_mock_def abind_def [of "json_call sv ''POST'' (base @ ''/open-apis/im/v1/files'') _"] up
    using truthy inner(1) by (simp add: loads u reply_ok_def dget_or_def)
  with d send_file_wired [OF w b] sent
  have "r = Inr (mkdict [(''ok'', PyBool True), (''result'', py_or
       (PyDict (mkdict [(''message_id'', PyStr (''om_mock_'' @ me_token env (mf_tokens ?w1)))])) (PyDict (mkdict [(''file_key'', PyStr key)])))])"
    and s': "st_world s' = file_sent env (app_key s) chat key inner ?w1"
    by (simp_all add: app_key_def)
  moreover have "mf_files_dir (st_world s') = Some (dset key bytes files)"
    "mf_uploaded_files (st_world s') = mf_uploaded_files (st_world s) @ [dset (PyStr ''chat_id'') (PyStr chat) ?e]"
    using link key by (simp_all add: s' file_sent_def uploaded_def Let_def)
  moreover have "\<exists>record. bucket (app_key s) (mf_sent_messages (st_world s')) = bucket (app_key s) (mf_sent_messages (st_world s)) @ [record] \<and>
      dget ''receive_id'' record = Some (PyStr chat) \<and> dget ''msg_type'' record = Some (PyStr ''file'')"
    by (simp add: s' file_sent_def uploaded_def Let_def sent_record_def)
  ultimately show ?thesis
    by (simp add: upload_entry_def)
qed

theorem file_reaches_chat_witness:
  "\<exists>ack s'. on_directive demo_wired (PyStr ''send_file'') (send_file_args ''oc_1'' ''a.txt'' ''QQ=='' (demo_sha ''A'')) demo_state = (Inr ack, s') \<and>
     dget ''ok'' ack = Some (PyBool True) \<and> mf_files_dir (st_world s') = Some [(''file_mock_'', ''A'')]"
proof -
  have w: "st_world demo_state = demo_mock" "me_sha256 demo_mock_env = demo_sha" by (simp_all add: demo_state_def demo_mock_env_def)
  have m: "mf_files_dir demo_mock = Some []" "mf_uploaded_files demo_mock = []" "mf_tokens demo_mock = 0"
    "members (PyStr ''feishu_1'') demo_mock = {PyStr ''oc_1''}" "me_token demo_mock_env 0 = []"
    by (simp_all add: demo_mock_def start_def mock_init_def register_chat_membership_def members_def demo_mock_env_def)
  obtain r s' where d: "on_directive demo_wired (PyStr ''send_file'') (send_file_args ''oc_1'' ''a.txt'' ''QQ=='' (demo_sha ''A'')) demo_state = (r, s')"
    by fastforce
  have "valid_b64 ''QQ==''" "b64decode ''QQ=='' = Inr ''A''" by code_simp+
  from file_reaches_chat [OF demo_is_wired this _ refl _ _ _ d [folded w(2)]] d show ?thesis
    unfolding w(1) demo_app m by auto
qed

text \<open>
  C5. A medium pushed into the server reaches the adapter: an image, file or audio is sent to exactly the open subscribers of
  the app, the frame is relayed by the adapter as one event with the ids, the type and the sender of the
  message and a file key, and downloading that key for that message returns the pushed bytes.
\<close>

theorem inbound_media_reaches_adapter:
  assumes "wired sv env base s" "rstrip_char CHR ''/'' base = base" "\<And>n. set (me_token env n) \<inter> set ''/?'' = {}"
    "mt \<in> set [''image'', ''file'', ''audio'']" "plain_doc fname" "app_id (st_adapter s) = Inr (PyStr a)"
    "push_inbound env (PyStr chat) (PyStr user) (PyStr mt) ct (Some bytes) fname (PyStr app) (st_world s) = (r, w')"
  shows "\<exists>mid key data envl args. r = Inr mid \<and>
    mf_outbox w' = mf_outbox (st_world s) @ map (\<lambda>ws. (wc_id ws, data)) (open_clients (PyStr app) (st_world s)) \<and>
    relay_frames (sv_loads sv) (st_adapter s) [WsText data] = ([envl], None) \<and>
    dget ''args'' envl = Some (PyDict args) \<and> dget ''message_id'' args = Some (PyStr mid) \<and> dget ''chat_id'' args = Some (PyStr chat) \<and>
    dget ''msg_type'' args = Some (PyStr mt) \<and> dget ''sender_id'' args = Some (PyStr user) \<and> dget ''file_key'' args = Some (PyStr key) \<and>
    download_via_http sv base (PyStr mid) (PyStr key) (s\<lparr>st_world := w'\<rparr>) = (Inr (Some bytes), s\<lparr>st_world := w'\<rparr>)"
proof -
  define mid where "mid = ''om_mock_'' @ me_token env (mf_tokens (st_world s))"
  define key where "key = ''file_mock_'' @ me_token env (Suc (mf_tokens (st_world s)))"
  have j: "json_faithful (me_loads env) (me_dumps env)" and l: "sv_loads sv = me_loads env" using assms(1) by (simp_all add: wired_def)
  obtain c data ev us un where c: "me_loads env c = Inr (PyDict (media_doc mt key fname))"
    and data: "me_loads env data = Inr (PyDict (inbound_envelope mid ev us un (me_now env) (PyStr app) (PyStr chat) (PyStr user) (PyStr mt) c))"
    and r: "r = Inr mid" and res: "mf_inbound_resources w' = dset (mid, key) bytes (mf_inbound_resources (st_world s))"
    and out: "mf_outbox w' = mf_outbox (st_world s) @ map (\<lambda>ws. (wc_id ws, data)) (open_clients (PyStr app) (st_world s))"
    using push_media_effect [OF j assms(4,5) mid_def key_def, of app chat user ct bytes] assms(7) by auto
  have "key \<noteq> []" "mid \<noteq> []" by (simp_all add: key_def mid_def)
  moreover have "CHR ''/'' \<notin> set mid" "CHR ''?'' \<notin> set mid" "CHR ''/'' \<notin> set key" "CHR ''?'' \<notin> set key"
    using assms(3) by (auto simp: mid_def key_def)
  moreover have "map_of (mf_inbound_resources (st_world (s\<lparr>st_world := w'\<rparr>))) (mid, key) = Some bytes" by (simp add: res)
  ultimately have d: "download_via_http sv base (PyStr mid) (PyStr key) (s\<lparr>st_world := w'\<rparr>) = (Inr (Some bytes), s\<lparr>st_world := w'\<rparr>)"
    by (intro download_resource [OF wired_world [OF assms(1)] assms(2)])
  obtain envl args where e: "mock_event (me_loads env) (st_adapter s)
      (PyDict (inbound_envelope mid ev us un (me_now env) (PyStr app) (PyStr chat) (PyStr user) (PyStr mt) c)) = Inr envl"
    and args: "dget ''args'' envl = Some (PyDict args)" "dget ''message_id'' args = Some (PyStr mid)" "dget ''chat_id'' args = Some (PyStr chat)"
    "dget ''msg_type'' args = Some (PyStr mt)" "dget ''sender_id'' args = Some (PyStr user)" "dget ''file_key'' args = Some (PyStr key)"
    using mock_event_inbound [where json_loads = "me_loads env", OF c assms(4,6) \<open>key \<noteq> []\<close>] by blast
  have "relay_frames (sv_loads sv) (st_adapter s) [WsText data] = ([envl], None)" by (simp add: l data e)
  with r out args d show ?thesis by blast
qed

theorem inbound_media_reaches_adapter_witness:
  "\<exists>mid key data envl args w'. push_inbound demo_mock_env (PyStr ''oc_1'') (PyStr ''ou_1'') (PyStr ''image'') PyNone (Some ''pixels'') PyNone
       (PyStr ''feishu_1'') demo_mock = (Inr mid, w') \<and>
     relay_frames (me_loads demo_mock_env) (st_adapter demo_feishu) [WsText data] = ([envl], None) \<and>
     dget ''args'' envl = Some (PyDict args) \<and> dget ''file_key'' args = Some (PyStr key) \<and>
     fst (download_via_http demo_wired demo_base (PyStr mid) (PyStr key) (demo_state\<lparr>st_world := w'\<rparr>)) = Inr (Some ''pixels'')"
proof -
  have w: "st_world demo_state = demo_mock" "sv_loads demo_wired = me_loads demo_mock_env" "st_adapter demo_state = st_adapter demo_feishu"
    by (simp_all add: demo_state_def demo_wired_def)
  have b: "rstrip_char CHR ''/'' demo_base = demo_base" by code_simp
  have t: "set (me_token demo_mock_env n) \<inter> set ''/?'' = {}" for n by (auto simp: demo_mock_env_def)
  have a: "app_id (st_adapter demo_state) = Inr (PyStr ''cli_1'')"
    by (simp add: w app_id_def demo_feishu_def demo_config_def config_getattr_def)
  obtain r w' where p: "push_inbound demo_mock_env (PyStr ''oc_1'') (PyStr ''ou_1'') (PyStr ''image'') PyNone (Some ''pixels'') PyNone
      (PyStr ''feishu_1'') (st_world demo_state) = (r, w')" by fastforce
  have "''image'' \<in> set [''image'', ''file'', ''audio'']" "plain_doc PyNone" by simp_all
  from inbound_media_reaches_adapter [OF demo_is_wired b t this a p] obtain mid key data envl args where
    x: "r = Inr mid" "relay_frames (me_loads demo_mock_env) (st_adapter demo_feishu) [WsText data] = ([envl], None)"
      "dget ''args'' envl = Some (PyDict args)" "dget ''file_key'' args = Some (PyStr key)"
    and d: "download_via_http demo_wired demo_base (PyStr mid) (PyStr key) (demo_state\<lparr>st_world := w'\<rparr>) =
      (Inr (Some ''pixels''), demo_state\<lparr>st_world := w'\<rparr>)" unfolding w by blast
  have "fst (download_via_http demo_wired demo_base (PyStr mid) (PyStr key) (demo_state\<lparr>st_world := w'\<rparr>)) = Inr (Some ''pixels'')"
    unfolding d by simp
  with x p [unfolded w(1)] show ?thesis by blast
qed

end
