(* ===== verification/Text_Lines.thy ===== *)
theory Text_Lines
  imports ESR_Prelude
begin

text \<open>
  Texts as lines, for the scripts that read files or the output of commands line by line. Line breaks are those of ASCII.
\<close>

section \<open>Lines\<close>

text \<open>
  \<open>str.splitlines\<close>: the flag says that the character before was a carriage return, whose line feed ends no other line.
\<close>

definition is_linebreak :: "char \<Rightarrow> bool" where
  "is_linebreak c = (let n = of_char c :: nat in (10 \<le> n \<and> n \<le> 13) \<or> (28 \<le> n \<and> n \<le> 30))"

primrec lines_acc :: "bool \<Rightarrow> string \<Rightarrow> string \<Rightarrow> string list" where
  "lines_acc cr acc [] = (if acc = [] then [] else [acc])"
| "lines_acc cr acc (c # s) =
     (if cr \<and> c = CHR 0x0A then lines_acc False acc s
      else if is_linebreak c then acc # lines_acc (c = CHR 0x0D) [] s
      else lines_acc False (acc @ [c]) s)"

definition splitlines :: "string \<Rightarrow> string list" where
  "splitlines s = lines_acc False [] s"

definition complete_lines :: "string \<Rightarrow> bool" where
  "complete_lines s = (s = [] \<or> last s = CHR 0x0A)"

definition one_line :: "string \<Rightarrow> bool" where
  "one_line s = (\<forall>c\<in>set s. \<not> is_linebreak c)"

lemma newline_is_linebreak [simp]: "is_linebreak CHR 0x0A"
  by (simp add: is_linebreak_def)

lemma lines_acc_newline:
  "(cr \<Longrightarrow> acc = []) \<Longrightarrow>
   lines_acc cr acc (t @ CHR 0x0A # u) = lines_acc cr acc (t @ [CHR 0x0A]) @ lines_acc False [] u"
  by (induction t arbitrary: cr acc) auto

lemma lines_acc_one_line: "one_line l \<Longrightarrow> lines_acc False acc (l @ [CHR 0x0A]) = [acc @ l]"
  by (induction l arbitrary: acc) (auto simp: one_line_def)

lemma lines_acc_add:
  "complete_lines t \<Longrightarrow> lines_acc False [] (t @ u) = lines_acc False [] t @ lines_acc False [] u"
  by (cases t rule: rev_cases) (auto simp: complete_lines_def lines_acc_newline [of False "[]" _ u])

lemma splitlines_add_line:
  "complete_lines t \<Longrightarrow> one_line l \<Longrightarrow> splitlines (t @ l @ [CHR 0x0A]) = splitlines t @ [l]"
  by (simp add: splitlines_def lines_acc_add lines_acc_one_line)

lemma linebreak_is_ws: "is_linebreak c \<Longrightarrow> is_ws c"
  by (auto simp: is_linebreak_def is_ws_def Let_def)

text \<open>A cell of a table: its content between two spaces.\<close>

definition pad :: "string \<Rightarrow> string" where
  "pad s = '' '' @ s @ '' ''"

lemma strip_pad: "(\<And>c. c \<in> set s \<Longrightarrow> \<not> is_ws c) \<Longrightarrow> strip (pad s) = s"
  using strip_id [of s] by (cases s rule: rev_cases) (auto simp: strip_def lstrip_ws_def pad_def is_ws_def dropWhile_append)

text \<open>The dash the scripts print, in UTF-8.\<close>

definition em_dash :: string where
  "em_dash = [CHR 0xE2, CHR 0x80, CHR 0x94]"

text \<open>The first element of a list for which a search succeeds.\<close>

fun first_some :: "('a \<Rightarrow> 'b option) \<Rightarrow> 'a list \<Rightarrow> 'b option" where
  "first_some f [] = None"
| "first_some f (x # xs) = (case f x of Some y \<Rightarrow> Some y | None \<Rightarrow> first_some f xs)"

lemma first_some_None: "first_some f xs = None \<longleftrightarrow> (\<forall>x\<in>set xs. f x = None)"
  by (induction xs) (auto split: option.splits)

end
