(* ===== verification/Ledger.thy ===== *)
theory Ledger
  imports Text_Lines "HOL-Library.Sublist"
begin

text \<open>
  \<^verbatim>\<open>scripts/ledger_append.py\<close> and \<^verbatim>\<open>scripts/verify_ledger_append_only.py\<close>: the ledger of evidence, the script that adds
  a row to it and the check that its history in git only ever adds rows.

  The ledger file is its text. What a subprocess prints, SHA-256 and today's date are parameters; an exit with an
  error is the value of \<open>main\<close>, an exception of the interpreter an \<^const>\<open>Inl\<close>.
\<close>

section \<open>Rows\<close>

definition is_row :: "string \<Rightarrow> bool" where
  "is_row ln = startswith ln ''| ''"

definition rows_of :: "string \<Rightarrow> string list" where
  "rows_of body = filter is_row (splitlines body)"


section \<open>Appending a row\<close>

definition EVIDENCE_COMMANDS :: "(string \<times> string list) list" where
  "EVIDENCE_COMMANDS =
    [(''unit_tests'', [''make'', ''test'']),
     (''prd_matrix'', [''uv'', ''run'', ''python'', ''scripts/verify_prd_matrix.py'']),
     (''loopguard'', [''bash'', ''scripts/loopguard.sh'']),
     (''scenario_mock'', [''esr'', ''scenario'', ''run'', ''e2e-feishu-cc'']),
     (''final_gate_mock'', [''bash'', ''scripts/final_gate.sh'', ''--mock'']),
     (''prd_acceptance'', [''uv'', ''run'', ''python'', ''scripts/verify_prd_acceptance.py'',
                          ''--manifest'', ''docs/superpowers/prds/acceptance-manifest.yaml'']),
     (''ledger_check'', [''uv'', ''run'', ''python'', ''scripts/verify_ledger_append_only.py''])]"

text \<open>The number in the first column; \<^const>\<open>None\<close> where the line is no row or the column no number.\<close>

definition row_iter :: "string \<Rightarrow> int option" where
  "row_iter ln =
     (if \<not> is_row ln then None
      else (case split_on CHR ''|'' ln of _ # p # _ \<Rightarrow> py_int (strip p) | _ \<Rightarrow> None))"

definition next_iter :: "string \<Rightarrow> int" where
  "next_iter body =
     foldl (\<lambda>n ln. case row_iter ln of Some k \<Rightarrow> max n k | None \<Rightarrow> n) 0 (splitlines body) + 1"

text \<open>What a finished subprocess leaves: return code, standard output and error.\<close>

record proc =
  pr_code :: int
  pr_out :: string
  pr_err :: string

record ledger_env =
  le_run :: "string list \<Rightarrow> proc res"
  le_sha256 :: "string \<Rightarrow> string"
  le_today :: string

record append_args =
  aa_ledger :: string
  aa_phase :: string
  aa_fr :: string
  aa_type :: string
  aa_dry_run :: bool

definition called_process_error :: "string list \<Rightarrow> proc \<Rightarrow> py_exc" where
  "called_process_error cmd r = Exc ''CalledProcessError''
     (''Command '' @ [CHR 0x27] @ py_repr (PyList (map PyStr cmd)) @ [CHR 0x27] @ '' returned non-zero exit status '' @ show_int (pr_code r) @ ''.'')"

definition short_commit :: "ledger_env \<Rightarrow> string res" where
  "short_commit env =
     (let cmd = [''git'', ''rev-parse'', ''--short'', ''HEAD''] in
      case le_run env cmd of
        Inl e \<Rightarrow> Inl e
      | Inr r \<Rightarrow> if pr_code r \<noteq> 0 then Inl (called_process_error cmd r) else Inr (strip (pr_out r)))"

datatype printed = Out string | Err string

definition sha_field :: "ledger_env \<Rightarrow> string \<Rightarrow> string" where
  "sha_field env s = ''sha256:'' @ take 16 (le_sha256 env s)"

text \<open>The evidence: an early exit with what it prints, or the digest and the commit.\<close>

definition evidence ::
  "ledger_env \<Rightarrow> append_args \<Rightarrow> ((int \<times> printed list) + (string \<times> string)) res" where
  "evidence env args =
     (if aa_dry_run args then Inr (Inr (sha_field env (aa_type args), ''0000000''))
      else
        let cmd = the (map_of EVIDENCE_COMMANDS (aa_type args)) in
        case le_run env cmd of
          Inl e \<Rightarrow> Inl e
        | Inr r \<Rightarrow>
            if pr_code r \<noteq> 0 then
              Inr (Inl (1, [Err (''evidence command failed: '' @ join '' '' cmd), Err (pr_out r @ '' '' @ pr_err r)]))
            else rbind (short_commit env) (\<lambda>commit. Inr (Inr (sha_field env (pr_out r), commit))))"

definition ledger_row :: "int \<Rightarrow> string \<Rightarrow> append_args \<Rightarrow> string \<Rightarrow> string \<Rightarrow> string" where
  "ledger_row n date args commit sha =
     ''| '' @ show_int n @ '' | '' @ date @ '' | '' @ aa_phase args @ '' | '' @ aa_fr args @ '' | '' @ commit @ '' | '' @
     aa_type args @ '' | '' @ sha @ '' |''"

text \<open>
  \<open>main\<close> after the arguments are parsed: the exit code, what is printed, and the ledger file afterwards; \<^const>\<open>None\<close>
  is a file that does not exist.
\<close>

definition append_main ::
  "ledger_env \<Rightarrow> append_args \<Rightarrow> string option \<Rightarrow> (int \<times> printed list) res \<times> string option" where
  "append_main env args ledger =
     (if aa_type args \<notin> fst ` set EVIDENCE_COMMANDS then
        (Inr (2, [Err (''bad evidence-type '' @ repr_str (aa_type args) @ ''; enum allows '' @
                       py_repr (PyList (map PyStr (sort (map fst EVIDENCE_COMMANDS)))))]), ledger)
      else
        case evidence env args of
          Inl e \<Rightarrow> (Inl e, ledger)
        | Inr (Inl stop) \<Rightarrow> (Inr stop, ledger)
        | Inr (Inr (sha, commit)) \<Rightarrow>
            (case ledger of
               None \<Rightarrow>
                 (Inl (Exc ''FileNotFoundError'' (''[Errno 2] No such file or directory: '' @ repr_str (aa_ledger args))), ledger)
             | Some body \<Rightarrow>
                 let n = next_iter body in
                 (Inr (0, [Out (''appended iter '' @ show_int n @ '' ('' @ aa_type args @ '')'')]),
                  Some (body @ ledger_row n (le_today env) args commit sha @ [CHR 0x0A]))))"


section \<open>The check of the history\<close>

definition APPROVED_EVIDENCE_TYPES :: "string list" where
  "APPROVED_EVIDENCE_TYPES =
    [''unit_tests'', ''prd_matrix'', ''loopguard'', ''scenario_mock'',
     ''final_gate_mock'', ''prd_acceptance'', ''ledger_check'']"

text \<open>\<open>git\<close> stands for \<open>_git(repo, ...)\<close>: the output of the command, or the exception it raises.\<close>

type_synonym git = "string list \<Rightarrow> string res"

definition commit_name :: "string \<Rightarrow> string" where
  "commit_name sha = ''commit '' @ take 7 sha @ '': ''"

definition length_violations :: "string \<Rightarrow> string list \<Rightarrow> string list \<Rightarrow> string list" where
  "length_violations sha prev_rows rows =
     (if length rows < length prev_rows
      then [commit_name sha @ ''row count decreased ('' @ show_int (int (length prev_rows)) @ '' -> '' @
            show_int (int (length rows)) @ ''); removed/deletion'']
      else [])"

definition edit_violations :: "string \<Rightarrow> string list \<Rightarrow> string list \<Rightarrow> string list" where
  "edit_violations sha prev_rows rows =
     map (\<lambda>(i, _). commit_name sha @ ''row '' @ show_int (int i) @ '' edited in-place'')
       (filter (\<lambda>(i, old, new). old \<noteq> new) (zip [0..<length prev_rows] (zip prev_rows rows)))"

text \<open>The type of a row that has to be approved: rows of fewer columns and the rows of the table's head have none.\<close>

definition evidence_column :: "string \<Rightarrow> string option" where
  "evidence_column r =
     (let parts = map strip (split_on CHR ''|'' (rstrip_char CHR ''|'' (lstrip_char CHR ''|'' r))) in
      if length parts < 7 then None
      else let ev_type = parts ! 5 in
        if startswith ev_type ''---'' \<or> ev_type = ''evidence-type'' then None else Some ev_type)"

definition type_violations :: "string \<Rightarrow> string list \<Rightarrow> string list" where
  "type_violations sha new_rows =
     concat (map (\<lambda>r. case evidence_column r of
                 None \<Rightarrow> []
               | Some ev_type \<Rightarrow>
                   if ev_type \<notin> set APPROVED_EVIDENCE_TYPES
                   then [commit_name sha @ ''bad evidence-type '' @ repr_str ev_type] else []) new_rows)"

definition row_violations :: "string \<Rightarrow> string list \<Rightarrow> string list \<Rightarrow> string list" where
  "row_violations sha prev_rows rows =
     (if prev_rows \<noteq> [] then length_violations sha prev_rows rows @ edit_violations sha prev_rows rows else []) @
     type_violations sha (drop (length prev_rows) rows)"

primrec check_log :: "git \<Rightarrow> string \<Rightarrow> string list \<Rightarrow> string list \<Rightarrow> string list res" where
  "check_log git ledger_rel [] prev_rows = Inr []"
| "check_log git ledger_rel (sha # log) prev_rows =
     (case git [''show'', sha @ '':'' @ ledger_rel] of
        Inl e \<Rightarrow> if exc_type e = ''CalledProcessError'' then check_log git ledger_rel log prev_rows else Inl e
      | Inr body \<Rightarrow>
          rbind (check_log git ledger_rel log (rows_of body)) (\<lambda>vs.
            Inr (row_violations sha prev_rows (rows_of body) @ vs)))"

definition check :: "git \<Rightarrow> string \<Rightarrow> string list res" where
  "check git ledger_rel =
     rbind (git [''log'', ''--pretty=format:%H'', ''--reverse'', ''--'', ledger_rel]) (\<lambda>out.
       check_log git ledger_rel (splitlines out) [])"

definition check_main :: "git \<Rightarrow> string \<Rightarrow> (int \<times> string list) res" where
  "check_main git ledger_rel =
     rbind (check git ledger_rel) (\<lambda>v.
       if v \<noteq> [] then Inr (1, ''LG-7 FAIL:'' # map (\<lambda>x. ''  '' @ x) v)
       else
         rbind (case git [''log'', ''--oneline'', ''--'', ledger_rel] of
                  Inl e \<Rightarrow> if exc_type e = ''CalledProcessError'' then Inr 0 else Inl e
                | Inr out \<Rightarrow> Inr (length (splitlines out))) (\<lambda>n.
           Inr (0, [''ledger integrity OK '' @ em_dash @ '' '' @ show_int (int n) @
                    '' commits, 0 in-place edits''])))"


section \<open>What the check accepts\<close>

definition row_approved :: "string \<Rightarrow> bool" where
  "row_approved r = (case evidence_column r of None \<Rightarrow> True | Some t \<Rightarrow> t \<in> set APPROVED_EVIDENCE_TYPES)"

lemma type_violations_Nil: "type_violations sha rows = [] \<longleftrightarrow> (\<forall>r\<in>set rows. row_approved r)"
  by (auto simp: type_violations_def row_approved_def split: option.splits)

lemma edit_violations_Nil:
  "edit_violations sha prev rows = [] \<longleftrightarrow> (\<forall>i. i < length prev \<and> i < length rows \<longrightarrow> prev ! i = rows ! i)"
  by (auto simp: edit_violations_def filter_empty_conv all_set_conv_all_nth)

lemma length_violations_Nil: "length_violations sha prev rows = [] \<longleftrightarrow> length prev \<le> length rows"
  by (simp add: length_violations_def)

lemma prefix_iff_nth: "prefix xs ys \<longleftrightarrow> length xs \<le> length ys \<and> (\<forall>i<length xs. xs ! i = ys ! i)"
  by (auto simp: prefix_def nth_append intro!: exI [of _ "drop (length xs) ys"] nth_equalityI)

lemma row_violations_Nil:
  "row_violations sha prev rows = [] \<longleftrightarrow> prefix prev rows \<and> (\<forall>r\<in>set (drop (length prev) rows). row_approved r)"
  by (auto simp: row_violations_def type_violations_Nil edit_violations_Nil length_violations_Nil prefix_iff_nth)

text \<open>The versions of the ledger that git can show, in the order of the log.\<close>

definition shown :: "git \<Rightarrow> string \<Rightarrow> string list \<Rightarrow> string list" where
  "shown git ledger_rel log =
     concat (map (\<lambda>sha. case git [''show'', sha @ '':'' @ ledger_rel] of Inr body \<Rightarrow> [body] | Inl _ \<Rightarrow> []) log)"

text \<open>Each \<open>git show\<close> prints the file or fails as git fails.\<close>

definition git_answers :: "git \<Rightarrow> string \<Rightarrow> string list \<Rightarrow> bool" where
  "git_answers git ledger_rel log =
     (\<forall>sha\<in>set log. case git [''show'', sha @ '':'' @ ledger_rel] of
        Inl e \<Rightarrow> exc_type e = ''CalledProcessError'' | Inr _ \<Rightarrow> True)"

primrec grows :: "string list \<Rightarrow> string list list \<Rightarrow> bool" where
  "grows prev [] = True"
| "grows prev (rows # rest) =
     (prefix prev rows \<and> (\<forall>r\<in>set (drop (length prev) rows). row_approved r) \<and> grows rows rest)"

lemma check_log_grows:
  "git_answers git ledger_rel log \<Longrightarrow>
   \<exists>v. check_log git ledger_rel log prev = Inr v \<and> (v = [] \<longleftrightarrow> grows prev (map rows_of (shown git ledger_rel log)))"
proof (induction log arbitrary: prev)
  case (Cons sha log)
  have a: "git_answers git ledger_rel log" using Cons.prems by (simp add: git_answers_def)
  show ?case
  proof (cases "git [''show'', sha @ '':'' @ ledger_rel]")
    case (Inl e)
    then show ?thesis using Cons.prems Cons.IH [OF a, of prev] by (simp add: git_answers_def shown_def)
  next
    case (Inr body)
    then show ?thesis using Cons.IH [OF a, of "rows_of body"]
      by (auto simp: shown_def rbind_def row_violations_Nil)
  qed
qed (simp add: shown_def)

lemma prefix_set_drop: "prefix prev rows \<Longrightarrow> set rows = set prev \<union> set (drop (length prev) rows)"
  by (auto simp: prefix_def)

lemma grows_iff:
  "\<forall>r\<in>set prev. row_approved r \<Longrightarrow>
   grows prev rest \<longleftrightarrow> sorted_wrt prefix (prev # rest) \<and> (\<forall>rows\<in>set rest. \<forall>r\<in>set rows. row_approved r)"
proof (induction rest arbitrary: prev)
  case (Cons rows rest)
  show ?case
  proof (cases "prefix prev rows")
    case True
    from prefix_set_drop [OF True] Cons.prems
    have "(\<forall>r\<in>set (drop (length prev) rows). row_approved r) \<longleftrightarrow> (\<forall>r\<in>set rows. row_approved r)" by blast
    with True Cons.IH [of rows] show ?thesis by (auto intro: prefix_order.trans)
  qed simp
qed simp


section \<open>What an append leaves\<close>

definition clean :: "string \<Rightarrow> bool" where
  "clean s = (one_line s \<and> CHR ''|'' \<notin> set s)"

definition row_fields :: "int \<Rightarrow> string \<Rightarrow> append_args \<Rightarrow> string \<Rightarrow> string \<Rightarrow> string list" where
  "row_fields n date args commit sha =
     [show_int n, date, aa_phase args, aa_fr args, commit, aa_type args, sha]"

lemma ledger_row_join:
  "ledger_row n date args commit sha =
   ''|'' @ join ''|'' (map pad (row_fields n date args commit sha)) @ ''|''"
  by (simp add: ledger_row_def row_fields_def pad_def)

lemma strip_bars: "rstrip_char CHR ''|'' (lstrip_char CHR ''|'' (''|'' @ '' '' @ s @ '' '' @ ''|'')) = '' '' @ s @ '' ''"
  by (simp add: rstrip_char_def lstrip_char_def)

lemma show_int_clean: "clean (show_int n)"
  using show_int_no_ws [of _ n] show_int_chars [of "CHR ''|''" n] linebreak_is_ws
  by (auto simp: clean_def one_line_def is_digit_def digit_val_def)

lemma clean_pad: "clean s \<Longrightarrow> CHR ''|'' \<notin> set (pad s)"
  by (simp add: clean_def pad_def)

definition clean_row :: "string \<Rightarrow> append_args \<Rightarrow> string \<Rightarrow> string \<Rightarrow> bool" where
  "clean_row date args commit sha =
     (aa_type args \<in> fst ` set EVIDENCE_COMMANDS \<and>
      clean date \<and> clean (aa_phase args) \<and> clean (aa_fr args) \<and> clean commit \<and> clean sha)"

lemma commands_types:
  assumes "t \<in> fst ` set EVIDENCE_COMMANDS"
  shows "t \<in> set APPROVED_EVIDENCE_TYPES" "clean t" "\<And>c. c \<in> set t \<Longrightarrow> \<not> is_ws c"
  using assms by (auto simp: EVIDENCE_COMMANDS_def APPROVED_EVIDENCE_TYPES_def clean_def one_line_def is_linebreak_def is_ws_def)

lemma row_fields_clean: "clean_row date args commit sha \<Longrightarrow> f \<in> set (row_fields n date args commit sha) \<Longrightarrow> clean f"
  using commands_types(2) [of "aa_type args"] by (auto simp: row_fields_def clean_row_def show_int_clean)

lemma one_line_ledger_row: "clean_row date args commit sha \<Longrightarrow> one_line (ledger_row n date args commit sha)"
  using show_int_clean [of n] commands_types(2) [of "aa_type args"]
  by (auto simp: ledger_row_def clean_row_def clean_def one_line_def is_linebreak_def)

lemma is_row_ledger_row: "is_row (ledger_row n date args commit sha)"
  by (simp add: is_row_def ledger_row_def)

lemma row_iter_ledger_row: "row_iter (ledger_row n date args commit sha) = Some n"
proof -
  have "split_on CHR ''|'' (''|'' @ pad (show_int n) @ ''|'' @ t) = [] # pad (show_int n) # split_on CHR ''|'' t" for t
    using split_on_append [of "CHR ''|''" "[]"] split_on_append [OF clean_pad [OF show_int_clean [of n]]] by simp
  moreover have "ledger_row n date args commit sha = ''|'' @ pad (show_int n) @ ''|'' @
      join ''|'' (map pad [date, aa_phase args, aa_fr args, commit, aa_type args, sha]) @ ''|''"
    by (simp add: ledger_row_def pad_def)
  ultimately have "split_on CHR ''|'' (ledger_row n date args commit sha) = [] # pad (show_int n) #
      split_on CHR ''|'' (join ''|'' (map pad [date, aa_phase args, aa_fr args, commit, aa_type args, sha]) @ ''|'')"
    by (simp only:)
  then show ?thesis by (simp add: row_iter_def is_row_ledger_row strip_pad [OF show_int_no_ws])
qed

lemma row_approved_ledger_row:
  assumes "clean_row date args commit sha"
  shows "row_approved (ledger_row n date args commit sha)"
proof -
  let ?fs = "row_fields n date args commit sha"
  have ty: "aa_type args \<in> fst ` set EVIDENCE_COMMANDS" using assms by (simp add: clean_row_def)
  have "rstrip_char CHR ''|'' (lstrip_char CHR ''|'' (ledger_row n date args commit sha)) = join ''|'' (map pad ?fs)"
    unfolding ledger_row_join by (simp add: row_fields_def pad_def rstrip_char_def lstrip_char_def)
  moreover have "split_on CHR ''|'' (join ''|'' (map pad ?fs)) = map pad ?fs"
    using clean_pad [OF row_fields_clean [OF assms]] by (intro split_on_join) (auto simp: row_fields_def)
  ultimately have "evidence_column (ledger_row n date args commit sha) =
     (let ev_type = strip (pad (aa_type args)) in
      if startswith ev_type ''---'' \<or> ev_type = ''evidence-type'' then None else Some ev_type)"
    by (simp add: evidence_column_def row_fields_def)
  then show ?thesis using commands_types(1) [OF ty]
    by (auto simp: row_approved_def strip_pad [OF commands_types(3) [OF ty]] Let_def)
qed

lemma rows_of_append:
  assumes "complete_lines body" "clean_row date args commit sha"
  shows "rows_of (body @ ledger_row n date args commit sha @ [CHR 0x0A]) = rows_of body @ [ledger_row n date args commit sha]"
  using splitlines_add_line [OF assms(1) one_line_ledger_row [OF assms(2)]]
  by (simp add: rows_of_def is_row_ledger_row)

lemma next_iter_append:
  assumes "complete_lines body" "clean_row date args commit sha"
  shows "next_iter (body @ ledger_row (next_iter body) date args commit sha @ [CHR 0x0A]) = next_iter body + 1"
proof -
  have "splitlines (body @ ledger_row (next_iter body) date args commit sha @ [CHR 0x0A]) =
    splitlines body @ [ledger_row (next_iter body) date args commit sha]"
    by (rule splitlines_add_line [OF assms(1) one_line_ledger_row [OF assms(2)]])
  then show ?thesis
    unfolding next_iter_def [of "body @ _"] by (simp add: row_iter_ledger_row) (simp add: next_iter_def)
qed


section \<open>Histories of appends\<close>

text \<open>
  A run of the script that goes through: a type of the enumeration, an evidence command and git that succeed, and fields
  of one line without a bar.
\<close>

definition evidence_ok :: "ledger_env \<Rightarrow> append_args \<Rightarrow> bool" where
  "evidence_ok env args =
     (case evidence env args of Inr (Inr (sha, commit)) \<Rightarrow> clean_row (le_today env) args commit sha | _ \<Rightarrow> False)"

lemma append_main_ok:
  assumes "evidence_ok env args" "complete_lines body"
  obtains row where "append_main env args (Some body) =
      (Inr (0, [Out (''appended iter '' @ show_int (next_iter body) @ '' ('' @ aa_type args @ '')'')]), Some (body @ row @ [CHR 0x0A]))"
    "rows_of (body @ row @ [CHR 0x0A]) = rows_of body @ [row]" "row_approved row" "row_iter row = Some (next_iter body)"
    "next_iter (body @ row @ [CHR 0x0A]) = next_iter body + 1" "complete_lines (body @ row @ [CHR 0x0A])"
proof -
  from assms(1) obtain sha commit where e: "evidence env args = Inr (Inr (sha, commit))"
    and c: "clean_row (le_today env) args commit sha"
    by (auto simp: evidence_ok_def split: sum.splits prod.splits)
  have ty: "aa_type args \<in> fst ` set EVIDENCE_COMMANDS" using c by (simp add: clean_row_def)
  show ?thesis
    by (rule that [of "ledger_row (next_iter body) (le_today env) args commit sha"])
      (simp_all add: append_main_def ty e Let_def rows_of_append [OF assms(2) c] row_approved_ledger_row [OF c]
        row_iter_ledger_row next_iter_append [OF assms(2) c] complete_lines_def)
qed

text \<open>The versions of the ledger after each of a list of runs, with the exit codes.\<close>

fun append_runs :: "(ledger_env \<times> append_args) list \<Rightarrow> string \<Rightarrow> (int res \<times> string) list" where
  "append_runs [] body = []"
| "append_runs ((env, args) # runs) body =
     (case append_main env args (Some body) of (r, l) \<Rightarrow>
        let body' = (case l of Some b \<Rightarrow> b | None \<Rightarrow> body) in
        (map_sum id fst r, body') # append_runs runs body')"

lemma append_runs_grow:
  assumes "complete_lines body" "\<forall>(env, args)\<in>set runs. evidence_ok env args"
  shows "(\<forall>(r, _)\<in>set (append_runs runs body). r = Inr 0) \<and>
    grows (rows_of body) (map (rows_of \<circ> snd) (append_runs runs body)) \<and>
    next_iter (last (body # map snd (append_runs runs body))) = next_iter body + int (length runs)"
  using assms
proof (induction runs arbitrary: body)
  case (Cons run runs)
  obtain env args where run: "run = (env, args)" by fastforce
  from Cons.prems run have "evidence_ok env args" by simp
  from append_main_ok [OF this Cons.prems(1)] obtain row where m: "append_main env args (Some body) =
      (Inr (0, [Out (''appended iter '' @ show_int (next_iter body) @ '' ('' @ aa_type args @ '')'')]), Some (body @ row @ [CHR 0x0A]))"
    "rows_of (body @ row @ [CHR 0x0A]) = rows_of body @ [row]" "row_approved row"
    "next_iter (body @ row @ [CHR 0x0A]) = next_iter body + 1" "complete_lines (body @ row @ [CHR 0x0A])" by blast
  from Cons.IH [OF m(5)] Cons.prems(2) m(2-4) show ?case by (simp add: run m(1) Let_def)
qed simp

lemma length_append_runs: "length (append_runs runs body) = length runs"
  by (induction runs body rule: append_runs.induct) (auto simp: Let_def split: prod.splits)

text \<open>Git holds the given versions of the ledger under the given commits.\<close>

definition git_history :: "git \<Rightarrow> string \<Rightarrow> string list \<Rightarrow> string list \<Rightarrow> bool" where
  "git_history git ledger_rel log bodies =
     ((\<exists>out. git [''log'', ''--pretty=format:%H'', ''--reverse'', ''--'', ledger_rel] = Inr out \<and> splitlines out = log) \<and>
      map (\<lambda>sha. git [''show'', sha @ '':'' @ ledger_rel]) log = map Inr bodies)"

lemma git_history_shown:
  assumes "git_history git ledger_rel log bodies"
  shows "git_answers git ledger_rel log" "shown git ledger_rel log = bodies"
proof -
  have m: "map (\<lambda>sha. git [''show'', sha @ '':'' @ ledger_rel]) log = map Inr bodies"
    using assms by (simp add: git_history_def)
  then show "git_answers git ledger_rel log"
    unfolding git_answers_def by (induction log arbitrary: bodies) (auto simp: Cons_eq_map_conv)
  from m show "shown git ledger_rel log = bodies"
    unfolding shown_def by (induction log arbitrary: bodies) (auto simp: Cons_eq_map_conv)
qed

text \<open>
  C23. The check of the ledger is exact. When git answers, it reports nothing if and only if, over the versions
  that git can show, every version's rows extend those of each earlier version and each row of each version
  has an evidence type of the enumeration (or is a row of the head or of another table).
\<close>

theorem check_exact:
  assumes "git [''log'', ''--pretty=format:%H'', ''--reverse'', ''--'', ledger_rel] = Inr out"
    and "git_answers git ledger_rel (splitlines out)"
  shows "\<exists>v. check git ledger_rel = Inr v \<and>
    (v = [] \<longleftrightarrow> sorted_wrt prefix (map rows_of (shown git ledger_rel (splitlines out))) \<and>
       (\<forall>body\<in>set (shown git ledger_rel (splitlines out)). \<forall>r\<in>set (rows_of body). row_approved r))"
  using check_log_grows [OF assms(2), of "[]"] by (simp add: check_def rbind_def assms(1) grows_iff)

definition demo_git :: "string \<Rightarrow> string \<Rightarrow> git" where
  "demo_git old new args =
     (if args = [''log'', ''--pretty=format:%H'', ''--reverse'', ''--'', ''L''] then Inr (''a'' @ [CHR 0x0A] @ ''b'')
      else if args = [''show'', ''a:L''] then Inr old else Inr new)"

lemma demo_git_log:
  "demo_git old new [''log'', ''--pretty=format:%H'', ''--reverse'', ''--'', ''L''] = Inr (''a'' @ [CHR 0x0A] @ ''b'')"
  "splitlines (''a'' @ [CHR 0x0A] @ ''b'') = [''a'', ''b'']"
  by (simp add: demo_git_def) code_simp

theorem check_exact_witness:
  "\<exists>v. check (demo_git (''| 1 | x'' @ [CHR 0x0A]) (''| 2 | x'' @ [CHR 0x0A])) ''L'' = Inr v \<and> v \<noteq> []"
proof -
  let ?git = "demo_git (''| 1 | x'' @ [CHR 0x0A]) (''| 2 | x'' @ [CHR 0x0A])"
  have "git_answers ?git ''L'' [''a'', ''b'']" by (simp add: git_answers_def demo_git_def)
  moreover have "\<not> sorted_wrt prefix (map rows_of (shown ?git ''L'' [''a'', ''b'']))" by code_simp
  ultimately show ?thesis using check_exact [of ?git "''L''" "''a'' @ [CHR 0x0A] @ ''b''", unfolded demo_git_log(2)] demo_git_log(1) by auto
qed

text \<open>
  C24. What \<open>ledger_append\<close> writes passes the check. Start from a ledger that ends in a line end and whose rows are approved,
  run the script any number of times with evidence that succeeds and fields without a bar or a line end, and commit
  after each run: every run exits with 0, the check reports nothing, and the iteration number has grown by one per run.
\<close>

theorem appended_history_passes:
  assumes "complete_lines body" "\<forall>r\<in>set (rows_of body). row_approved r"
    and "\<forall>(env, args)\<in>set runs. evidence_ok env args"
    and "git_history git ledger_rel log (body # map snd (append_runs runs body))"
  shows "(\<forall>(r, _)\<in>set (append_runs runs body). r = Inr 0) \<and> check git ledger_rel = Inr [] \<and>
    next_iter (last (body # map snd (append_runs runs body))) = next_iter body + int (length runs)"
proof -
  note g = append_runs_grow [OF assms(1,3)]
  from g assms(2) have "grows [] (map rows_of (body # map snd (append_runs runs body)))" by simp
  with check_log_grows [OF git_history_shown(1) [OF assms(4)], of "[]"] git_history_shown(2) [OF assms(4)]
  have "check_log git ledger_rel log [] = Inr []" by auto
  moreover from assms(4) have "check git ledger_rel = check_log git ledger_rel log []"
    by (auto simp: git_history_def check_def rbind_def)
  ultimately show ?thesis using g by simp
qed

definition demo_env :: ledger_env where
  "demo_env = \<lparr>le_run = (\<lambda>cmd. Inl (Exc ''FileNotFoundError'' (hd cmd))), le_sha256 = (\<lambda>_. ''00''), le_today = ''2026-01-01''\<rparr>"

definition demo_append :: append_args where
  "demo_append = \<lparr>aa_ledger = ''L'', aa_phase = ''8a'', aa_fr = ''F13'', aa_type = ''unit_tests'', aa_dry_run = True\<rparr>"

theorem appended_history_passes_witness:
  "check (demo_git [] (snd (hd (append_runs [(demo_env, demo_append)] [])))) ''L'' = Inr [] \<and>
   next_iter (snd (hd (append_runs [(demo_env, demo_append)] []))) = 2"
proof -
  let ?runs = "[(demo_env, demo_append)]"
  let ?new = "snd (hd (append_runs ?runs []))"
  have e: "evidence_ok demo_env demo_append" by code_simp
  have l: "map snd (append_runs ?runs []) = [?new]"
    using length_append_runs [of ?runs "[]"] by (cases "append_runs ?runs []") simp_all
  have "git_history (demo_git [] ?new) ''L'' [''a'', ''b''] ([] # map snd (append_runs ?runs []))"
    using demo_git_log(2) unfolding git_history_def l by (simp add: demo_git_def)
  moreover have "next_iter [] = 1" "rows_of [] = []" "complete_lines []" by code_simp+
  ultimately show ?thesis
    using appended_history_passes [of "[]" ?runs "demo_git [] ?new" "''L''" "[''a'', ''b'']"] e
    unfolding l by (simp del: append_runs.simps)
qed

text \<open>
  The conditions on the fields and on the end of the file are needed: with a bar in the phase, or with a ledger that does not end in a
  line end, the script writes a version that the check reports.
\<close>

lemma bar_in_phase_reported:
  "case check (demo_git [] (snd (hd (append_runs [(demo_env, demo_append\<lparr>aa_phase := ''8a|b''\<rparr>)] [])))) ''L'' of Inr v \<Rightarrow> v \<noteq> [] | Inl _ \<Rightarrow> False"
  by code_simp

lemma unended_ledger_reported:
  "case check (demo_git ''| 1 | x'' (snd (hd (append_runs [(demo_env, demo_append)] ''| 1 | x'')))) ''L'' of Inr v \<Rightarrow> v \<noteq> [] | Inl _ \<Rightarrow> False"
  by code_simp

end
