(* ===== verification/Source_Gates.thy ===== *)
theory Source_Gates
  imports Syntax_Tree Text_Lines
begin

text \<open>
  The gates over source code under \<^verbatim>\<open>scripts\<close>: \<^verbatim>\<open>verify_entry_bodies.py\<close>, that the entry points of the workers are no stubs,
  and \<^verbatim>\<open>verify_cli_tests_live.py\<close>, that the tests of the command line run against a live runtime.

  Files are a map from paths to texts, \<open>ast.parse\<close> and \<open>ast.unparse\<close> are parameters, and so is what a git command prints.
  A path is its text; joining two puts a slash between them.
\<close>

type_synonym files = "string \<Rightarrow> string option"

definition path_join :: "string \<Rightarrow> string \<Rightarrow> string" where
  "path_join root rel = (if startswith rel ''/'' then rel else root @ ''/'' @ rel)"


section \<open>Entry bodies\<close>

definition DEFAULT_MANIFEST :: "(string \<times> string list) list" where
  "DEFAULT_MANIFEST =
    [(''py/src/esr/ipc/handler_worker.py'', [''run'']),
     (''py/src/_adapter_common/runner_core.py'', [''run'']),
     (''py/src/_adapter_common/main.py'', [''build_main''])]"

definition STUB_ERROR_SENTINELS :: "string list" where
  "STUB_ERROR_SENTINELS = [''not yet wired'', ''not implemented'', ''stub'', ''deferred'']"

definition LOGGER_METHODS :: "string list" where
  "LOGGER_METHODS = [''debug'', ''info'', ''warn'', ''warning'', ''error'', ''critical'', ''log'']"

definition is_cheap_stmt :: "node \<Rightarrow> bool" where
  "is_cheap_stmt stmt =
     (case stmt of
        Node cls _ \<Rightarrow> cls = ''Pass''
      | Import _ _ \<Rightarrow> True
      | ImportFrom _ _ \<Rightarrow> True
      | Expr val \<Rightarrow>
          (case val of
             Constant _ \<Rightarrow> True
           | Call fn _ _ \<Rightarrow>
               (case fn of Attribute _ attr \<Rightarrow> lower attr \<in> set LOGGER_METHODS | Name i \<Rightarrow> i = ''print'' | _ \<Rightarrow> False)
           | _ \<Rightarrow> False)
      | Assign _ val \<Rightarrow>
          (case val of
             Constant _ \<Rightarrow> True
           | Call fn _ _ \<Rightarrow>
               (case fn of Attribute _ attr \<Rightarrow> attr = ''getLogger'' \<or> attr = ''get_logger'' | Name i \<Rightarrow> i = ''getLogger'' | _ \<Rightarrow> False)
           | _ \<Rightarrow> False)
      | Return v \<Rightarrow>
          (case v of
             None \<Rightarrow> True
           | Some (Constant _) \<Rightarrow> True
           | Some (DictExpr _ _) \<Rightarrow> True
           | Some (Node cls _) \<Rightarrow> cls = ''List'' \<or> cls = ''Tuple'' \<or> cls = ''Set''
           | _ \<Rightarrow> False)
      | Raise _ _ \<Rightarrow> True
      | _ \<Rightarrow> False)"

text \<open>The entry of a returned dictionary that marks a stub.\<close>

definition stub_error :: "node option \<Rightarrow> node \<Rightarrow> string option" where
  "stub_error k v =
     (case (k, v) of
        (Some (Constant key), Constant val) \<Rightarrow>
          if key = PyStr ''error'' \<and> list_ex (\<lambda>s. contains (lower (py_str val)) s) STUB_ERROR_SENTINELS
          then Some (''stub dict return: error='' @ py_repr val) else None
      | _ \<Rightarrow> None)"

definition stub_stmt :: "node \<Rightarrow> string option" where
  "stub_stmt stmt =
     (case stmt of
        Raise (Some (Call (Name i) _ _)) _ \<Rightarrow> if i = ''NotImplementedError'' then Some ''raises NotImplementedError'' else None
      | Return (Some (DictExpr keys values)) \<Rightarrow> first_some (\<lambda>(k, v). stub_error k v) (zip keys values)
      | _ \<Rightarrow> None)"

definition drop_docstring :: "node list \<Rightarrow> node list" where
  "drop_docstring body = (case body of Expr (Constant (PyStr _)) # rest \<Rightarrow> rest | _ \<Rightarrow> body)"

text \<open>\<open>_is_stub_body\<close>: the reason, or \<^const>\<open>None\<close> for a body that does work.\<close>

definition is_stub_body :: "node list \<Rightarrow> string option" where
  "is_stub_body func_body =
     (let body = drop_docstring func_body in
      if body = [] then Some ''empty body''
      else case first_some stub_stmt body of
        Some reason \<Rightarrow> Some reason
      | None \<Rightarrow>
          if list_all is_cheap_stmt body
          then Some (''body of '' @ show_int (int (length body)) @ '' statement(s) is entirely cheap/trivial (no real work)'')
          else None)"

text \<open>The dictionary \<open>found\<close>: a later definition of the walk replaces an earlier one.\<close>

definition found_functions :: "node \<Rightarrow> (string \<times> node list) list" where
  "found_functions tree =
     foldl (\<lambda>found n. case n of FunctionDef _ name _ _ body _ _ \<Rightarrow> dset name body found | _ \<Rightarrow> found) [] (walk [tree])"

definition entry_violations :: "string \<Rightarrow> (string \<times> node list) list \<Rightarrow> string list \<Rightarrow> string list" where
  "entry_violations path found function_names =
     concat (map (\<lambda>name.
       case map_of found name of
         None \<Rightarrow> [path @ '':'' @ name @ '' '' @ em_dash @ '' function not found'']
       | Some body \<Rightarrow>
           (case is_stub_body body of
              Some reason \<Rightarrow> [path @ '':'' @ name @ '' '' @ em_dash @ '' '' @ reason]
            | None \<Rightarrow> [])) function_names)"

definition check_entries :: "(string \<Rightarrow> node res) \<Rightarrow> files \<Rightarrow> string \<Rightarrow> string list \<Rightarrow> string list res" where
  "check_entries ast_parse fs path function_names =
     (case fs path of
        None \<Rightarrow> Inr [path @ '': file missing'']
      | Some source \<Rightarrow>
          rbind (ast_parse source) (\<lambda>tree. Inr (entry_violations path (found_functions tree) function_names)))"

definition entry_targets :: "string \<Rightarrow> string option \<Rightarrow> (string \<times> string list) list" where
  "entry_targets repo_root target =
     (case target of
        Some (c # t) \<Rightarrow> [(path_join repo_root (before CHR '':'' (c # t)), [after CHR '':'' (c # t)])]
      | _ \<Rightarrow> map (\<lambda>(rel, funcs). (path_join repo_root rel, funcs)) DEFAULT_MANIFEST)"

definition entries_main ::
  "(string \<Rightarrow> node res) \<Rightarrow> files \<Rightarrow> string \<Rightarrow> string option \<Rightarrow> (int \<times> string list) res" where
  "entries_main ast_parse fs repo_root target =
     rbind (mapM (\<lambda>(path, funcs). check_entries ast_parse fs path funcs) (entry_targets repo_root target)) (\<lambda>vss.
       let violations = concat vss in
       Inr (if violations \<noteq> []
            then (1, (''LG-2 FAIL '' @ em_dash @ '' stub / empty bodies detected:'') # map (\<lambda>v. ''  '' @ v) violations)
            else (0, [''LG-2 PASS '' @ em_dash @ '' all entry bodies non-trivial''])))"


section \<open>Live tests of the command line\<close>

definition ALLOWED_FIXTURES :: "string list" where
  "ALLOWED_FIXTURES = [''esrd_fixture'', ''live_esrd'']"

definition uses_allowed_fixture :: "string list \<Rightarrow> bool" where
  "uses_allowed_fixture args = list_ex (\<lambda>a. a \<in> set ALLOWED_FIXTURES) args"

definition submit :: string where
  "submit = ''_submit_''"

definition arg_hit :: "(node \<Rightarrow> string) \<Rightarrow> node \<Rightarrow> string list" where
  "arg_hit unparse arg =
     (case arg of
        Constant v \<Rightarrow> (case v of PyStr s \<Rightarrow> if contains s submit then [s] else [] | _ \<Rightarrow> [])
      | Attribute _ _ \<Rightarrow> if contains (unparse arg) submit then [unparse arg] else []
      | _ \<Rightarrow> [])"

definition keyword_hit :: "node \<Rightarrow> string list" where
  "keyword_hit kw =
     (case kw of
        Keyword _ (Constant (PyStr s)) \<Rightarrow> if contains s submit then [s] else []
      | _ \<Rightarrow> [])"

definition call_hits :: "(node \<Rightarrow> string) \<Rightarrow> node \<Rightarrow> string list" where
  "call_hits unparse n =
     (case n of Call _ args keywords \<Rightarrow> concat (map (arg_hit unparse) args) @ concat (map keyword_hit keywords) | _ \<Rightarrow> [])"

definition has_submit_monkeypatch :: "(node \<Rightarrow> string) \<Rightarrow> node list \<Rightarrow> node \<Rightarrow> string list" where
  "has_submit_monkeypatch unparse decorators func =
     concat (map (\<lambda>root. concat (map (call_hits unparse) (walk [root]))) (decorators @ [func]))"

definition test_violations :: "(node \<Rightarrow> string) \<Rightarrow> string \<Rightarrow> bool \<Rightarrow> node \<Rightarrow> string list" where
  "test_violations unparse path no_monkeypatch n =
     (case n of
        FunctionDef False name args _ _ decorators _ \<Rightarrow>
          if startswith name ''test_'' then
            (if \<not> uses_allowed_fixture args then [path @ '':'' @ name @ '' '' @ em_dash @ '' missing esrd_fixture arg''] else []) @
            (if no_monkeypatch
             then map (\<lambda>h. path @ '':'' @ name @ '' '' @ em_dash @ '' monkeypatch of '' @ h) (has_submit_monkeypatch unparse decorators n)
             else [])
          else []
      | _ \<Rightarrow> [])"

definition check_tests ::
  "(string \<Rightarrow> node res) \<Rightarrow> (node \<Rightarrow> string) \<Rightarrow> files \<Rightarrow> bool \<Rightarrow> string \<Rightarrow> string list res" where
  "check_tests ast_parse unparse fs no_monkeypatch path =
     (case fs path of
        None \<Rightarrow> Inr [path @ '': missing'']
      | Some source \<Rightarrow>
          rbind (ast_parse source) (\<lambda>tree. Inr (concat (map (test_violations unparse path no_monkeypatch) (walk [tree])))))"

text \<open>The files of tests that git reports as added or changed since the baseline.\<close>

definition tests_added_since_baseline ::
  "(string list \<Rightarrow> string res) \<Rightarrow> files \<Rightarrow> string \<Rightarrow> string list res" where
  "tests_added_since_baseline run fs repo =
     (case fs (path_join repo ''.ralph-loop-baseline'') of
        None \<Rightarrow> Inr []
      | Some text \<Rightarrow>
          (case run [''git'', ''-C'', repo, ''diff'', ''--name-only'', ''--diff-filter=AM'', strip text,
                     ''--'', ''py/tests/test_cli_cmd_*.py''] of
             Inl e \<Rightarrow> if exc_type e = ''CalledProcessError'' then Inr [] else Inl e
           | Inr out \<Rightarrow> Inr (map (path_join repo) (filter (\<lambda>p. p \<noteq> []) (splitlines out)))))"

definition tests_main ::
  "(string \<Rightarrow> node res) \<Rightarrow> (node \<Rightarrow> string) \<Rightarrow> (string list \<Rightarrow> string res) \<Rightarrow> files \<Rightarrow> string \<Rightarrow> string option \<Rightarrow> bool \<Rightarrow>
   (int \<times> string list) res"
where
  "tests_main ast_parse unparse run fs repo target no_monkeypatch =
     rbind (case target of Some t \<Rightarrow> Inr [t] | None \<Rightarrow> tests_added_since_baseline run fs repo) (\<lambda>targets.
       rbind (mapM (check_tests ast_parse unparse fs no_monkeypatch) targets) (\<lambda>vss.
         let violations = concat vss in
         Inr (if violations \<noteq> []
              then (1, (''LG-9/10 FAIL '' @ em_dash @ '' CLI tests not exercising live esrd:'') # map (\<lambda>v. ''  '' @ v) violations)
              else (0, [''LG-9/10 PASS '' @ em_dash @ '' '' @ show_int (int (length targets)) @ '' CLI test file(s) use live esrd'']))))"


section \<open>What the gates accept\<close>

lemma docstring_harmless: "is_cheap_stmt (Expr (Constant v))" "stub_stmt (Expr (Constant v)) = None"
  by (simp_all add: is_cheap_stmt_def stub_stmt_def)

lemma drop_docstring_cases: "drop_docstring body = body \<or> (\<exists>d. body = Expr (Constant d) # drop_docstring body)"
  by (auto simp: drop_docstring_def split: list.splits node.splits py_val.splits)

text \<open>A body passes when some statement does work and none marks a stub; the docstring and the order play no part.\<close>

definition works :: "node list \<Rightarrow> bool" where
  "works body = ((\<exists>stmt\<in>set body. \<not> is_cheap_stmt stmt) \<and> (\<forall>stmt\<in>set body. stub_stmt stmt = None))"

lemma is_stub_body_None: "is_stub_body body = None \<longleftrightarrow> works body"
proof -
  have "is_stub_body body = None \<longleftrightarrow> works (drop_docstring body)"
    using first_some_None [of stub_stmt "drop_docstring body"]
    by (cases "first_some stub_stmt (drop_docstring body)") (auto simp: is_stub_body_def works_def Let_def list_all_iff)
  also have "\<dots> \<longleftrightarrow> works body"
    using drop_docstring_cases [of body]
  proof
    assume "\<exists>d. body = Expr (Constant d) # drop_docstring body"
    then obtain d where "body = Expr (Constant d) # drop_docstring body" ..
    then have "set body = insert (Expr (Constant d)) (set (drop_docstring body))" by (metis list.simps(15))
    then show ?thesis by (auto simp: works_def docstring_harmless)
  qed simp
  finally show ?thesis .
qed

lemma works_padded: "list_all is_cheap_stmt ws \<Longrightarrow> works (pre @ ws @ post) \<Longrightarrow> works (pre @ post)"
  by (auto simp: works_def list_all_iff)

definition function_defs :: "node list \<Rightarrow> (string \<times> node list) list" where
  "function_defs ns =
     concat (map (\<lambda>n. case n of FunctionDef _ name _ _ body _ _ \<Rightarrow> [(name, body)] | _ \<Rightarrow> []) ns)"

lemma found_functions_last: "map_of (found_functions tree) name = map_of (rev (function_defs (walk [tree]))) name"
proof -
  have "foldl (\<lambda>found n. case n of FunctionDef _ name _ _ body _ _ \<Rightarrow> dset name body found | _ \<Rightarrow> found) found ns =
    fold (\<lambda>(k, v) d. dset k v d) (function_defs ns) found" for found ns
    by (induction ns arbitrary: found) (auto simp: function_defs_def split: node.splits)
  then have "found_functions tree = dict_of (function_defs (walk [tree]))"
    by (simp add: found_functions_def dict_of_def del: walk.simps)
  then show ?thesis by (simp add: map_of_dict_of del: walk.simps)
qed

lemma entry_violations_Nil:
  "entry_violations path found names = [] \<longleftrightarrow> (\<forall>name\<in>set names. \<exists>body. map_of found name = Some body \<and> works body)"
proof -
  have "(case map_of found name of
         None \<Rightarrow> [path @ '':'' @ name @ '' '' @ em_dash @ '' function not found'']
       | Some body \<Rightarrow>
           (case is_stub_body body of
              Some reason \<Rightarrow> [path @ '':'' @ name @ '' '' @ em_dash @ '' '' @ reason]
            | None \<Rightarrow> [])) = [] \<longleftrightarrow> (\<exists>body. map_of found name = Some body \<and> works body)" for name
    by (auto simp: is_stub_body_None [symmetric] split: option.splits)
  then show ?thesis by (simp add: entry_violations_def)
qed


lemma test_violations_Nil:
  "test_violations unparse path True n = [] \<longleftrightarrow>
   (\<forall>name args arguments body decorators others.
      n = FunctionDef False name args arguments body decorators others \<and> startswith name ''test_'' \<longrightarrow>
      uses_allowed_fixture args \<and> (\<forall>c. within n c \<longrightarrow> call_hits unparse c = []))"
proof -
  have "has_submit_monkeypatch unparse ds f = [] \<longleftrightarrow> (\<forall>c. within f c \<longrightarrow> call_hits unparse c = [])"
    if "set ds \<subseteq> set (child_nodes f)" for ds f
    using that within_unfold [of f] by (auto simp: has_submit_monkeypatch_def walk_set simp del: walk.simps)
  note * = this
  show ?thesis
  proof (cases n)
    case (FunctionDef async name args arguments body ds others)
    then have "set ds \<subseteq> set (child_nodes n)" by auto
    from * [OF this] FunctionDef show ?thesis by (cases async) (auto simp: test_violations_def)
  qed (simp_all add: test_violations_def)
qed


section \<open>Properties\<close>


definition demo_call :: "string \<Rightarrow> node" where
  "demo_call f = Expr (Call (Attribute (Name ''x'') f) [Constant (PyStr ''m'')] [])"

definition demo_def :: "string \<Rightarrow> node list \<Rightarrow> node" where
  "demo_def name body = FunctionDef True name [] (Node ''arguments'' []) body [] []"


text \<open>
  A gap of the gate: the walk goes through the whole file by depth, so a method of the same name takes the place of the
  function of the module, and a stub entry point passes next to it.
\<close>

lemma stub_hidden_by_method:
  "check_entries (\<lambda>_. Inr (Node ''Module'' [demo_def ''run'' [Node ''Pass'' []], Node ''ClassDef'' [demo_def ''run'' [demo_call ''work'']]]))
    (\<lambda>_. Some src) path [''run''] = Inr []"
proof -
  let ?tree = "Node ''Module'' [demo_def ''run'' [Node ''Pass'' []], Node ''ClassDef'' [demo_def ''run'' [demo_call ''work'']]]"
  have "map_of (rev (function_defs (walk [?tree]))) ''run'' = Some [demo_call ''work'']"
    by (simp add: demo_def_def demo_call_def function_defs_def)
  moreover have "works [demo_call ''work'']" by code_simp
  ultimately show ?thesis by (simp add: check_entries_def entry_violations_Nil found_functions_last del: walk.simps)
qed

text \<open>
  The gate on tests is exact. On a file that parses, with the search for patches on, it reports nothing if and only if every
  synchronous function named \<open>test_...\<close> at any depth takes a live fixture and no call within it, decorators
  included, names a \<open>_submit_\<close> function in a string or an attribute.
\<close>

theorem test_gate_exact:
  assumes "fs path = Some source" "ast_parse source = Inr tree"
  shows "\<exists>vs. check_tests ast_parse unparse fs True path = Inr vs \<and>
    (vs = [] \<longleftrightarrow> (\<forall>f name args arguments body decorators others.
       within tree f \<and> f = FunctionDef False name args arguments body decorators others \<and> startswith name ''test_'' \<longrightarrow>
       (\<exists>a\<in>set args. a \<in> set ALLOWED_FIXTURES) \<and> (\<forall>c. within f c \<longrightarrow> call_hits unparse c = [])))"
proof -
  have "check_tests ast_parse unparse fs True path = Inr (concat (map (test_violations unparse path True) (walk [tree])))"
    by (simp add: check_tests_def assms)
  moreover have "concat (map (test_violations unparse path True) (walk [tree])) = [] \<longleftrightarrow>
    (\<forall>f. within tree f \<longrightarrow> test_violations unparse path True f = [])"
    by (simp add: walk_set del: walk.simps)
  ultimately show ?thesis by (auto simp: test_violations_Nil uses_allowed_fixture_def list_ex_iff)
qed

definition demo_test :: "bool \<Rightarrow> node" where
  "demo_test async = FunctionDef async ''test_x'' [''live_esrd''] (Node ''arguments'' [])
     [Expr (Call (Name ''patch'') [Constant (PyStr ''esr._submit_x'')] [])] [] []"

theorem test_gate_exact_witness:
  "\<exists>vs. check_tests (\<lambda>_. Inr (Node ''Module'' [demo_test False])) (\<lambda>_. []) (\<lambda>_. Some ''src'') True ''f'' = Inr vs \<and> vs \<noteq> []"
proof -
  let ?tree = "Node ''Module'' [demo_test False]"
  let ?call = "Call (Name ''patch'') [Constant (PyStr ''esr._submit_x'')] []"
  have "within (Expr ?call) ?call" by (rule covered_child [of _ _ ?call]) (simp_all add: covered_self)
  then have w: "within (demo_test False) ?call"
    by (rule covered_child [of _ _ "Expr ?call", rotated 2]) (simp_all add: demo_test_def)
  have "within ?tree (demo_test False)" by (rule covered_child [of _ _ "demo_test False"]) (simp_all add: covered_self)
  moreover have "call_hits (\<lambda>_. []) ?call \<noteq> []" by code_simp
  moreover obtain vs where vs: "check_tests (\<lambda>_. Inr ?tree) (\<lambda>_. []) (\<lambda>_. Some ''src'') True ''f'' = Inr vs"
    and iff: "vs = [] \<longleftrightarrow> (\<forall>f name args arguments body decorators others.
       within ?tree f \<and> f = FunctionDef False name args arguments body decorators others \<and> startswith name ''test_'' \<longrightarrow>
       (\<exists>a\<in>set args. a \<in> set ALLOWED_FIXTURES) \<and> (\<forall>c. within f c \<longrightarrow> call_hits (\<lambda>_. []) c = []))"
    using test_gate_exact [of "\<lambda>_. Some ''src''" "''f''" "''src''" "\<lambda>_. Inr ?tree" ?tree "\<lambda>_. []", OF refl refl] by (elim exE conjE) (rule that)
  moreover have "startswith ''test_x'' ''test_''" by code_simp
  ultimately have "vs \<noteq> []" using w unfolding iff demo_test_def by blast
  with vs show ?thesis by blast
qed

text \<open>A gap of this gate: the walk looks for \<open>FunctionDef\<close> only, so an asynchronous test is not looked at.\<close>

lemma async_test_unchecked:
  "check_tests (\<lambda>_. Inr (Node ''Module'' [demo_test True])) unparse (\<lambda>_. Some src) True path = Inr []"
  by (simp add: check_tests_def demo_test_def test_violations_def)

end
