(* ===== verification/Prd_Gates.thy ===== *)
theory Prd_Gates
  imports Text_Lines
begin

text \<open>
  The gates over the requirement documents under \<^verbatim>\<open>scripts\<close>: \<^verbatim>\<open>verify_prd_matrix.py\<close>, that every test file named in the tables of
  the documents exists, and \<^verbatim>\<open>verify_prd_acceptance.py\<close>, that every acceptance item is ticked and none is deferred.

  Each regular expression of the scripts is the function that decides it. Digits, white space, letters and word boundaries are those of
  ASCII. The files a pattern of \<open>glob\<close> finds are parameters, names with texts in the order the code takes them, and so is the parsed manifest.
\<close>

section \<open>The test matrix\<close>

definition all_ws :: "string \<Rightarrow> bool" where
  "all_ws s = list_all is_ws s"

text \<open>\<open>F\d+[a-z]?\<close>, the whole of a text.\<close>

definition is_fr :: "string \<Rightarrow> bool" where
  "is_fr s =
     (case s of
        c # t \<Rightarrow> c = CHR ''F'' \<and> takeWhile is_digit t \<noteq> [] \<and>
          (case dropWhile is_digit t of
             [] \<Rightarrow> True
           | [d] \<Rightarrow> CHR ''a'' \<le> d \<and> d \<le> CHR ''z''
           | _ \<Rightarrow> False)
      | [] \<Rightarrow> False)"

text \<open>
  \<open>\s*`?([^|`]+?)`?\s*\<close> on the second cell, and the group without its white space: by the backquotes of the cell, of which one
  may come first and one last. The cell must hold something besides them.
\<close>

definition path_cell :: "string \<Rightarrow> string option" where
  "path_cell cell =
     (case split_on (CHR 0x60) cell of
        [s] \<Rightarrow> if s = [] then None else Some (strip s)
      | [a, b] \<Rightarrow> if all_ws a \<and> b \<noteq> [] then Some (strip b) else if all_ws b \<and> a \<noteq> [] then Some (strip a) else None
      | [a, s, b] \<Rightarrow> if all_ws a \<and> all_ws b \<and> s \<noteq> [] then Some (strip s) else None
      | _ \<Rightarrow> None)"

text \<open>\<open>\s*(.+?)\s*\|\s*$\<close>: something, then a bar that only white space follows.\<close>

definition ends_row :: "string \<Rightarrow> bool" where
  "ends_row s =
     (case dropWhile is_ws (rev s) of
        c # t \<Rightarrow> c = CHR ''|'' \<and> t \<noteq> []
      | [] \<Rightarrow> False)"

text \<open>A match of \<open>ROW\<close> on a line: the requirement and the stripped path.\<close>

definition match_row :: "string \<Rightarrow> (string \<times> string) option" where
  "match_row line =
     (if \<not> startswith line ''|'' then None
      else case split_on CHR ''|'' (tl line) of
        fr_cell # cell # rest \<Rightarrow>
          if rest \<noteq> [] \<and> is_fr (strip fr_cell) \<and> ends_row (join ''|'' rest)
          then map_option (\<lambda>p. (strip fr_cell, p)) (path_cell cell) else None
      | _ \<Rightarrow> None)"

definition parse_prd :: "string \<Rightarrow> (string \<times> string) list" where
  "parse_prd text = List.map_filter match_row (splitlines text)"

definition NON_PATHS :: "string list" where
  "NON_PATHS = [em_dash, ''-'', ''same'', []]"

text \<open>\<open>s.split("::", 1)[0]\<close>.\<close>

fun before_colons :: "string \<Rightarrow> string" where
  "before_colons [] = []"
| "before_colons (c # s) = (if startswith (c # s) ''::'' then [] else c # before_colons s)"

text \<open>The row of one test: nothing, or why its file is missing. \<open>exists_file\<close> tells whether a path below the repository exists.\<close>

definition missing_of :: "(string \<Rightarrow> bool) \<Rightarrow> string \<Rightarrow> string option" where
  "missing_of exists_file test_path =
     (let stripped = strip test_path in
      if lower stripped \<in> set NON_PATHS \<or> startswith (lower stripped) ''same'' then None
      else if startswith (lower stripped) ''per-handler'' then
        (if exists_file ''py/tests/test_handlers_cross_cutting.py'' then None else Some ''cross-cutting file missing'')
      else if exists_file (before_colons stripped) then None else Some ''file not found'')"

definition matrix_missing :: "(string \<Rightarrow> bool) \<Rightarrow> (string \<times> string) list \<Rightarrow> (string \<times> string \<times> string \<times> string) list" where
  "matrix_missing exists_file prds =
     concat (map (\<lambda>(name, text). List.map_filter (\<lambda>(fr, test_path).
        map_option (\<lambda>reason. (name, fr, strip test_path, reason)) (missing_of exists_file test_path)) (parse_prd text)) prds)"

definition matrix_main :: "string \<Rightarrow> bool \<Rightarrow> (string \<Rightarrow> bool) \<Rightarrow> (string \<times> string) list \<Rightarrow> int \<times> string list" where
  "matrix_main prds_dir dir_exists exists_file prds =
     (if \<not> dir_exists then (1, [''PRDs dir not found: '' @ prds_dir])
      else
        let missing = matrix_missing exists_file prds;
            total = length (concat (map (\<lambda>(_, text). parse_prd text) prds)) in
        if missing \<noteq> [] then
          (1, ([CHR 0x0A] @ show_int (int (length missing)) @ '' missing PRD-matrix test paths:'' @ [CHR 0x0A]) #
              map (\<lambda>(name, fr, path, reason). ''  '' @ name @ ''  '' @ fr @ ''  '' @ path @ ''  ('' @ reason @ '')'') missing)
        else (0, [''all '' @ show_int (int total) @
                  '' FR tests located (every PRD matrix row resolves to an existing file or accepted placeholder)'']))"


section \<open>The acceptance section\<close>

text \<open>
  \<open>^##\s+Acceptance\s*$\<close> at the beginning of a line: the text from the end of the match on. The last \<open>\s*\<close> runs on over line
  ends as far as the match can still end at one.
\<close>

definition last_newline :: "string \<Rightarrow> nat option" where
  "last_newline ws = (case dropWhile (\<lambda>c. c \<noteq> CHR 0x0A) (rev ws) of [] \<Rightarrow> None | _ # front \<Rightarrow> Some (length front))"

definition after_heading :: "string \<Rightarrow> string option" where
  "after_heading t =
     (let r1 = drop 2 t; r2 = dropWhile is_ws r1 in
      if startswith t ''##'' \<and> takeWhile is_ws r1 \<noteq> [] \<and> startswith r2 ''Acceptance'' then
        let r3 = drop 10 r2 in
        if all_ws r3 then Some []
        else map_option (\<lambda>k. drop k r3) (last_newline (takeWhile is_ws r3))
      else None)"

text \<open>The search, with whether the position is at the beginning of a line.\<close>

fun find_heading :: "bool \<Rightarrow> string \<Rightarrow> string option" where
  "find_heading bol [] = None"
| "find_heading bol (c # s) =
     (case (if bol then after_heading (c # s) else None) of
        Some tail \<Rightarrow> Some tail
      | None \<Rightarrow> find_heading (c = CHR 0x0A) s)"

text \<open>\<open>^##\s+\<close>, and the text before its first match.\<close>

definition is_h2 :: "string \<Rightarrow> bool" where
  "is_h2 t = (startswith t ''##'' \<and> takeWhile is_ws (drop 2 t) \<noteq> [])"

fun before_h2 :: "bool \<Rightarrow> string \<Rightarrow> string" where
  "before_h2 bol [] = []"
| "before_h2 bol (c # s) = (if bol \<and> is_h2 (c # s) then [] else c # before_h2 (c = CHR 0x0A) s)"

definition extract_acceptance :: "string \<Rightarrow> string" where
  "extract_acceptance md = (case find_heading True md of None \<Rightarrow> [] | Some tail \<Rightarrow> before_h2 True tail)"


section \<open>Ticked items\<close>

text \<open>\<open>s.replace("[x]", "[X]")\<close>.\<close>

fun upper_ticks :: "string \<Rightarrow> string" where
  "upper_ticks (a # b # c # s) =
     (if [a, b, c] = ''[x]'' then ''[X]'' @ upper_ticks s else a # upper_ticks (b # c # s))"
| "upper_ticks s = s"

definition ticked :: "string \<Rightarrow> string \<Rightarrow> bool" where
  "ticked acc row = (contains acc (''[x] '' @ row) \<or> contains acc (upper_ticks (''[x] '' @ row)))"

definition row_violation :: "string \<Rightarrow> string \<Rightarrow> string \<Rightarrow> string list" where
  "row_violation key acc row =
     (if ticked acc row then []
      else if contains acc ('' '' @ row) then [key @ '': row present but not ticked '' @ em_dash @ '' '' @ repr_str row]
      else [key @ '': missing '' @ em_dash @ '' '' @ repr_str row])"

text \<open>One entry of the manifest, with the texts that \<open>glob\<close> finds for its number.\<close>

definition item_violations :: "string \<Rightarrow> (string \<Rightarrow> string list) \<Rightarrow> string \<times> string list \<Rightarrow> string list" where
  "item_violations prd_dir glob entry =
     (case entry of (key, rows) \<Rightarrow>
        case glob (removeprefix key ''prd_'') of
          [] \<Rightarrow> [key @ '': no matching PRD file in '' @ prd_dir]
        | body # _ \<Rightarrow> concat (map (row_violation key (extract_acceptance body)) rows))"

definition counted :: "(string \<Rightarrow> string list) \<Rightarrow> string \<times> string list \<Rightarrow> nat" where
  "counted glob entry = (case entry of (key, rows) \<Rightarrow> if glob (removeprefix key ''prd_'') = [] then 0 else length rows)"

definition check_manifest :: "string \<Rightarrow> (string \<Rightarrow> string list) \<Rightarrow> (string \<times> string list) list \<Rightarrow> string list" where
  "check_manifest prd_dir glob manifest =
     (let violations = concat (map (item_violations prd_dir glob) manifest) in
      if violations \<noteq> [] then violations
      else [''all '' @ show_int (int (sum_list (map (counted glob) manifest))) @ '' Acceptance items ticked''])"


section \<open>Banned phrases\<close>

definition is_word :: "char \<Rightarrow> bool" where
  "is_word c = (is_digit c \<or> (CHR ''a'' \<le> c \<and> c \<le> CHR ''z'') \<or> (CHR ''A'' \<le> c \<and> c \<le> CHR ''Z'') \<or> c = CHR ''_'')"

text \<open>\<open>\b\<close> between two characters, where there are any.\<close>

definition boundary :: "char option \<Rightarrow> char option \<Rightarrow> bool" where
  "boundary l r = ((case l of None \<Rightarrow> False | Some c \<Rightarrow> is_word c) \<noteq> (case r of None \<Rightarrow> False | Some c \<Rightarrow> is_word c))"

definition first_char :: "string \<Rightarrow> char option" where
  "first_char s = (case s of [] \<Rightarrow> None | c # _ \<Rightarrow> Some c)"

text \<open>
  A pattern is a choice of phrases between word boundaries, or a phrase after a boundary and, anywhere after it, one of some endings
  before a boundary. Texts are compared in lower case.
\<close>

datatype ban = Phrases "string list" | Then string "string list"

definition BAN_PATTERNS :: "ban list" where
  "BAN_PATTERNS =
    [Phrases [''deferred'', ''defers'', ''deferral'', ''deferring'', ''defer''],
     Phrases [''manual step''], Phrases [''post-install''], Phrases [''gated by''],
     Then ''live'' [''hookup'', ''integration'', ''wiring''],
     Phrases [''v0.2+'', ''v0.2''], Phrases [''todo''], Phrases [''pending'']]"

definition ends_here :: "string list \<Rightarrow> string \<Rightarrow> bool" where
  "ends_here ws t = list_ex (\<lambda>w. startswith t w \<and> boundary (Some (last w)) (first_char (drop (length w) t))) ws"

fun ends_later :: "string list \<Rightarrow> string \<Rightarrow> bool" where
  "ends_later ws [] = ends_here ws []"
| "ends_later ws (c # t) = (ends_here ws (c # t) \<or> ends_later ws t)"

definition ban_here :: "ban \<Rightarrow> char option \<Rightarrow> string \<Rightarrow> bool" where
  "ban_here p prev t =
     (boundary prev (first_char t) \<and>
      (case p of Phrases ws \<Rightarrow> ends_here ws t | Then w ws \<Rightarrow> startswith t w \<and> ends_later ws (drop (length w) t)))"

fun ban_search :: "ban \<Rightarrow> char option \<Rightarrow> string \<Rightarrow> bool" where
  "ban_search p prev [] = ban_here p prev []"
| "ban_search p prev (c # t) = (ban_here p prev (c # t) \<or> ban_search p (Some c) t)"

definition banned :: "ban \<Rightarrow> string \<Rightarrow> bool" where
  "banned p line = ban_search p None (lower line)"

definition check_regex_scan :: "(string \<times> string) list \<Rightarrow> string list" where
  "check_regex_scan mds =
     concat (map (\<lambda>(name, text). concat (map (\<lambda>pat. List.map_filter (\<lambda>line.
        if banned pat line then Some (name @ '': banned phrase in acceptance: '' @ repr_str (strip line)) else None)
          (splitlines (extract_acceptance text))) BAN_PATTERNS)) mds)"

definition acceptance_main ::
  "string \<Rightarrow> (string \<Rightarrow> string list) \<Rightarrow> (string \<times> string) list \<Rightarrow> bool \<Rightarrow> (string \<times> string list) list option \<Rightarrow> int \<times> string list" where
  "acceptance_main prd_dir glob mds regex_scan manifest =
     (if regex_scan then
        let v = check_regex_scan mds in
        if v \<noteq> [] then (1, (''LG-3 FAIL '' @ em_dash @ '' banned phrases in PRD acceptance:'') # map (\<lambda>x. ''  '' @ x) v)
        else (0, [''LG-3 PASS '' @ em_dash @ '' no deferral phrases in any PRD acceptance''])
      else case manifest of
        Some m \<Rightarrow>
          let v = check_manifest prd_dir glob m in
          if length v = 1 \<and> startswith (hd v) ''all '' then (0, [''LG-5 PASS '' @ em_dash @ '' '' @ hd v])
          else (1, (''LG-5 FAIL '' @ em_dash @ '' acceptance manifest mismatch:'') # map (\<lambda>x. ''  '' @ x) v)
      | None \<Rightarrow> (2, [''one of --manifest / --regex-scan is required'']))"


section \<open>Extraction of the section\<close>

text \<open>Texts in which no line begins with a heading of the second level, or with two hashes at all.\<close>

fun no_line :: "(string \<Rightarrow> bool) \<Rightarrow> bool \<Rightarrow> string \<Rightarrow> bool" where
  "no_line P bol [] = True"
| "no_line P bol (c # s) = (\<not> (bol \<and> P (c # s)) \<and> no_line P (c = CHR 0x0A) s)"

lemma startswith_hashes: "complete_lines (c # s) \<Longrightarrow> startswith (c # s @ t) ''##'' \<longleftrightarrow> startswith (c # s) ''##''"
  by (cases s) (auto simp: complete_lines_def)

lemma is_h2_append: "complete_lines (c # s) \<Longrightarrow> is_h2 (c # s @ t) \<longleftrightarrow> is_h2 (c # s)"
proof -
  assume c: "complete_lines (c # s)"
  have "startswith (c # s) ''##'' \<Longrightarrow> \<exists>d u. s = CHR ''#'' # d # u"
    using c by (cases s rule: remdups_adj.cases) (auto simp: complete_lines_def)
  then show ?thesis using startswith_hashes [OF c, of t] by (auto simp: is_h2_def split: if_splits)
qed

lemma complete_lines_tl:
  assumes "complete_lines (c # s)"
  shows "complete_lines s" "s = [] \<Longrightarrow> c = CHR 0x0A"
  using assms by (auto simp: complete_lines_def split: if_splits)

lemma after_heading_hashes: "\<not> startswith t ''##'' \<Longrightarrow> after_heading t = None"
  by (simp add: after_heading_def Let_def)

lemma find_heading_skip:
  "complete_lines pre \<Longrightarrow> no_line (\<lambda>t. startswith t ''##'') bol pre \<Longrightarrow> (pre = [] \<Longrightarrow> bol) \<Longrightarrow>
   find_heading bol (pre @ t) = find_heading True t"
proof (induction pre arbitrary: bol)
  case (Cons c s)
  have h: "bol \<Longrightarrow> after_heading (c # s @ t) = None"
    using Cons.prems(2) startswith_hashes [OF Cons.prems(1), of t] by (intro after_heading_hashes) simp
  have "find_heading bol ((c # s) @ t) = find_heading (c = CHR 0x0A) (s @ t)" using h by (cases bol) simp_all
  also have "\<dots> = find_heading True t"
    using Cons.IH [OF complete_lines_tl(1) [OF Cons.prems(1)], of "c = CHR 0x0A"] complete_lines_tl(2) [OF Cons.prems(1)] Cons.prems(2)
    by simp
  finally show ?case .
qed simp

lemma before_h2_body:
  "complete_lines body \<Longrightarrow> no_line is_h2 bol body \<Longrightarrow> (body = [] \<Longrightarrow> bol) \<Longrightarrow> rest = [] \<or> is_h2 rest \<Longrightarrow>
   before_h2 bol (body @ rest) = body"
proof (induction body arbitrary: bol)
  case Nil
  then show ?case by (cases rest) auto
next
  case (Cons c s)
  have "before_h2 (c = CHR 0x0A) (s @ rest) = s"
    using Cons.IH [OF complete_lines_tl(1) [OF Cons.prems(1)], of "c = CHR 0x0A"] complete_lines_tl(2) [OF Cons.prems(1)] Cons.prems(2,4)
    by simp
  then show ?case using Cons.prems(2) is_h2_append [OF Cons.prems(1), of rest] by simp
qed

lemma after_heading_line:
  assumes "body \<noteq> []" "\<not> is_ws (hd body)"
  shows "after_heading (''## Acceptance'' @ CHR 0x0A # body) = Some (CHR 0x0A # body)"
proof -
  obtain d u where b: "body = d # u" "\<not> is_ws d" using assms by (cases body) auto
  have ws: "is_ws CHR '' ''" "is_ws CHR 0x0A" "\<not> is_ws CHR ''A''" by (simp_all add: is_ws_def)
  show ?thesis using b ws by (simp add: after_heading_def Let_def all_ws_def last_newline_def)
qed

text \<open>
  The section is found and ends where it should: in a document with a heading for it, no line of two hashes before, and
  a body that begins with something visible, ends its last line and has no other heading, up to the next heading or the end.
\<close>

lemma extract_section:
  assumes "complete_lines pre" "no_line (\<lambda>t. startswith t ''##'') True pre"
    and "body \<noteq> []" "\<not> is_ws (hd body)" "complete_lines body" "no_line is_h2 True body" "rest = [] \<or> is_h2 rest"
  shows "extract_acceptance (pre @ ''## Acceptance'' @ CHR 0x0A # body @ rest) = CHR 0x0A # body"
proof -
  have hd: "body @ rest \<noteq> []" "\<not> is_ws (hd (body @ rest))" using assms(3,4) by auto
  have "find_heading True (''## Acceptance'' @ CHR 0x0A # body @ rest) = Some (CHR 0x0A # body @ rest)"
    using after_heading_line [OF hd] by simp
  moreover have "\<not> is_h2 (CHR 0x0A # body @ rest)" by (simp add: is_h2_def)
  moreover note before_h2_body [OF assms(5,6) _ assms(7)] assms(3)
  ultimately show ?thesis
    unfolding extract_acceptance_def find_heading_skip [OF assms(1,2) TrueI] by simp
qed


section \<open>Rows of the matrix\<close>

text \<open>A row as the documents write it.\<close>

definition format_row :: "string \<times> string \<times> string \<Rightarrow> string" where
  "format_row r = (case r of (fr, path, name) \<Rightarrow>
     ''|'' @ pad fr @ ''|'' @ pad ([CHR 0x60] @ path @ [CHR 0x60]) @ ''|'' @ pad name @ ''|'')"

definition wf_row :: "string \<times> string \<times> string \<Rightarrow> bool" where
  "wf_row r = (case r of (fr, path, name) \<Rightarrow>
     is_fr fr \<and> path \<noteq> [] \<and> strip path = path \<and> CHR ''|'' \<notin> set path \<and> CHR 0x60 \<notin> set path \<and> one_line path \<and> one_line name)"

lemma lower_letter: "CHR ''a'' \<le> d \<Longrightarrow> d \<le> CHR ''z'' \<Longrightarrow> \<not> is_ws d \<and> d \<noteq> CHR ''|''"
  by (auto simp: is_ws_def Let_def less_eq_char_def)

lemma is_fr_chars: "is_fr s \<Longrightarrow> c \<in> set s \<Longrightarrow> \<not> is_ws c \<and> c \<noteq> CHR ''|''"
proof -
  assume f: "is_fr s" and c: "c \<in> set s"
  have digit: "is_digit c \<Longrightarrow> \<not> is_ws c \<and> c \<noteq> CHR ''|''" using digit_not_ws by (auto simp: is_digit_def digit_val_def)
  from f obtain t where t: "s = CHR ''F'' # t" "dropWhile is_digit t = [] \<or> (\<exists>d. dropWhile is_digit t = [d] \<and> CHR ''a'' \<le> d \<and> d \<le> CHR ''z'')"
    by (auto simp: is_fr_def split: list.splits)
  have "c = CHR ''F'' \<or> c \<in> set (takeWhile is_digit t) \<or> c \<in> set (dropWhile is_digit t)"
    using c t(1) takeWhile_dropWhile_id [of is_digit t] by (metis Un_iff set_append set_ConsD)
  then show ?thesis
    using t(2) digit set_takeWhileD [of c is_digit t] lower_letter
    by (auto simp: is_ws_def [of "CHR ''F''"] simp del: dropWhile_eq_Nil_conv)
qed

lemma match_row_format:
  assumes "wf_row (fr, path, name)"
  shows "match_row (format_row (fr, path, name)) = Some (fr, path)"
proof -
  have w: "is_fr fr" "path \<noteq> []" "strip path = path" "CHR ''|'' \<notin> set path" "CHR 0x60 \<notin> set path" using assms by (simp_all add: wf_row_def)
  let ?cell = "pad ([CHR 0x60] @ path @ [CHR 0x60])"
  have fr: "strip (pad fr) = fr" "CHR ''|'' \<notin> set (pad fr)" 
    using is_fr_chars [OF w(1)] by (auto intro: strip_pad) (auto simp: pad_def)
  have cell: "CHR ''|'' \<notin> set ?cell" using w(4) by (simp add: pad_def)
  have "split_on (CHR 0x60) ?cell = ['' '', path, '' '']"
    using w(5) split_on_append [of "CHR 0x60" "'' ''"] split_on_append [of "CHR 0x60" path] by (simp add: pad_def split_on_absent)
  then have path: "path_cell ?cell = Some path" using w(2,3) by (simp add: path_cell_def all_ws_def is_ws_def)
  have "split_on CHR ''|'' (pad fr @ ''|'' @ ?cell @ ''|'' @ pad name @ ''|'') = pad fr # ?cell # split_on CHR ''|'' (pad name @ ''|'')"
    using split_on_append [OF fr(2)] split_on_append [OF cell] by simp
  moreover have "ends_row (join ''|'' (split_on CHR ''|'' (pad name @ ''|'')))"
    unfolding join_split_on by (simp add: ends_row_def pad_def is_ws_def)
  moreover have "split_on CHR ''|'' (pad name @ ''|'') \<noteq> []" by simp
  ultimately show ?thesis using fr path w(1) by (simp add: match_row_def format_row_def)
qed


text \<open>A table is its rows, each ended by a line end; rows with something else around them are of no account here.\<close>

definition format_table :: "(string \<times> string \<times> string) list \<Rightarrow> string" where
  "format_table rows = concat (map (\<lambda>r. format_row r @ [CHR 0x0A]) rows)"

lemma one_line_format: "wf_row r \<Longrightarrow> one_line (format_row r)"
proof -
  assume "wf_row r"
  moreover obtain fr path name where r: "r = (fr, path, name)" by (metis prod_cases3)
  ultimately have "\<forall>c\<in>set fr. \<not> is_linebreak c" "one_line path" "one_line name"
    using is_fr_chars [of fr] linebreak_is_ws by (auto simp: wf_row_def)
  then show ?thesis by (auto simp: r format_row_def one_line_def pad_def is_linebreak_def)
qed

lemma splitlines_table: "\<forall>r\<in>set rows. wf_row r \<Longrightarrow> splitlines (format_table rows) = map format_row rows"
proof (induction rows rule: rev_induct)
  case (snoc r rows)
  have "complete_lines (format_table rows)" by (cases rows rule: rev_cases) (simp_all add: format_table_def complete_lines_def)
  from splitlines_add_line [OF this one_line_format [of r]] snoc show ?case by (simp add: format_table_def)
qed (simp add: format_table_def splitlines_def)

lemma map_filter_Nil: "List.map_filter f xs = [] \<longleftrightarrow> (\<forall>x\<in>set xs. f x = None)"
  by (induction xs) (auto simp: map_filter_simps split: option.splits)

lemma matrix_missing_Nil:
  "matrix_missing exists_file prds = [] \<longleftrightarrow>
   (\<forall>(name, text)\<in>set prds. \<forall>(fr, path)\<in>set (parse_prd text). missing_of exists_file path = None)"
proof (induction prds)
  case (Cons d prds)
  obtain name body where "d = (name, body)" by (cases d)
  with Cons show ?case by (simp add: matrix_missing_def map_filter_Nil split_def)
qed (simp add: matrix_missing_def)

text \<open>
  The matrix gate reads back the tables it is given: from documents whose tables hold well-formed rows, it recovers each
  requirement with its path, in order, and it passes exactly when every path that is no placeholder names an existing file
  (up to a double colon and a test name).
\<close>

theorem matrix_roundtrip:
  assumes "\<forall>(name, rows)\<in>set docs. \<forall>r\<in>set rows. wf_row r"
  shows "(\<forall>(name, rows)\<in>set docs. parse_prd (format_table rows) = map (\<lambda>(fr, path, _). (fr, path)) rows) \<and>
    (fst (matrix_main dir True exists_file (map (\<lambda>(name, rows). (name, format_table rows)) docs)) = 0 \<longleftrightarrow>
     (\<forall>(name, rows)\<in>set docs. \<forall>(fr, path, _)\<in>set rows. missing_of exists_file path = None))"
proof -
  have m: "List.map_filter match_row (map format_row rows) = map (\<lambda>(fr, path, _). (fr, path)) rows" if "\<forall>r\<in>set rows. wf_row r" for rows
    using that match_row_format by (induction rows) (auto simp: map_filter_simps)
  have p: "parse_prd (format_table rows) = map (\<lambda>(fr, path, _). (fr, path)) rows" if "\<forall>r\<in>set rows. wf_row r" for rows
    using m [OF that] splitlines_table [OF that] by (simp add: parse_prd_def)
  have "matrix_missing exists_file (map (\<lambda>(name, rows). (name, format_table rows)) docs) = [] \<longleftrightarrow>
    (\<forall>(name, rows)\<in>set docs. \<forall>(fr, path, _)\<in>set rows. missing_of exists_file path = None)"
    unfolding matrix_missing_Nil using assms p by (induction docs) (auto split: prod.splits)
  moreover have "fst (matrix_main dir True exists_file prds) = 0 \<longleftrightarrow> matrix_missing exists_file prds = []" for prds
    by (simp add: matrix_main_def Let_def)
  ultimately show ?thesis using assms p by auto
qed

theorem matrix_roundtrip_witness:
  "fst (matrix_main ''docs'' True (\<lambda>p. p = ''py/tests/test_x.py'')
     (map (\<lambda>(name, rows). (name, format_table rows)) [(''01-core.md'', [(''F07a'', ''py/tests/test_x.py::test_y'', ''works''), (''F08'', ''same'', ''y'')])])) = 0"
proof -
  let ?docs = "[(''01-core.md'', [(''F07a'', ''py/tests/test_x.py::test_y'', ''works''), (''F08'', ''same'', ''y'')])]"
  have "\<forall>(name, rows)\<in>set ?docs. \<forall>r\<in>set rows. wf_row r" by code_simp
  moreover have "\<forall>(name, rows)\<in>set ?docs. \<forall>(fr, path, _)\<in>set rows. missing_of (\<lambda>p. p = ''py/tests/test_x.py'') path = None" by code_simp
  ultimately show ?thesis using matrix_roundtrip [of ?docs "''docs''" "\<lambda>p. p = ''py/tests/test_x.py''"] by blast
qed


section \<open>The manifest\<close>

lemma row_violation_Nil: "row_violation key acc row = [] \<longleftrightarrow> ticked acc row"
  by (simp add: row_violation_def)

lemma item_violations_Nil:
  "item_violations prd_dir glob (key, rows) = [] \<longleftrightarrow>
   (\<exists>body bodies. glob (removeprefix key ''prd_'') = body # bodies \<and> (\<forall>row\<in>set rows. ticked (extract_acceptance body) row))"
  by (auto simp: item_violations_def row_violation_Nil split: list.splits)

lemma item_violations_key: "v \<in> set (item_violations prd_dir glob (key, rows)) \<Longrightarrow> \<exists>t. v = key @ t"
  by (auto simp: item_violations_def row_violation_def split: list.splits if_splits)

text \<open>
  The acceptance gate passes exactly when every document named in the manifest exists and every item is ticked in its section. The code
  decides success by the first word of the only message, which no violation has when the keys begin with \<open>prd_\<close>.
\<close>

theorem acceptance_gate_exact:
  assumes "\<forall>(key, rows)\<in>set manifest. startswith key ''prd_''"
  shows "fst (acceptance_main prd_dir glob mds False (Some manifest)) = 0 \<longleftrightarrow>
    (\<forall>(key, rows)\<in>set manifest. \<exists>body bodies. glob (removeprefix key ''prd_'') = body # bodies \<and>
       (\<forall>row\<in>set rows. ticked (extract_acceptance body) row))"
proof -
  let ?vs = "concat (map (item_violations prd_dir glob) manifest)"
  have "\<not> startswith v ''all ''" if v: "v \<in> set ?vs" for v
  proof -
    obtain key rows where "(key, rows) \<in> set manifest" "v \<in> set (item_violations prd_dir glob (key, rows))" using v by auto
    then show ?thesis using assms item_violations_key by (fastforce simp: startswith_iff)
  qed
  then have "length ?vs = 1 \<Longrightarrow> \<not> startswith (hd ?vs) ''all ''" by (cases ?vs) auto
  then have "fst (acceptance_main prd_dir glob mds False (Some manifest)) = 0 \<longleftrightarrow> ?vs = []"
    by (auto simp: acceptance_main_def check_manifest_def Let_def)
  also have "\<dots> \<longleftrightarrow> (\<forall>(key, rows)\<in>set manifest. item_violations prd_dir glob (key, rows) = [])" by auto
  finally show ?thesis unfolding item_violations_Nil .
qed

text \<open>An item counts as ticked when a longer one that begins with it is.\<close>

lemma ticked_by_longer_item: "ticked (''- [x] '' @ row @ more) row"
proof -
  have "contains (p @ t @ u) t" if "t \<noteq> []" for p t u :: string
    using that by (induction p) (auto simp: neq_Nil_conv)
  from this [of "''[x] '' @ row" "''- ''" more] show ?thesis by (simp add: ticked_def)
qed

end
