(* ===== verification/Mock_Cc.thy ===== *)
theory Mock_Cc
  imports Text_Lines
begin

text \<open>
  The stand-ins for Claude Code under \<^verbatim>\<open>scripts\<close>: \<^verbatim>\<open>mock_cc_worker.py\<close>, a worker that joins a session's channel, announces itself
  and answers probes, and \<^verbatim>\<open>mock_mcp_ctl.py\<close>, which invokes one tool and waits for its result.

  The worker is a state machine. Its inputs are what \<open>ws.receive\<close> gives within the time limit, with the reading of the loop's
  clock (in milliseconds) before it, and the turns of the task that announces the session; any interleaving of the two may occur. A step
  gives the state after it and the frames it sent. How a send fails and \<open>json.loads\<close> are parameters; the frames are the values that
  \<open>json.dumps\<close> is given.
\<close>

section \<open>Frames\<close>

datatype recv = Timeout | Closed | OtherMsg | Text string

definition py_len :: "py_val \<Rightarrow> nat res" where
  "py_len v =
     (case py_iter v of
        Inr xs \<Rightarrow> Inr (length xs)
      | Inl _ \<Rightarrow> Inl (type_error (''object of type '' @ repr_str (type_name v) @ '' has no len()'')))"

text \<open>
  The topic, event and payload of a frame: \<^const>\<open>None\<close> where it has fewer than five items; more than five are a \<open>ValueError\<close>.
\<close>

definition read_frame :: "(string \<Rightarrow> py_val res) \<Rightarrow> string \<Rightarrow> (py_val \<times> py_val \<times> py_val) option res" where
  "read_frame json_loads data =
     rbind (json_loads data) (\<lambda>frame.
       rbind (py_len frame) (\<lambda>n.
         if n < 5 then Inr None
         else rbind (py_iter frame) (\<lambda>items.
           case items of
             [_, _, topic, event, payload] \<Rightarrow> Inr (Some (topic, event, payload))
           | _ \<Rightarrow> Inl (value_error ''too many values to unpack (expected 5)''))))"

definition frame :: "string \<Rightarrow> string \<Rightarrow> string \<Rightarrow> string \<Rightarrow> py_kvs \<Rightarrow> py_val" where
  "frame jref ref topic event payload = PyList [PyStr jref, PyStr ref, PyStr topic, PyStr event, PyDict payload]"


section \<open>The probe\<close>

text \<open>
  \<open>ECHO-PROBE:\s*(.+)\<close>: after the prefix the white space is taken greedily and given back one by one until a character that is no line
  feed follows; the group is the rest of that line.
\<close>

definition echo_group :: "string \<Rightarrow> string option" where
  "echo_group s =
     first_some (\<lambda>k. case drop k s of
         [] \<Rightarrow> None
       | c # _ \<Rightarrow> if c = CHR 0x0A then None else Some (takeWhile (\<lambda>c. c \<noteq> CHR 0x0A) (drop k s)))
       (rev [0..<Suc (length (takeWhile is_ws s))])"

fun echo_search :: "string \<Rightarrow> string option" where
  "echo_search [] = None"
| "echo_search (c # s) =
     (if startswith (c # s) ''ECHO-PROBE:'' then
        (case echo_group (drop 11 (c # s)) of Some g \<Rightarrow> Some g | None \<Rightarrow> echo_search s)
      else echo_search s)"

definition echo_nonce :: "string \<Rightarrow> string option" where
  "echo_nonce content = map_option strip (echo_search content)"


section \<open>The worker\<close>

datatype phase = Joining int | Draining | Running | Ended "py_exc option"

text \<open>The announcing task: not yet run, before the loop's test, in its sleep, or returned; with its deadline and attempts.\<close>

datatype ready = NotStarted | AtHead int nat | Sleeping int nat | Finished

record worker =
  cw_session :: string
  cw_chat_id :: string
  cw_app_id :: string
  cw_ref :: nat
  cw_join_ref :: string
  cw_log :: string
  cw_ready_sent :: bool
  cw_phase :: phase
  cw_ready :: ready
  cw_sends :: nat

datatype worker_event = Recv int recv | ReadyTurn int

definition cw_topic :: "worker \<Rightarrow> string" where
  "cw_topic s = ''cli:channel/'' @ cw_session s"

definition new_worker :: "string \<Rightarrow> string \<Rightarrow> string \<Rightarrow> worker" where
  "new_worker session chat_id app_id =
     \<lparr>cw_session = session, cw_chat_id = chat_id, cw_app_id = app_id, cw_ref = 1, cw_join_ref = [], cw_log = [],
      cw_ready_sent = False, cw_phase = Joining 0, cw_ready = NotStarted, cw_sends = 0\<rparr>"

definition next_ref :: "worker \<Rightarrow> string \<times> worker" where
  "next_ref s = (show_nat (cw_ref s), s\<lparr>cw_ref := cw_ref s + 1\<rparr>)"

text \<open>\<open>_send_str\<close>: the exception, if the socket raises, the frame sent and the state.\<close>

definition send_frame ::
  "(nat \<Rightarrow> py_exc option) \<Rightarrow> py_val \<Rightarrow> worker \<Rightarrow> py_exc option \<times> worker \<times> py_val list" where
  "send_frame fails f s =
     (let s' = s\<lparr>cw_sends := cw_sends s + 1\<rparr> in
      case fails (cw_sends s) of None \<Rightarrow> (None, s', [f]) | Some e \<Rightarrow> (Some e, s', []))"

definition send_envelope ::
  "(nat \<Rightarrow> py_exc option) \<Rightarrow> py_kvs \<Rightarrow> worker \<Rightarrow> py_exc option \<times> worker \<times> py_val list" where
  "send_envelope fails payload s =
     (case next_ref s of (ref, s1) \<Rightarrow> send_frame fails (frame (cw_join_ref s1) ref (cw_topic s1) ''envelope'' payload) s1)"

text \<open>A \<open>tool_invoke\<close>: the request id is drawn before the reference of the frame.\<close>

definition invoke ::
  "(nat \<Rightarrow> py_exc option) \<Rightarrow> string \<Rightarrow> py_kvs \<Rightarrow> worker \<Rightarrow> py_exc option \<times> worker \<times> py_val list" where
  "invoke fails tool args s =
     (case next_ref s of (req_id, s1) \<Rightarrow>
        send_envelope fails (mkdict [(''kind'', PyStr ''tool_invoke''), (''req_id'', PyStr req_id), (''tool'', PyStr tool),
          (''args'', PyDict args)]) s1)"

definition ended :: "py_exc option \<Rightarrow> worker \<Rightarrow> worker \<times> py_val list" where
  "ended e s = (s\<lparr>cw_phase := Ended e\<rparr>, [])"

text \<open>After a send that is not guarded: an exception ends \<open>run\<close>, otherwise it goes on in the given phase.\<close>

definition proceed :: "phase \<Rightarrow> py_exc option \<times> worker \<times> py_val list \<Rightarrow> worker \<times> py_val list" where
  "proceed p r = (case r of (None, s, fs) \<Rightarrow> (s\<lparr>cw_phase := p\<rparr>, fs) | (Some e, s, fs) \<Rightarrow> (s\<lparr>cw_phase := Ended (Some e)\<rparr>, fs))"

text \<open>\<open>run\<close> up to the first wait: the log is emptied, the connection opened and the join sent.\<close>

definition worker_start ::
  "(nat \<Rightarrow> py_exc option) \<Rightarrow> py_exc option \<Rightarrow> int \<Rightarrow> worker \<Rightarrow> worker \<times> py_val list" where
  "worker_start fails ws_connect now s =
     (let s0 = s\<lparr>cw_log := []\<rparr> in
      case ws_connect of
        Some e \<Rightarrow> ended (Some e) s0
      | None \<Rightarrow>
          (case next_ref s0 of (jref, s1) \<Rightarrow>
             let s2 = s1\<lparr>cw_join_ref := jref\<rparr> in
             proceed (Joining (now + 15000)) (send_frame fails (frame jref jref (cw_topic s2) ''phx_join'' []) s2)))"

definition register :: "(nat \<Rightarrow> py_exc option) \<Rightarrow> worker \<Rightarrow> worker \<times> py_val list" where
  "register fails s =
     proceed Draining (send_envelope fails
       (mkdict [(''kind'', PyStr ''session_register''),
                (''chats'', PyList [PyDict (mkdict [(''chat_id'', PyStr (cw_chat_id s)), (''app_id'', PyStr (cw_app_id s))])]),
                (''workspace'', PyStr ''esr-dev'')]) s)"

definition on_join_reply ::
  "(string \<Rightarrow> py_val res) \<Rightarrow> (nat \<Rightarrow> py_exc option) \<Rightarrow> int \<Rightarrow> int \<Rightarrow> recv \<Rightarrow> worker \<Rightarrow> worker \<times> py_val list" where
  "on_join_reply json_loads fails deadline now m s =
     (if \<not> now < deadline then ended None s
      else case m of
        Timeout \<Rightarrow> (s, [])
      | OtherMsg \<Rightarrow> (s, [])
      | Closed \<Rightarrow> ended None s
      | Text data \<Rightarrow>
          (case read_frame json_loads data of
             Inl e \<Rightarrow> ended (Some e) s
           | Inr None \<Rightarrow> (s, [])
           | Inr (Some (topic, event, payload)) \<Rightarrow>
               if event = PyStr ''phx_reply'' \<and> topic = PyStr (cw_topic s) then
                 (case py_get (py_or payload (PyDict [])) ''status'' PyNone of
                    Inl e \<Rightarrow> ended (Some e) s
                  | Inr status \<Rightarrow> if status = PyStr ''ok'' then register fails s else ended None s)
               else (s, [])))"

definition on_register_reply :: "(string \<Rightarrow> py_val res) \<Rightarrow> recv \<Rightarrow> worker \<Rightarrow> worker \<times> py_val list" where
  "on_register_reply json_loads m s =
     (let go = (s\<lparr>cw_phase := Running\<rparr>, []) in
      case m of
        Text data \<Rightarrow> (case json_loads data of Inl e \<Rightarrow> ended (Some e) s | Inr _ \<Rightarrow> go)
      | _ \<Rightarrow> go)"

text \<open>\<open>content + "\n"\<close> where the content is no string.\<close>

definition concat_error :: "py_val \<Rightarrow> py_exc" where
  "concat_error content =
     (case content of
        PyList _ \<Rightarrow> type_error (''can only concatenate list (not '' @ [CHR 0x22] @ ''str'' @ [CHR 0x22] @ '') to list'')
      | PyTuple _ \<Rightarrow> type_error (''can only concatenate tuple (not '' @ [CHR 0x22] @ ''str'' @ [CHR 0x22] @ '') to tuple'')
      | _ \<Rightarrow> type_error (''unsupported operand type(s) for +: '' @ repr_str (type_name content) @ '' and '' @ repr_str ''str''))"

definition on_notification ::
  "(nat \<Rightarrow> py_exc option) \<Rightarrow> py_val \<Rightarrow> worker \<Rightarrow> worker \<times> py_val list" where
  "on_notification fails content s =
     (case content of
        PyStr c \<Rightarrow>
          let s1 = s\<lparr>cw_log := cw_log s @ c @ [CHR 0x0A]\<rparr> in
          (case echo_nonce c of
             None \<Rightarrow> (s1, [])
           | Some nonce \<Rightarrow> proceed Running (invoke fails ''_echo'' (mkdict [(''nonce'', PyStr nonce)]) s1))
      | _ \<Rightarrow> ended (Some (concat_error content)) s)"

definition on_envelope ::
  "(nat \<Rightarrow> py_exc option) \<Rightarrow> py_val \<Rightarrow> worker \<Rightarrow> worker \<times> py_val list" where
  "on_envelope fails payload s =
     (let p = py_or payload (PyDict []) in
      case py_get p ''kind'' (PyStr []) of
        Inl e \<Rightarrow> ended (Some e) s
      | Inr kind \<Rightarrow>
          if kind = PyStr ''notification'' then
            (case py_get p ''content'' (PyStr []) of Inl e \<Rightarrow> ended (Some e) s | Inr content \<Rightarrow> on_notification fails content s)
          else if kind = PyStr ''session_killed'' then ended None s
          else if kind = PyStr ''tool_result'' then
            (case py_get p ''ok'' (PyBool False) of
               Inl e \<Rightarrow> ended (Some e) s
             | Inr ok \<Rightarrow> (if py_truthy ok \<and> \<not> cw_ready_sent s then s\<lparr>cw_ready_sent := True\<rparr> else s, []))
          else (s, []))"

text \<open>One turn of the notification loop. A frame that is no JSON, or has too many items, is passed over.\<close>

definition on_message ::
  "(string \<Rightarrow> py_val res) \<Rightarrow> (nat \<Rightarrow> py_exc option) \<Rightarrow> recv \<Rightarrow> worker \<Rightarrow> worker \<times> py_val list" where
  "on_message json_loads fails m s =
     (case m of
        Timeout \<Rightarrow> (s, [])
      | Closed \<Rightarrow> ended None s
      | OtherMsg \<Rightarrow> (s, [])
      | Text data \<Rightarrow>
          (case read_frame json_loads data of
             Inl e \<Rightarrow> if exc_type e = ''ValueError'' \<or> exc_type e = ''JSONDecodeError'' then (s, []) else ended (Some e) s
           | Inr None \<Rightarrow> (s, [])
           | Inr (Some (_, event, payload)) \<Rightarrow>
               if event = PyStr ''envelope'' then on_envelope fails payload s
               else if event = PyStr ''phx_reply'' then
                 (case py_get (py_or payload (PyDict [])) ''status'' PyNone of Inl e \<Rightarrow> ended (Some e) s | Inr _ \<Rightarrow> (s, []))
               else if event = PyStr ''phx_error'' then ended None s
               else (s, [])))"

text \<open>\<open>_send_ready_with_retry\<close>, by turns. After the sleep the loop's condition is not tested again before the send.\<close>

definition ready_attempt :: "(nat \<Rightarrow> py_exc option) \<Rightarrow> int \<Rightarrow> nat \<Rightarrow> worker \<Rightarrow> worker \<times> py_val list" where
  "ready_attempt fails deadline attempt s =
     (case invoke fails ''reply'' (mkdict [(''chat_id'', PyStr (cw_chat_id s)),
             (''text'', PyStr (''session '' @ cw_session s @ '' ready''))]) s of
        (_, s1, fs) \<Rightarrow> (s1\<lparr>cw_ready := AtHead deadline (attempt + 1)\<rparr>, fs))"

definition ready_head :: "(nat \<Rightarrow> py_exc option) \<Rightarrow> int \<Rightarrow> int \<Rightarrow> nat \<Rightarrow> worker \<Rightarrow> worker \<times> py_val list" where
  "ready_head fails now deadline attempt s =
     (if now < deadline \<and> \<not> cw_ready_sent s then
        (if attempt > 0 then (s\<lparr>cw_ready := Sleeping deadline attempt\<rparr>, [])
         else ready_attempt fails deadline attempt s)
      else (s\<lparr>cw_ready := Finished\<rparr>, []))"

definition ready_turn :: "(nat \<Rightarrow> py_exc option) \<Rightarrow> int \<Rightarrow> worker \<Rightarrow> worker \<times> py_val list" where
  "ready_turn fails now s =
     (case cw_ready s of
        NotStarted \<Rightarrow> ready_head fails now (now + 30000) 0 s
      | AtHead deadline attempt \<Rightarrow> ready_head fails now deadline attempt s
      | Sleeping deadline attempt \<Rightarrow> ready_attempt fails deadline attempt s
      | Finished \<Rightarrow> (s, []))"

definition worker_step ::
  "(string \<Rightarrow> py_val res) \<Rightarrow> (nat \<Rightarrow> py_exc option) \<Rightarrow> worker \<Rightarrow> worker_event \<Rightarrow> worker \<times> py_val list" where
  "worker_step json_loads fails s e =
     (case (cw_phase s, e) of
        (Joining deadline, Recv now m) \<Rightarrow> on_join_reply json_loads fails deadline now m s
      | (Draining, Recv _ m) \<Rightarrow> on_register_reply json_loads m s
      | (Running, Recv _ m) \<Rightarrow> on_message json_loads fails m s
      | (Running, ReadyTurn now) \<Rightarrow> ready_turn fails now s
      | _ \<Rightarrow> (s, []))"

text \<open>The arguments of \<open>main\<close>, with their defaults from the environment.\<close>

definition worker_of_args :: "(string \<Rightarrow> string option) \<Rightarrow> string \<Rightarrow> string option \<Rightarrow> string option \<Rightarrow> worker" where
  "worker_of_args environ session chat_id app_id =
     new_worker session
       (case chat_id of Some c \<Rightarrow> c | None \<Rightarrow> (case environ ''FEISHU_TEST_CHAT_ID'' of Some c \<Rightarrow> c | None \<Rightarrow> ''oc_m1''))
       (case app_id of Some a \<Rightarrow> a | None \<Rightarrow> (case environ ''FEISHU_APP_ID'' of Some a \<Rightarrow> a | None \<Rightarrow> ''cli_mock''))"


section \<open>The one-shot client\<close>

text \<open>
  \<open>_run\<close> of \<^verbatim>\<open>mock_mcp_ctl.py\<close>: the exit code with the frames sent. The inputs of the second wait come with the clock before the test
  of the loop; the list of them ending while it waits is \<^const>\<open>None\<close>. Its connection opens and its sends succeed.
\<close>

definition is_result :: "string \<Rightarrow> py_val \<Rightarrow> py_kvs option" where
  "is_result req_id f =
     (case f of
        PyList [_, _, _, event, PyDict env] \<Rightarrow>
          if event = PyStr ''envelope'' \<and> dget_or ''kind'' PyNone env = PyStr ''tool_result'' \<and>
             dget_or ''req_id'' PyNone env = PyStr req_id
          then Some env else None
      | _ \<Rightarrow> None)"

fun await_result ::
  "(string \<Rightarrow> py_val res) \<Rightarrow> string \<Rightarrow> int \<Rightarrow> (int \<times> recv) list \<Rightarrow> (int \<times> py_kvs option) res option" where
  "await_result json_loads req_id deadline [] = None"
| "await_result json_loads req_id deadline ((now, m) # inputs) =
     (if \<not> now < deadline then Some (Inr (2, None))
      else case m of
        Timeout \<Rightarrow> Some (Inr (2, None))
      | Text data \<Rightarrow>
          (case json_loads data of
             Inl e \<Rightarrow> Some (Inl e)
           | Inr f \<Rightarrow>
               (case is_result req_id f of
                  Some env \<Rightarrow> Some (Inr (if py_truthy (dget_or ''ok'' PyNone env) then 0 else 1, Some env))
                | None \<Rightarrow> await_result json_loads req_id deadline inputs))
      | _ \<Rightarrow> await_result json_loads req_id deadline inputs)"

definition join_accepted :: "py_val \<Rightarrow> bool res" where
  "join_accepted reply =
     (case reply of
        PyList [_, _, _, event, p] \<Rightarrow>
          if event \<noteq> PyStr ''phx_reply'' then Inr False
          else rbind (py_get p ''status'' PyNone) (\<lambda>v. Inr (v = PyStr ''ok''))
      | _ \<Rightarrow> Inr False)"

definition ctl_run ::
  "(string \<Rightarrow> py_val res) \<Rightarrow> string \<Rightarrow> string \<Rightarrow> string \<Rightarrow> string \<Rightarrow> int \<Rightarrow> int \<Rightarrow> recv \<Rightarrow> (int \<times> recv) list \<Rightarrow>
   (int \<times> py_kvs option) res option \<times> py_val list"
where
  "ctl_run json_loads token session invoke_tool args_json timeout now join_reply inputs =
     (case json_loads args_json of
        Inl e \<Rightarrow> (Some (Inl e), [])
      | Inr args \<Rightarrow>
          let req_id = ''ctl-'' @ token; topic = ''cli:channel/'' @ session;
              join = frame ''1'' ''1'' topic ''phx_join'' [] in
          case join_reply of
            Timeout \<Rightarrow> (Some (Inl (Exc ''TimeoutError'' [])), [join])
          | Text data \<Rightarrow>
              (case rbind (json_loads data) join_accepted of
                 Inl e \<Rightarrow> (Some (Inl e), [join])
               | Inr False \<Rightarrow> (Some (Inr (2, None)), [join])
               | Inr True \<Rightarrow>
                   (await_result json_loads req_id (now + timeout) inputs,
                    [join, frame ''1'' ''2'' topic ''envelope''
                      (mkdict [(''kind'', PyStr ''tool_invoke''), (''req_id'', PyStr req_id), (''tool'', PyStr invoke_tool), (''args'', args)])]))
          | _ \<Rightarrow> (Some (Inr (2, None)), [join]))"


section \<open>Fresh references\<close>

text \<open>
  What every step keeps: who the worker is, and that what it sends is at most one envelope on its topic under a reference it has
  not used before.
\<close>

definition fresh_from :: "worker \<Rightarrow> worker \<times> py_val list \<Rightarrow> bool" where
  "fresh_from s r =
     (case r of (s', fs) \<Rightarrow>
        cw_session s' = cw_session s \<and> cw_join_ref s' = cw_join_ref s \<and> cw_ref s \<le> cw_ref s' \<and>
        (fs = [] \<or> (\<exists>n payload. fs = [frame (cw_join_ref s) (show_nat n) (cw_topic s) ''envelope'' payload] \<and>
           cw_ref s \<le> n \<and> n < cw_ref s')))"

lemma fresh_stay [simp]: "fresh_from s (s, [])"
  by (simp add: fresh_from_def)

lemma fresh_ended [simp]: "fresh_from s (ended e s)"
  by (simp add: fresh_from_def ended_def)

lemma invoke_fresh: "fresh_from s (snd (invoke fails tool args s))"
  by (auto simp: fresh_from_def invoke_def send_envelope_def send_frame_def next_ref_def cw_topic_def Let_def split: option.splits)

lemma fresh_proceed: "fresh_from s (proceed p r) = fresh_from s (snd r)"
  by (auto simp: fresh_from_def proceed_def split: prod.splits option.splits)

lemma fresh_log: "fresh_from (s\<lparr>cw_log := l\<rparr>) r = fresh_from s r"
  by (simp add: fresh_from_def cw_topic_def split: prod.splits)

lemma register_fresh: "fresh_from s (register fails s)"
  by (auto simp: fresh_from_def register_def proceed_def send_envelope_def send_frame_def next_ref_def cw_topic_def Let_def
      split: option.splits)

lemma on_notification_fresh: "fresh_from s (on_notification fails content s)"
proof (cases content)
  case (PyStr c)
  then show ?thesis using invoke_fresh [of "s\<lparr>cw_log := cw_log s @ c @ [CHR 0x0A]\<rparr>"]
    by (auto simp: on_notification_def Let_def fresh_proceed fresh_log fresh_from_def [of s "(_, [])"] split: option.splits)
qed (simp_all add: on_notification_def)

lemma on_envelope_fresh: "fresh_from s (on_envelope fails payload s)"
  by (auto simp: on_envelope_def Let_def on_notification_fresh fresh_from_def [of s "(_\<lparr>cw_ready_sent := _\<rparr>, [])"] split: sum.splits)

lemma on_message_fresh: "fresh_from s (on_message json_loads fails m s)"
  by (auto simp: on_message_def on_envelope_fresh split: recv.splits sum.splits option.splits)

lemma on_join_reply_fresh: "fresh_from s (on_join_reply json_loads fails deadline now m s)"
  by (auto simp: on_join_reply_def register_fresh split: recv.splits sum.splits option.splits)

lemma on_register_reply_fresh: "fresh_from s (on_register_reply json_loads m s)"
  by (auto simp: on_register_reply_def Let_def fresh_from_def [of s "(_\<lparr>cw_phase := _\<rparr>, [])"] split: recv.splits sum.splits)

lemma ready_attempt_fresh: "fresh_from s (ready_attempt fails deadline attempt s)"
proof -
  let ?args = "mkdict [(''chat_id'', PyStr (cw_chat_id s)), (''text'', PyStr (''session '' @ cw_session s @ '' ready''))]"
  obtain e s1 fs where i: "invoke fails ''reply'' ?args s = (e, s1, fs)" by (metis prod_cases3)
  from invoke_fresh [of s fails "''reply''" ?args] show ?thesis by (simp only: ready_attempt_def i) (simp add: fresh_from_def)
qed

lemma ready_turn_fresh: "fresh_from s (ready_turn fails now s)"
  by (auto simp: ready_turn_def ready_head_def ready_attempt_fresh fresh_from_def [of s "(_\<lparr>cw_ready := _\<rparr>, [])"] split: ready.splits)

lemma worker_step_fresh: "fresh_from s (worker_step json_loads fails s e)"
  by (auto simp: worker_step_def on_message_fresh on_join_reply_fresh on_register_reply_fresh ready_turn_fresh
      split: phase.splits worker_event.splits)


primrec worker_run ::
  "(string \<Rightarrow> py_val res) \<Rightarrow> (nat \<Rightarrow> py_exc option) \<Rightarrow> worker \<Rightarrow> worker_event list \<Rightarrow> worker \<times> py_val list" where
  "worker_run json_loads fails s [] = (s, [])"
| "worker_run json_loads fails s (e # es) =
     (case worker_step json_loads fails s e of (s1, fs) \<Rightarrow>
        case worker_run json_loads fails s1 es of (s2, gs) \<Rightarrow> (s2, fs @ gs))"

definition frame_ref :: "py_val \<Rightarrow> nat" where
  "frame_ref f = (case f of PyList (_ # PyStr r # _) \<Rightarrow> the (int_magnitude r) | _ \<Rightarrow> 0)"

lemma frame_ref [simp]: "frame_ref (frame j (show_nat n) t ev p) = n"
  by (simp add: frame_ref_def frame_def int_magnitude_show_nat)

lemma worker_run_refs:
  "worker_run json_loads fails s es = (s', fs) \<Longrightarrow>
   sorted_wrt (<) (map frame_ref fs) \<and> cw_ref s \<le> cw_ref s' \<and> (\<forall>f\<in>set fs. cw_ref s \<le> frame_ref f \<and> frame_ref f < cw_ref s')"
proof (induction es arbitrary: s fs)
  case (Cons e es)
  obtain s1 gs where st: "worker_step json_loads fails s e = (s1, gs)" by fastforce
  obtain hs where r: "worker_run json_loads fails s1 es = (s', hs)" "fs = gs @ hs"
    using Cons.prems st by (auto split: prod.splits)
  from worker_step_fresh [of s json_loads fails e] Cons.IH [OF r(1)] show ?case
    unfolding st fresh_from_def r(2) by (fastforce simp: sorted_wrt_append)
qed simp


section \<open>Probes\<close>

text \<open>What a notification says; \<^const>\<open>None\<close> for any other input.\<close>

definition said :: "(string \<Rightarrow> py_val res) \<Rightarrow> worker_event \<Rightarrow> string option" where
  "said json_loads e =
     (case e of
        Recv _ (Text data) \<Rightarrow>
          (case read_frame json_loads data of
             Inr (Some (_, event, PyDict p)) \<Rightarrow>
               if event = PyStr ''envelope'' \<and> dget_or ''kind'' (PyStr []) p = PyStr ''notification''
               then (case dget_or ''content'' (PyStr []) p of PyStr c \<Rightarrow> Some c | _ \<Rightarrow> None) else None
           | _ \<Rightarrow> None)
      | _ \<Rightarrow> None)"

text \<open>The nonce that a frame echoes.\<close>

definition echoed :: "py_val \<Rightarrow> string option" where
  "echoed f =
     (case f of
        PyList [_, _, _, _, PyDict p] \<Rightarrow>
          (case (dget ''tool'' p, dget ''args'' p) of
             (Some (PyStr t), Some (PyDict a)) \<Rightarrow>
               (if t = ''_echo'' then case dget ''nonce'' a of Some (PyStr n) \<Rightarrow> Some n | _ \<Rightarrow> None else None)
           | _ \<Rightarrow> None)
      | _ \<Rightarrow> None)"

lemma invoke_frames:
  "invoke fails tool args s = (e, s', fs) \<Longrightarrow>
   cw_log s' = cw_log s \<and> cw_phase s' = cw_phase s \<and>
   List.map_filter echoed fs = (if tool = ''_echo'' \<and> e = None then (case dget ''nonce'' args of Some (PyStr n) \<Rightarrow> [n] | _ \<Rightarrow> []) else [])"
  by (cases "fails (cw_sends s)")
    (auto simp: invoke_def send_envelope_def send_frame_def next_ref_def Let_def frame_def echoed_def map_filter_simps
      split: option.splits if_splits py_val.splits, metis)

text \<open>One step while the worker runs: what is said goes to the log, and its nonce is sent, unless the step ends the run.\<close>

definition faithful :: "string option \<Rightarrow> worker \<Rightarrow> worker \<times> py_val list \<Rightarrow> bool" where
  "faithful c s r =
     (case r of (s', fs) \<Rightarrow> cw_phase s = Running \<longrightarrow> (\<exists>x. cw_phase s' = Ended x) \<or>
        cw_phase s' = Running \<and> cw_log s' = cw_log s @ (case c of None \<Rightarrow> [] | Some t \<Rightarrow> t @ [CHR 0x0A]) \<and>
        List.map_filter echoed fs = (case Option.bind c echo_nonce of None \<Rightarrow> [] | Some n \<Rightarrow> [n]))"

lemma faithful_stay [simp]: "faithful None s (s, [])"
  by (simp add: faithful_def map_filter_simps)

lemma faithful_ended [simp]: "faithful c s (ended e s)"
  by (simp add: faithful_def ended_def)

lemma on_notification_faithful: "faithful (case content of PyStr c \<Rightarrow> Some c | _ \<Rightarrow> None) s (on_notification fails content s)"
proof (cases content)
  case (PyStr c)
  let ?s1 = "s\<lparr>cw_log := cw_log s @ c @ [CHR 0x0A]\<rparr>"
  show ?thesis
  proof (cases "echo_nonce c")
    case None
    with PyStr show ?thesis by (simp add: on_notification_def faithful_def map_filter_simps)
  next
    case (Some n)
    obtain e s2 fs where i: "invoke fails ''_echo'' (mkdict [(''nonce'', PyStr n)]) ?s1 = (e, s2, fs)" by (metis prod_cases3)
    have "on_notification fails content s = proceed Running (e, s2, fs)"
      by (simp only: PyStr on_notification_def py_val.case Some option.case Let_def i)
    with invoke_frames [OF i] PyStr Some show ?thesis by (simp add: faithful_def proceed_def split: option.splits)
  qed
qed (simp_all add: on_notification_def)

lemma ready_turn_faithful: "faithful None s (ready_turn fails now s)"
proof -
  have "faithful None s (ready_attempt fails deadline attempt s)" for deadline attempt
  proof -
    let ?args = "mkdict [(''chat_id'', PyStr (cw_chat_id s)), (''text'', PyStr (''session '' @ cw_session s @ '' ready''))]"
    obtain e s1 fs where i: "invoke fails ''reply'' ?args s = (e, s1, fs)" by (metis prod_cases3)
    from invoke_frames [OF i] show ?thesis by (simp only: ready_attempt_def i) (simp add: faithful_def)
  qed
  then show ?thesis
    by (auto simp: ready_turn_def ready_head_def faithful_def [of None s "(_\<lparr>cw_ready := _\<rparr>, [])"] map_filter_simps split: ready.splits)
qed


lemma on_envelope_faithful:
  "read_frame json_loads data = Inr (Some (topic, PyStr ''envelope'', payload)) \<Longrightarrow>
   faithful (said json_loads (Recv now (Text data))) s (on_envelope fails payload s)"
proof (cases "py_or payload (PyDict [])")
  case (PyDict p)
  assume r: "read_frame json_loads data = Inr (Some (topic, PyStr ''envelope'', payload))"
  have pay: "payload = PyDict p \<or> p = [] \<and> \<not> py_truthy payload" using PyDict by (auto simp: py_or_def split: if_splits)
  have said: "said json_loads (Recv now (Text data)) =
    (if dget_or ''kind'' (PyStr []) p = PyStr ''notification''
     then (case dget_or ''content'' (PyStr []) p of PyStr c \<Rightarrow> Some c | _ \<Rightarrow> None) else None)"
    using pay by (auto simp: said_def r dget_or_def split: py_val.splits)
  show ?thesis
    using on_notification_faithful [of "dget_or ''content'' (PyStr []) p" s fails]
    unfolding on_envelope_def Let_def PyDict said
    by (simp add: py_get_def faithful_def [of None s "(_\<lparr>cw_ready_sent := _\<rparr>, [])"] map_filter_simps)
qed (simp_all add: on_envelope_def Let_def py_get_def)

lemma said_other:
  "read_frame json_loads data = Inr (Some (topic, event, payload)) \<Longrightarrow> event \<noteq> PyStr ''envelope'' \<Longrightarrow>
   said json_loads (Recv now (Text data)) = None"
  by (simp add: said_def split: py_val.splits)

lemma on_message_faithful: "faithful (said json_loads (Recv now m)) s (on_message json_loads fails m s)"
proof (cases m)
  case (Text data)
  show ?thesis
  proof (cases "read_frame json_loads data")
    case (Inl e)
    then show ?thesis by (simp add: Text on_message_def said_def)
  next
    case (Inr f)
    show ?thesis
    proof (cases f)
      case None
      then show ?thesis using Inr by (simp add: Text on_message_def said_def)
    next
      case (Some g)
      obtain topic event payload where g: "g = (topic, event, payload)" by (metis prod_cases3)
      from on_envelope_faithful [of json_loads data topic payload now s fails] said_other [of json_loads data topic event payload now]
      show ?thesis
        by (auto simp: Text on_message_def Inr Some g split: sum.splits)
    qed
  qed
qed (simp_all add: on_message_def said_def)

lemma worker_step_faithful: "cw_phase s = Running \<Longrightarrow> faithful (said json_loads e) s (worker_step json_loads fails s e)"
  by (cases e) (auto simp: worker_step_def on_message_faithful ready_turn_faithful, simp add: said_def ready_turn_faithful)


text \<open>A run that has ended stays so.\<close>

lemma worker_run_ended: "cw_phase s = Ended e \<Longrightarrow> worker_run json_loads fails s es = (s, [])"
  by (induction es) (simp_all add: worker_step_def)

lemma worker_run_echoes:
  "cw_phase s = Running \<Longrightarrow> worker_run json_loads fails s es = (s', fs) \<Longrightarrow> cw_phase s' = Running \<Longrightarrow>
   List.map_filter echoed fs = List.map_filter echo_nonce (List.map_filter (said json_loads) es) \<and>
   cw_log s' = cw_log s @ concat (map (\<lambda>c. c @ [CHR 0x0A]) (List.map_filter (said json_loads) es))"
proof (induction es arbitrary: s fs)
  case (Cons e es)
  obtain s1 gs where st: "worker_step json_loads fails s e = (s1, gs)" by fastforce
  obtain hs where r: "worker_run json_loads fails s1 es = (s', hs)" "fs = gs @ hs"
    using Cons.prems(2) st by (auto split: prod.splits)
  have run: "cw_phase s1 = Running" and f: "cw_log s1 = cw_log s @ (case said json_loads e of None \<Rightarrow> [] | Some t \<Rightarrow> t @ [CHR 0x0A])"
    "List.map_filter echoed gs = (case Option.bind (said json_loads e) echo_nonce of None \<Rightarrow> [] | Some n \<Rightarrow> [n])"
    using worker_step_faithful [OF Cons.prems(1), of json_loads e fails] Cons.prems(1,3) r(1) worker_run_ended [of s1]
    by (auto simp: faithful_def st)
  have app: "List.map_filter echoed (gs @ hs) = List.map_filter echoed gs @ List.map_filter echoed hs"
    by (simp add: List.map_filter_def)
  from Cons.IH [OF run r(1) Cons.prems(3)] f show ?case
    by (cases "said json_loads e"; cases "Option.bind (said json_loads e) echo_nonce") (simp_all add: r(2) app map_filter_simps)
qed (simp add: map_filter_simps)

text \<open>
  The worker logs and echoes faithfully. From a running state, over any interleaving of received frames and turns of the
  announcing task after which it is still running, the log has grown by what the notifications said, one line
  each and in order, the nonces it has sent to the echo tool are those of the probes among them, once each and in
  order, and all frames it sent carry strictly increasing references.
\<close>

theorem probes_echoed_in_order:
  assumes "cw_phase s = Running" "worker_run json_loads fails s es = (s', fs)" "cw_phase s' = Running"
  shows "List.map_filter echoed fs = List.map_filter echo_nonce (List.map_filter (said json_loads) es) \<and>
    cw_log s' = cw_log s @ concat (map (\<lambda>c. c @ [CHR 0x0A]) (List.map_filter (said json_loads) es)) \<and>
    sorted_wrt (<) (map frame_ref fs)"
  using worker_run_echoes [OF assms] worker_run_refs [OF assms(2)] by blast

text \<open>Received frames as data: the witness reads them with \<^const>\<open>decode_val\<close>.\<close>

definition demo_recv :: "string \<Rightarrow> (string \<times> py_val) list \<Rightarrow> worker_event" where
  "demo_recv event payload =
     Recv 0 (Text (encode_val (PyList [PyNone, PyNone, PyStr ''cli:channel/s1'', PyStr event, PyDict (mkdict payload)])))"

definition demo_worker :: worker where
  "demo_worker = (new_worker ''s1'' ''oc_1'' ''cli_1'')\<lparr>cw_phase := Running, cw_join_ref := ''1'', cw_ref := 3\<rparr>"

definition demo_loads :: "string \<Rightarrow> py_val res" where
  "demo_loads data = Inr (decode_val data)"

lemma demo_read_frame:
  "read_frame demo_loads (encode_val (PyList [PyNone, PyNone, PyStr t, PyStr event, PyDict p])) = Inr (Some (PyStr t, PyStr event, PyDict p))"
  by (simp add: read_frame_def demo_loads_def py_len_def py_iter_def)

theorem probes_echoed_in_order_witness:
  "case worker_run demo_loads (\<lambda>_. None) demo_worker
      [demo_recv ''envelope'' [(''kind'', PyStr ''notification''), (''content'', PyStr ''ECHO-PROBE:  n1 '')],
       ReadyTurn 5] of (s', fs) \<Rightarrow>
     List.map_filter echoed fs = [''n1''] \<and> length fs = 2 \<and> sorted_wrt (<) (map frame_ref fs)"
proof -
  let ?e = "demo_recv ''envelope'' [(''kind'', PyStr ''notification''), (''content'', PyStr ''ECHO-PROBE:  n1 '')]"
  obtain s' fs where r: "worker_run demo_loads (\<lambda>_. None) demo_worker [?e, ReadyTurn 5] = (s', fs)" by fastforce
  have n: "echo_nonce ''ECHO-PROBE:  n1 '' = Some ''n1''" by code_simp
  have said: "said demo_loads ?e = Some ''ECHO-PROBE:  n1 ''" "said demo_loads (ReadyTurn 5) = None"
    by (simp_all add: said_def demo_recv_def demo_read_frame dget_or_def)
  have "cw_phase s' = Running \<and> length fs = 2"
    using r n by (auto simp: demo_recv_def demo_worker_def new_worker_def worker_step_def on_message_def demo_read_frame on_envelope_def
        py_get_def dget_or_def on_notification_def proceed_def invoke_def send_envelope_def send_frame_def next_ref_def py_or_def
        ready_turn_def ready_head_def ready_attempt_def Let_def)
  with probes_echoed_in_order [OF _ r] show ?thesis
    unfolding r prod.case by (simp add: n said map_filter_simps demo_worker_def)
qed

text \<open>
  Any successful tool result confirms the announcement, also the result of an echo: the request id is not looked at.
\<close>

lemma any_result_confirms_ready:
  "cw_phase s = Running \<Longrightarrow>
   cw_ready_sent (fst (worker_step demo_loads fails s (demo_recv ''envelope'' [(''kind'', PyStr ''tool_result''), (''req_id'', r), (''ok'', PyBool True)])))"
  by (simp add: demo_recv_def worker_step_def on_message_def demo_read_frame on_envelope_def py_get_def dget_or_def py_or_def Let_def)

interpretation mock_worker: reactive "worker_step json_loads fails"
  "\<lambda>s :: worker. cw_join_ref s = jref \<and> cw_session s = sid"
  "\<lambda>s e f. \<exists>n payload. f = frame jref (show_nat n) (''cli:channel/'' @ sid) ''envelope'' payload \<and> n < cw_ref s"
  for json_loads fails jref sid
proof
  fix s :: worker and e a
  assume "cw_join_ref s = jref \<and> cw_session s = sid"
  with worker_step_fresh [of s json_loads fails e]
  show "cw_join_ref (fst (worker_step json_loads fails s e)) = jref \<and> cw_session (fst (worker_step json_loads fails s e)) = sid"
    and "a \<in> set (snd (worker_step json_loads fails s e)) \<Longrightarrow>
      \<exists>n payload. a = frame jref (show_nat n) (''cli:channel/'' @ sid) ''envelope'' payload \<and> n < cw_ref (fst (worker_step json_loads fails s e))"
    unfolding fresh_from_def cw_topic_def by (auto split: prod.splits; blast)+
qed


section \<open>The result of the one-shot client\<close>

text \<open>
  The result that is the first with the given request id among the inputs, and came before the deadline.
\<close>

definition first_result ::
  "(string \<Rightarrow> py_val res) \<Rightarrow> string \<Rightarrow> int \<Rightarrow> (int \<times> recv) list \<Rightarrow> py_kvs \<Rightarrow> bool" where
  "first_result json_loads req_id deadline inputs env =
     (\<exists>pre now data f post. inputs = pre @ (now, Text data) # post \<and> now < deadline \<and> json_loads data = Inr f \<and>
        is_result req_id f = Some env \<and>
        (\<forall>(t, m)\<in>set pre. \<forall>d g. m = Text d \<and> json_loads d = Inr g \<longrightarrow> is_result req_id g = None))"

lemma first_result_here:
  "now < deadline \<Longrightarrow> json_loads data = Inr f \<Longrightarrow> is_result req_id f = Some env \<Longrightarrow>
   first_result json_loads req_id deadline ((now, Text data) # inputs) env"
  unfolding first_result_def by (intro exI [of _ "[]"] exI [of _ now] exI [of _ data] exI [of _ f] exI [of _ inputs]) simp

lemma first_result_later:
  assumes "first_result json_loads req_id deadline inputs env"
    and "\<And>d g. m = Text d \<Longrightarrow> json_loads d = Inr g \<Longrightarrow> is_result req_id g = None"
  shows "first_result json_loads req_id deadline ((now, m) # inputs) env"
proof -
  from assms(1) obtain pre t data f post where p: "inputs = pre @ (t, Text data) # post" "t < deadline" "json_loads data = Inr f"
    "is_result req_id f = Some env" "\<forall>(t, m)\<in>set pre. \<forall>d g. m = Text d \<and> json_loads d = Inr g \<longrightarrow> is_result req_id g = None"
    unfolding first_result_def by blast
  show ?thesis unfolding first_result_def
    using p assms(2) by (intro exI [of _ "(now, m) # pre"] exI [of _ t] exI [of _ data] exI [of _ f] exI [of _ post]) simp
qed

text \<open>
  What the client returns is the first result with its own request id, received in time; the exit code says whether it was a success.
\<close>

lemma await_result_own:
  "await_result json_loads req_id deadline inputs = Some (Inr (code, Some env)) \<Longrightarrow>
   first_result json_loads req_id deadline inputs env \<and> dget_or ''req_id'' PyNone env = PyStr req_id \<and>
   code = (if py_truthy (dget_or ''ok'' PyNone env) then 0 else 1)"
proof (induction json_loads req_id deadline inputs rule: await_result.induct)
  case (2 json_loads req_id deadline now m inputs)
  have own: "is_result req_id f = Some e \<Longrightarrow> dget_or ''req_id'' PyNone e = PyStr req_id" for f e
    by (auto simp: is_result_def split: py_val.splits list.splits if_splits)
  show ?case
  proof (cases m)
    case (Text data)
    with 2 show ?thesis
      by (auto split: if_splits sum.splits option.splits intro: first_result_here first_result_later own)
  qed (use 2 in \<open>auto split: if_splits intro: first_result_later\<close>)
qed simp


lemma ctl_result_is_own:
  assumes "ctl_run json_loads token session tool args_json timeout now join_reply inputs = (Some (Inr (code, Some env)), sent)"
  shows "first_result json_loads (''ctl-'' @ token) (now + timeout) inputs env \<and>
    dget_or ''req_id'' PyNone env = PyStr (''ctl-'' @ token) \<and> code = (if py_truthy (dget_or ''ok'' PyNone env) then 0 else 1) \<and>
    (\<exists>args. json_loads args_json = Inr args \<and> sent = [frame ''1'' ''1'' (''cli:channel/'' @ session) ''phx_join'' [],
      frame ''1'' ''2'' (''cli:channel/'' @ session) ''envelope'' (mkdict [(''kind'', PyStr ''tool_invoke''),
        (''req_id'', PyStr (''ctl-'' @ token)), (''tool'', PyStr tool), (''args'', args)])])"
proof -
  obtain args where a: "json_loads args_json = Inr args" using assms by (auto simp: ctl_run_def split: sum.splits)
  obtain data where d: "join_reply = Text data" using assms by (auto simp: ctl_run_def a Let_def split: recv.splits)
  have j: "rbind (json_loads data) join_accepted = Inr True" using assms by (auto simp: ctl_run_def a d Let_def split: sum.splits bool.splits)
  from assms have "await_result json_loads (''ctl-'' @ token) (now + timeout) inputs = Some (Inr (code, Some env))"
    by (simp add: ctl_run_def a d j Let_def)
  from await_result_own [OF this] assms show ?thesis by (simp add: ctl_run_def a d j Let_def)
qed

end
