(* ===== verification/Bridge_Process.thy ===== *)
theory Bridge_Process
  imports Cc_Bridge
begin

text \<open>
  The process of the Claude Code bridge (\<^verbatim>\<open>py/src/cc_channel_runner/__main__.py\<close>) as a whole: the task that connects, joins and forwards
  frames, beside the read loop of the client, its heartbeats, the tool calls of the MCP server and the end of either task.

  The state is the client, the MCP server and how far each task is. A run is any interleaving of their segments while stdio is open; it
  records the messages the read loop took from the socket. It starts once the join has been sent: what Claude Code calls before that
  fails in \<open>push\<close> and leaves the client as it is (\<open>tool_before_join\<close>).
\<close>

section \<open>The process\<close>

datatype ws_stage = JoinWaits string | Looping | WsOver task_end

record bridge_process =
  bp_client :: phx_client
  bp_bridge :: bridge
  bp_ws :: ws_stage
  bp_mcp :: task_end

definition channel_topic :: "string \<Rightarrow> string" where
  "channel_topic session_id = ''cli:channel/'' @ session_id"

definition ws_over :: "task_end \<Rightarrow> phx_client \<Rightarrow> bridge_process \<Rightarrow> bridge_process" where
  "ws_over t c p = p\<lparr>bp_client := c, bp_ws := WsOver t\<rparr>"

text \<open>\<open>ws_lifecycle\<close> up to the wait for the reply to the join, from the freshly built client and server; stdio is open.\<close>

definition bridge_start ::
  "(nat \<Rightarrow> py_exc option) \<Rightarrow> (py_val \<Rightarrow> string res) \<Rightarrow> ws_send \<Rightarrow> string \<Rightarrow> bridge_process" where
  "bridge_start ws_connect json_dumps send session_id =
     (let p = \<lparr>bp_client = new_phx_client, bp_bridge = mcp_start (bridge_setup session_id), bp_ws = WsOver TaskRuns, bp_mcp = TaskRuns\<rparr> in
      case phx_connect ws_connect (bp_client p) of
        (Inl e, _, c) \<Rightarrow> ws_over (TaskRaised e) c p
      | (Inr _, _, c) \<Rightarrow>
          (case phx_join_start json_dumps send (channel_topic session_id) PyNone c of
             (Inl e, c1) \<Rightarrow> ws_over (TaskRaised e) c1 p
           | (Inr ref, c1) \<Rightarrow> p\<lparr>bp_client := c1, bp_ws := JoinWaits ref\<rparr>))"

text \<open>One turn of the task: the reply to the join, or the next frame of \<open>receive()\<close>.\<close>

definition ws_turn :: "string \<Rightarrow> bridge_process \<Rightarrow> bridge_process" where
  "ws_turn session_id p =
     (case bp_ws p of
        JoinWaits ref \<Rightarrow>
          (case push_and_await_finish ref (bp_client p) of
             None \<Rightarrow> p
           | Some (Inl e, c) \<Rightarrow> ws_over (TaskRaised e) c p
           | Some (Inr reply, c) \<Rightarrow>
               (case phx_join_finish (channel_topic session_id) reply of
                  Inl e \<Rightarrow> ws_over (TaskRaised e) c p
                | Inr _ \<Rightarrow> p\<lparr>bp_client := c, bp_ws := Looping\<rparr>))
      | Looping \<Rightarrow>
          (case phx_receive (bp_client p) of
             (ReceiveEnds, c) \<Rightarrow> ws_over TaskReturned c p
           | (ReceiveWaits, c) \<Rightarrow> p
           | (ReceiveYields f, c) \<Rightarrow>
               (case receive_frame f (bp_bridge p) of
                  (Inl e, b) \<Rightarrow> ws_over (TaskRaised e) c (p\<lparr>bp_bridge := b\<rparr>)
                | (Inr _, b) \<Rightarrow> p\<lparr>bp_client := c, bp_bridge := b\<rparr>))
      | WsOver _ \<Rightarrow> p)"

definition socket_text :: "(string \<Rightarrow> py_val res) \<Rightarrow> string \<Rightarrow> phx_client \<Rightarrow> phx_client" where
  "socket_text json_loads raw c =
     (case recv_text json_loads raw c of (RecvDies _, c1) \<Rightarrow> recv_loop_ended c1 | (_, c1) \<Rightarrow> c1)"

text \<open>\<open>main\<close>: \<^const>\<open>None\<close> while both tasks run, otherwise how the process ends.\<close>

definition bridge_exit :: "bridge_process \<Rightarrow> (unit res \<times> phx_client) option" where
  "bridge_exit p = bridge_main_end (bp_mcp p) (case bp_ws p of WsOver t \<Rightarrow> t | _ \<Rightarrow> TaskRuns) (bp_client p)"

inductive bridge_run :: "(string \<Rightarrow> py_val res) \<Rightarrow> string \<Rightarrow> bridge_process \<Rightarrow> string list \<Rightarrow> bridge_process \<Rightarrow> bool"
  for json_loads session_id p0 where
  run_start: "bridge_run json_loads session_id p0 [] p0"
| run_text: "bridge_run json_loads session_id p0 ts p \<Longrightarrow> bc_recv_task (bp_client p) \<Longrightarrow>
    bridge_run json_loads session_id p0 (ts @ [raw]) (p\<lparr>bp_client := socket_text json_loads raw (bp_client p)\<rparr>)"
| run_closed: "bridge_run json_loads session_id p0 ts p \<Longrightarrow>
    bridge_run json_loads session_id p0 ts (p\<lparr>bp_client := recv_loop_ended (bp_client p)\<rparr>)"
| run_turn: "bridge_run json_loads session_id p0 ts p \<Longrightarrow> bridge_run json_loads session_id p0 ts (ws_turn session_id p)"
| run_heartbeat: "bridge_run json_loads session_id p0 ts p \<Longrightarrow> bc_heartbeat_task (bp_client p) \<Longrightarrow>
    bridge_run json_loads session_id p0 ts (p\<lparr>bp_client := phx_heartbeat dumps send (bp_client p)\<rparr>)"
| run_tool: "bridge_run json_loads session_id p0 ts p \<Longrightarrow>
    call_tool_start dumps send req_id name arguments (bp_bridge p) (bp_client p) = (t, b, c) \<Longrightarrow>
    bridge_run json_loads session_id p0 ts (p\<lparr>bp_bridge := b, bp_client := c\<rparr>)"
| run_tool_pushed: "bridge_run json_loads session_id p0 ts p \<Longrightarrow> push_and_await_finish ref (bp_client p) = Some (r, c) \<Longrightarrow>
    dispatch_tool_pushed dumps req_id r (bp_bridge p) = (t, b) \<Longrightarrow>
    bridge_run json_loads session_id p0 ts (p\<lparr>bp_bridge := b, bp_client := c\<rparr>)"
| run_tool_finish: "bridge_run json_loads session_id p0 ts p \<Longrightarrow>
    dispatch_tool_finish dumps req_id name timed_out (bp_bridge p) = (t, b) \<Longrightarrow>
    bridge_run json_loads session_id p0 ts (p\<lparr>bp_bridge := b\<rparr>)"


section \<open>Forwarding under every interleaving\<close>

text \<open>The frame a message carries; frames other than replies are the ones that reach the forwarding loop whoever waits.\<close>

definition frame_of :: "(string \<Rightarrow> py_val res) \<Rightarrow> string \<Rightarrow> py_kvs option" where
  "frame_of json_loads raw =
     (case json_loads raw of Inr (PyList [j, r, t, e, q]) \<Rightarrow> Some (inbound_frame j r t e q) | _ \<Rightarrow> None)"

definition pushed_frame :: "py_kvs \<Rightarrow> bool" where
  "pushed_frame f = (frame_event f \<noteq> PyStr ''phx_reply'')"

abbreviation pushed :: "(string \<Rightarrow> py_val res) \<Rightarrow> string list \<Rightarrow> py_kvs list" where
  "pushed json_loads ts \<equiv> filter pushed_frame (List.map_filter (frame_of json_loads) ts)"

lemma not_pushed: "\<not> pushed_frame f \<Longrightarrow> frame_stop f = None \<and> \<not> frame_notifies f"
  by (auto simp: pushed_frame_def frame_stop_def frame_notifies_def frame_kind_def)

lemma notifies_no_stop: "frame_notifies f \<Longrightarrow> frame_stop f = None"
  by (auto simp: frame_notifies_def frame_stop_def frame_kind_def split: if_splits)

lemma route_frame_inbox:
  "route_frame f r e c = (x, c') \<Longrightarrow> frame_event f = e \<Longrightarrow>
   filter pushed_frame (bc_inbox c') = filter pushed_frame (bc_inbox c) @ (if pushed_frame f then [f] else [])"
  by (auto simp: route_frame_def Let_def pushed_frame_def phx_resolve_def split: if_splits py_val.splits option.splits prod.splits)

lemma socket_text_inbox:
  "filter pushed_frame (bc_inbox (socket_text json_loads raw c)) = filter pushed_frame (bc_inbox c) @ pushed json_loads [raw]"
proof (cases "\<exists>j r t e q. json_loads raw = Inr (PyList [j, r, t, e, q])")
  case True
  then obtain j r t e q where l: "json_loads raw = Inr (PyList [j, r, t, e, q])" by blast
  obtain x c1 where rt: "route_frame (inbound_frame j r t e q) r e c = (x, c1)" by fastforce
  have "frame_event (inbound_frame j r t e q) = e" by (simp add: frame_event_def inbound_frame_def dget_or_def)
  from route_frame_inbox [OF rt this] show ?thesis
    by (cases x) (simp_all add: socket_text_def recv_text_def l rt frame_of_def map_filter_simps recv_loop_ended_def)
next
  case False
  then show ?thesis
    by (auto simp: socket_text_def recv_text_def frame_of_def map_filter_simps split: sum.splits py_val.splits list.splits)
qed


text \<open>Heartbeats and tool calls leave the queue and the written notifications alone.\<close>

lemma phx_send_inbox: "phx_send dumps send f c = (r, c') \<Longrightarrow> bc_inbox c' = bc_inbox c"
  using phx_send_sent by fastforce

lemma heartbeat_inbox: "bc_inbox (phx_heartbeat dumps send c) = bc_inbox c"
  by (auto simp: phx_heartbeat_def phx_next_ref_def Let_def dest: phx_send_inbox split: prod.splits sum.splits)

lemma push_start_inbox: "phx_push_start dumps send topic event payload c = (r, c') \<Longrightarrow> bc_inbox c' = bc_inbox c"
  by (auto simp: phx_push_start_def push_and_await_start_def phx_next_ref_def phx_forget_def Let_def
      dest!: phx_send_inbox split: if_splits option.splits prod.splits sum.splits)

lemma finish_inbox: "push_and_await_finish ref c = Some (r, c') \<Longrightarrow> bc_inbox c' = bc_inbox c"
  by (auto simp: push_and_await_finish_def phx_forget_def)

lemma dispatch_start_frame:
  "dispatch_tool_start dumps send req_id tool arguments b c = (t, b', c') \<Longrightarrow>
   bc_inbox c' = bc_inbox c \<and> br_written b' = br_written b \<and> br_write_stream b' = br_write_stream b"
  by (auto simp: dispatch_tool_start_def forget_call_def Let_def dest: push_start_inbox
      split: bool.splits option.splits prod.splits sum.splits)

lemma call_tool_frame:
  "call_tool_start dumps send req_id name arguments b c = (t, b', c') \<Longrightarrow>
   bc_inbox c' = bc_inbox c \<and> br_written b' = br_written b \<and> br_write_stream b' = br_write_stream b"
  unfolding call_tool_start_def by (auto dest: dispatch_start_frame split: if_splits)

lemma tool_before_join:
  assumes "\<not> bc_ws c \<or> bc_join_refs c = []" "call_tool_start dumps send req_id name arguments b c = (t, b', c')"
  shows "c' = c \<and> (\<exists>r. t = CallOver r)"
proof -
  have "c' = c \<and> (\<exists>r. t = CallOver r)" if "dispatch_tool_start dumps send req_id tool arguments b c = (t, b', c')" for tool
    using that assms(1) by (auto simp: dispatch_tool_start_def phx_push_start_def Let_def split: if_splits bool.splits option.splits prod.splits sum.splits)
  with assms(2) show ?thesis unfolding call_tool_start_def by (auto split: if_splits)
qed

lemma pushed_tool_frame:
  "dispatch_tool_pushed dumps req_id r b = (t, b') \<Longrightarrow> br_written b' = br_written b \<and> br_write_stream b' = br_write_stream b"
  by (auto simp: dispatch_tool_pushed_def forget_call_def split: sum.splits prod.splits if_splits)

lemma finish_tool_frame:
  "dispatch_tool_finish dumps req_id name timed_out b = (t, b') \<Longrightarrow> br_written b' = br_written b \<and> br_write_stream b' = br_write_stream b"
  by (auto simp: dispatch_tool_finish_def forget_call_def split: option.splits if_splits)

text \<open>
  The invariant: what was pushed on the socket is what the task has taken, then what is queued; the notifications written are those of
  what it has taken; only the last frame taken may have ended it.
\<close>

definition forwards :: "py_kvs list \<Rightarrow> bridge_process \<Rightarrow> bool" where
  "forwards fs p \<longleftrightarrow> br_write_stream (bp_bridge p) \<and>
     (\<exists>taken. fs = taken @ filter pushed_frame (bc_inbox (bp_client p)) \<and>
        br_written (bp_bridge p) = map channel_message (filter frame_notifies taken) \<and>
        (\<forall>f\<in>set (butlast taken). frame_stop f = None) \<and>
        (\<forall>e. taken \<noteq> [] \<and> frame_stop (last taken) = Some e \<longrightarrow> bp_ws p = WsOver (TaskRaised e)))"

lemma forwardsI:
  "br_write_stream (bp_bridge p) \<Longrightarrow> fs = taken @ filter pushed_frame (bc_inbox (bp_client p)) \<Longrightarrow>
   br_written (bp_bridge p) = map channel_message (filter frame_notifies taken) \<Longrightarrow> \<forall>f\<in>set (butlast taken). frame_stop f = None \<Longrightarrow>
   (\<And>e. taken \<noteq> [] \<Longrightarrow> frame_stop (last taken) = Some e \<Longrightarrow> bp_ws p = WsOver (TaskRaised e)) \<Longrightarrow> forwards fs p"
  unfolding forwards_def by blast

lemma forwardsE:
  assumes "forwards fs p"
  obtains taken where "br_write_stream (bp_bridge p)" "fs = taken @ filter pushed_frame (bc_inbox (bp_client p))"
    "br_written (bp_bridge p) = map channel_message (filter frame_notifies taken)" "\<forall>f\<in>set (butlast taken). frame_stop f = None"
    "\<And>e. taken \<noteq> [] \<Longrightarrow> frame_stop (last taken) = Some e \<Longrightarrow> bp_ws p = WsOver (TaskRaised e)"
  using assms unfolding forwards_def by blast

lemma forwards_same:
  assumes "forwards fs p" "filter pushed_frame (bc_inbox (bp_client p')) = filter pushed_frame (bc_inbox (bp_client p))"
    "br_written (bp_bridge p') = br_written (bp_bridge p)" "br_write_stream (bp_bridge p') = br_write_stream (bp_bridge p)"
    "bp_ws p' = bp_ws p \<or> (\<forall>t. bp_ws p \<noteq> WsOver t)"
  shows "forwards fs p'"
  using assms(1)
proof (rule forwardsE)
  fix taken assume t: "br_write_stream (bp_bridge p)" "fs = taken @ filter pushed_frame (bc_inbox (bp_client p))"
    "br_written (bp_bridge p) = map channel_message (filter frame_notifies taken)" "\<forall>f\<in>set (butlast taken). frame_stop f = None"
    "\<And>e. taken \<noteq> [] \<Longrightarrow> frame_stop (last taken) = Some e \<Longrightarrow> bp_ws p = WsOver (TaskRaised e)"
  have "bp_ws p' = WsOver (TaskRaised e)" if "taken \<noteq> []" "frame_stop (last taken) = Some e" for e
    using t(5) [OF that] assms(5) by simp
  with t assms(2-4) show ?thesis by (intro forwardsI [of p' fs taken]) simp_all
qed

lemma forwards_text:
  assumes "forwards fs p"
  shows "forwards (fs @ pushed json_loads [raw]) (p\<lparr>bp_client := socket_text json_loads raw (bp_client p)\<rparr>)"
  using assms by (rule forwardsE) (rule forwardsI, simp_all add: socket_text_inbox)

lemma forwards_frame:
  assumes "forwards fs p" "bp_ws p = Looping" "bc_inbox (bp_client p) = f # rest" "bc_inbox c = rest"
  shows "forwards fs (case receive_frame f (bp_bridge p) of
    (Inl e, b) \<Rightarrow> ws_over (TaskRaised e) c (p\<lparr>bp_bridge := b\<rparr>) | (Inr _, b) \<Rightarrow> p\<lparr>bp_client := c, bp_bridge := b\<rparr>)"
  using assms(1)
proof (rule forwardsE)
  fix taken assume w: "br_write_stream (bp_bridge p)" and fs0: "fs = taken @ filter pushed_frame (bc_inbox (bp_client p))"
    and wr: "br_written (bp_bridge p) = map channel_message (filter frame_notifies taken)" and bl: "\<forall>g\<in>set (butlast taken). frame_stop g = None"
    and la: "\<And>e. taken \<noteq> [] \<Longrightarrow> frame_stop (last taken) = Some e \<Longrightarrow> bp_ws p = WsOver (TaskRaised e)"
  have "taken \<noteq> [] \<Longrightarrow> frame_stop (last taken) = None" using la assms(2) by (cases "frame_stop (last taken)") auto
  then have all: "\<forall>g\<in>set taken. frame_stop g = None" using bl by (cases taken rule: rev_cases) auto
  define more where "more = (if pushed_frame f then [f] else [])"
  have fs: "fs = (taken @ more) @ filter pushed_frame rest" using fs0 assms(3) by (simp add: more_def)
  show ?thesis
  proof (cases "frame_stop f")
    case (Some e)
    then have m: "more = [f]" and n: "\<not> frame_notifies f" using not_pushed notifies_no_stop by (fastforce simp: more_def)+
    have r: "receive_frame f (bp_bridge p) = (Inl e, bp_bridge p)" using Some by (simp add: receive_frame_cases)
    show ?thesis unfolding r using Some w wr fs all m n assms(4)
      by (intro forwardsI [of _ _ "taken @ more"]) (simp_all add: ws_over_def)
  next
    case None
    define b where "b = (if frame_notifies f then send_channel_notification (build_notification_params (frame_kvs f)) (bp_bridge p)
        else if frame_kind f = Some (PyStr ''tool_result'') then resolve_pending_tool_call (frame_kvs f) (bp_bridge p) else bp_bridge p)"
    have r: "receive_frame f (bp_bridge p) = (Inr (), b)" using None by (simp add: receive_frame_cases b_def)
    have "br_written b = map channel_message (filter frame_notifies (taken @ more))" "br_write_stream b"
      using w wr not_pushed [of f] by (auto simp: b_def more_def send_channel_notification_def channel_message_def)
    moreover have st: "\<forall>g\<in>set (taken @ more). frame_stop g = None" using all None by (auto simp: more_def)
    moreover have "\<forall>g\<in>set (butlast (taken @ more)). frame_stop g = None" using st by (meson in_set_butlastD)
    moreover have "taken @ more \<noteq> [] \<Longrightarrow> frame_stop (last (taken @ more)) = None" using st last_in_set by blast
    ultimately show ?thesis unfolding r using fs assms(4)
      by (intro forwardsI [of _ _ "taken @ more"]) (simp_all only: bridge_process.simps bridge_process.select_convs prod.case sum.case, simp_all)
  qed
qed


lemma forwards_turn: "forwards fs p \<Longrightarrow> forwards fs (ws_turn session_id p)"
proof (cases "bp_ws p")
  case (JoinWaits ref)
  assume f: "forwards fs p"
  have "bc_inbox (bp_client (ws_turn session_id p)) = bc_inbox (bp_client p) \<and> bp_bridge (ws_turn session_id p) = bp_bridge p"
    using JoinWaits by (auto simp: ws_turn_def ws_over_def dest: finish_inbox split: option.splits prod.splits sum.splits)
  then show ?thesis using JoinWaits by (intro forwards_same [OF f]) simp_all
next
  case Looping
  assume f: "forwards fs p"
  obtain x c where r: "phx_receive (bp_client p) = (x, c)" by fastforce
  show ?thesis
  proof (cases x)
    case ReceiveEnds
    then have "bc_inbox c = bc_inbox (bp_client p)" using r by (auto simp: phx_receive_def split: if_splits list.splits)
    then show ?thesis using Looping r ReceiveEnds by (intro forwards_same [OF f]) (simp_all add: ws_turn_def ws_over_def)
  next
    case ReceiveWaits
    then show ?thesis using f Looping r by (simp add: ws_turn_def)
  next
    case (ReceiveYields g)
    then obtain rest where "bc_inbox (bp_client p) = g # rest" "bc_inbox c = rest"
      using r by (auto simp: phx_receive_def split: if_splits list.splits)
    from forwards_frame [OF f Looping this] show ?thesis using Looping r ReceiveYields by (simp add: ws_turn_def)
  qed
qed (simp add: ws_turn_def)

lemma connect_inbox: "connect_loop wc n bs e c = (r, sl, c') \<Longrightarrow> bc_inbox c' = bc_inbox c"
  by (induction bs arbitrary: n e sl) (auto split: option.splits prod.splits)

lemma join_start_inbox: "phx_join_start dumps send topic payload c = (r, c') \<Longrightarrow> bc_inbox c' = bc_inbox c"
  by (auto simp: phx_join_start_def push_and_await_start_def phx_next_ref_def phx_forget_def Let_def
      dest!: phx_send_inbox split: if_splits prod.splits sum.splits)

lemma forwards_start: "forwards [] (bridge_start wc dumps send session_id)"
proof -
  let ?p = "bridge_start wc dumps send session_id"
  have b: "bp_bridge ?p = mcp_start (bridge_setup session_id)"
    by (auto simp: bridge_start_def Let_def ws_over_def split: prod.splits sum.splits)
  have "bc_inbox (bp_client ?p) = []"
    by (auto simp: bridge_start_def Let_def ws_over_def phx_connect_def new_phx_client_def
        dest!: connect_inbox join_start_inbox split: prod.splits sum.splits)
  then show ?thesis
    by (intro forwardsI [of _ _ "[]"]) (simp_all add: b mcp_start_def bridge_setup_def set_session_id_def set_phx_client_def new_bridge_def)
qed

lemma start_mcp: "bp_mcp (bridge_start wc dumps send session_id) = TaskRuns"
  by (auto simp: bridge_start_def Let_def ws_over_def split: prod.splits sum.splits)

lemma turn_mcp: "bp_mcp (ws_turn session_id p) = bp_mcp p"
  by (auto simp: ws_turn_def ws_over_def split: ws_stage.splits option.splits prod.splits sum.splits receive_turn.splits)

lemma run_forwards:
  assumes "bridge_run json_loads session_id p0 ts p" "forwards [] p0"
  shows "forwards (pushed json_loads ts) p \<and> bp_mcp p = bp_mcp p0"
  using assms
proof (induction rule: bridge_run.induct)
  case run_start
  then show ?case by (simp add: map_filter_simps)
next
  case (run_text ts p raw)
  have "pushed json_loads (ts @ [raw]) = pushed json_loads ts @ pushed json_loads [raw]" by (simp add: List.map_filter_def)
  with run_text forwards_text [of "pushed json_loads ts" p json_loads raw] show ?case by simp
next
  case (run_closed ts p)
  then show ?case by (auto intro: forwards_same simp: recv_loop_ended_def)
next
  case (run_turn ts p)
  then show ?case by (simp add: forwards_turn turn_mcp)
next
  case (run_heartbeat ts p dumps send)
  then show ?case by (auto intro: forwards_same simp: heartbeat_inbox)
next
  case (run_tool ts p dumps send req_id name arguments t b c)
  with call_tool_frame [OF run_tool(2)] show ?case by (auto intro: forwards_same)
next
  case (run_tool_pushed ts p ref r c dumps req_id t b)
  with finish_inbox [OF run_tool_pushed(2)] pushed_tool_frame [OF run_tool_pushed(3)] show ?case by (auto intro: forwards_same)
next
  case (run_tool_finish ts p dumps req_id name timed_out t b)
  with finish_tool_frame [OF run_tool_finish(2)] show ?case by (auto intro: forwards_same)
qed

lemma exit_raised:
  "bp_mcp p = TaskRuns \<Longrightarrow> bp_ws p = WsOver (TaskRaised e) \<Longrightarrow>
   bridge_exit p = Some (if graceful (TaskRaised e) then Inr () else Inl e, phx_close (bp_client p))"
  by (simp add: bridge_exit_def bridge_main_end_def graceful_def [of TaskRuns])

text \<open>
  C12. The bridge process forwards the channel under every interleaving. In any run from its start, with heartbeats, tool calls, replies
  and a lost socket at any point, the frames pushed on the socket are, in order, those the forwarding task has taken and those
  still queued; the notifications written to Claude Code are exactly those of the frames taken, in order; the
  task takes nothing after a frame that ends it, and then the process ends with the client closed, without an error for the shutdown
  signals and with the exception otherwise.
\<close>

theorem bridge_process_forwards:
  assumes "bridge_run json_loads session_id (bridge_start wc dumps send session_id) ts p"
  shows "\<exists>taken. pushed json_loads ts = taken @ filter pushed_frame (bc_inbox (bp_client p)) \<and>
    br_written (bp_bridge p) = map channel_message (filter frame_notifies taken) \<and>
    (\<forall>f\<in>set (butlast taken). frame_stop f = None) \<and>
    (\<forall>e. taken \<noteq> [] \<and> frame_stop (last taken) = Some e \<longrightarrow>
       bridge_exit p = Some (if graceful (TaskRaised e) then Inr () else Inl e, phx_close (bp_client p)))"
proof -
  have f: "forwards (pushed json_loads ts) p" and m: "bp_mcp p = TaskRuns"
    using run_forwards [OF assms forwards_start] start_mcp by simp_all
  from f show ?thesis unfolding forwards_def using exit_raised [OF m] by blast
qed

definition process_frame :: "string \<Rightarrow> string \<Rightarrow> (string \<times> py_val) list \<Rightarrow> py_val res" where
  "process_frame ref event payload = Inr (PyList [PyNone, PyStr ref, PyStr ''cli:channel/s'', PyStr event, PyDict (mkdict payload)])"

definition process_loads :: "string \<Rightarrow> py_val res" where
  "process_loads raw =
     (if raw = ''n'' then process_frame ''9'' ''envelope'' [(''kind'', PyStr ''notification''), (''content'', PyStr ''hi'')]
      else if raw = ''r'' then process_frame ''1'' ''phx_reply'' [(''status'', PyStr ''ok'')]
      else process_frame ''9'' ''envelope'' [(''kind'', PyStr ''session_killed'')])"

definition process_start :: bridge_process where
  "process_start = bridge_start (\<lambda>_. None) (\<lambda>_. Inr ''m'') (\<lambda>_. None) ''s''"

definition process_text :: "string \<Rightarrow> bridge_process \<Rightarrow> bridge_process" where
  "process_text raw p = p\<lparr>bp_client := socket_text process_loads raw (bp_client p)\<rparr>"

definition process_joined :: bridge_process where
  "process_joined = ws_turn ''s'' (process_text ''r'' (process_text ''n'' process_start))"

definition process_killed :: bridge_process where
  "process_killed = ws_turn ''s'' (ws_turn ''s'' (process_text ''k'' process_joined))"

lemma process_tasks:
  "bc_recv_task (bp_client process_start)" "bc_recv_task (bp_client (process_text ''n'' process_start))"
  "bc_recv_task (bp_client process_joined)"
  by code_simp+

lemma process_run: "bridge_run process_loads ''s'' process_start [''n'', ''r'', ''k''] process_killed"
proof -
  have "bridge_run process_loads ''s'' process_start ([] @ [''n'']) (process_text ''n'' process_start)"
    unfolding process_text_def by (intro bridge_run.run_text bridge_run.run_start process_tasks)
  then have "bridge_run process_loads ''s'' process_start (([] @ [''n'']) @ [''r'']) process_joined"
    unfolding process_joined_def process_text_def [of "''r''"] by (intro bridge_run.run_turn bridge_run.run_text process_tasks)
  then have "bridge_run process_loads ''s'' process_start ((([] @ [''n'']) @ [''r'']) @ [''k'']) process_killed"
    unfolding process_killed_def process_text_def [of "''k''"] by (intro bridge_run.run_turn bridge_run.run_text process_tasks)
  then show ?thesis by simp
qed

lemma process_end:
  "bc_inbox (bp_client process_killed) = []"
  "pushed process_loads [''n'', ''r'', ''k''] =
     [inbound_frame PyNone (PyStr ''9'') (PyStr ''cli:channel/s'') (PyStr ''envelope'')
        (PyDict (mkdict [(''kind'', PyStr ''notification''), (''content'', PyStr ''hi'')])),
      inbound_frame PyNone (PyStr ''9'') (PyStr ''cli:channel/s'') (PyStr ''envelope'') (PyDict (mkdict [(''kind'', PyStr ''session_killed'')]))]"
  by code_simp+

theorem bridge_process_forwards_witness:
  "bridge_run process_loads ''s'' process_start [''n'', ''r'', ''k''] process_killed \<and>
   length (br_written (bp_bridge process_killed)) = 1 \<and>
   bridge_exit process_killed = Some (Inr (), phx_close (bp_client process_killed))"
  using bridge_process_forwards [OF process_run [unfolded process_start_def], unfolded process_end]
    process_run
  by (auto simp: frame_notifies_def frame_stop_def frame_kind_def frame_event_def frame_payload_def inbound_frame_def
      dget_or_def graceful_def BridgeShutdown_def)

end
