(* ===== verification/Scenario_Harness.thy ===== *)
theory Scenario_Harness
  imports Text_Lines
begin

text \<open>
  What the two scenario scripts under \<^verbatim>\<open>scripts/scenarios\<close> share: tracks of assertions over files, their verdicts and the
  runner that prints them and gives the exit code.

  A computation of a track may raise and may change the disk, so it is a function from the disk to a result and a disk. The disk holds
  files with modification time (in nanoseconds) and text; directories are left out, since the scripts make each one they
  use, once, below a fresh temporary directory.
\<close>

section \<open>Computations\<close>

definition quoted :: "string \<Rightarrow> string" where
  "quoted s = [CHR 0x22] @ s @ [CHR 0x22]"

record disk =
  dk_files :: "(string \<times> int \<times> string) list"
  dk_writes :: nat

type_synonym 'a step = "disk \<Rightarrow> 'a res \<times> disk"

definition step_of :: "'a res \<Rightarrow> 'a step" where
  "step_of r d = (r, d)"

definition step_bind :: "'a step \<Rightarrow> ('a \<Rightarrow> 'b step) \<Rightarrow> 'b step" where
  "step_bind m f d = (case m d of (Inl e, d1) \<Rightarrow> (Inl e, d1) | (Inr x, d1) \<Rightarrow> f x d1)"

definition step_seq :: "'a step \<Rightarrow> 'b step \<Rightarrow> 'b step" where
  "step_seq m k = step_bind m (\<lambda>_. k)"

text \<open>\<open>try: m finally: k\<close>.\<close>

definition step_finally :: "'a step \<Rightarrow> unit step \<Rightarrow> 'a step" where
  "step_finally m k d = (case m d of (r, d1) \<Rightarrow> (case k d1 of (Inl e, d2) \<Rightarrow> (Inl e, d2) | (Inr _, d2) \<Rightarrow> (r, d2)))"

primrec steps :: "unit step list \<Rightarrow> unit step" where
  "steps [] = step_of (Inr ())"
| "steps (m # ms) = step_seq m (steps ms)"

definition assert_that :: "bool \<Rightarrow> string \<Rightarrow> unit step" where
  "assert_that cond msg = step_of (if cond then Inr () else Inl (Exc ''AssertionError'' msg))"

definition file_at :: "disk \<Rightarrow> string \<Rightarrow> (int \<times> string) option" where
  "file_at d path = map_of (dk_files d) path"

definition no_such_file :: "string \<Rightarrow> py_exc" where
  "no_such_file path = Exc ''FileNotFoundError'' (''[Errno 2] No such file or directory: '' @ repr_str path)"

definition assert_exists :: "string \<Rightarrow> string \<Rightarrow> unit step" where
  "assert_exists path msg d = assert_that (file_at d path \<noteq> None) msg d"

definition read_path :: "string \<Rightarrow> string step" where
  "read_path path d = ((case file_at d path of None \<Rightarrow> Inl (no_such_file path) | Some (_, t) \<Rightarrow> Inr t), d)"

text \<open>A file is written at the time the clock shows at that write.\<close>

definition put_file :: "string \<Rightarrow> int \<Rightarrow> string \<Rightarrow> disk \<Rightarrow> disk" where
  "put_file path m t d = d\<lparr>dk_files := dset path (m, t) (dk_files d)\<rparr>"

definition write_path :: "(nat \<Rightarrow> int) \<Rightarrow> string \<Rightarrow> string \<Rightarrow> unit step" where
  "write_path clock path t d = (Inr (), (put_file path (clock (dk_writes d)) t d)\<lparr>dk_writes := Suc (dk_writes d)\<rparr>)"

definition bump_mtime :: "int \<Rightarrow> string \<Rightarrow> unit step" where
  "bump_mtime ns path d =
     (case file_at d path of
        None \<Rightarrow> (Inl (no_such_file path), d)
      | Some (m, t) \<Rightarrow> (Inr (), put_file path (m + ns) t d))"

definition rmtree :: "string \<Rightarrow> disk \<Rightarrow> disk" where
  "rmtree dir d = d\<lparr>dk_files := filter (\<lambda>(p, _). \<not> startswith p (dir @ ''/'')) (dk_files d)\<rparr>"


section \<open>Tracks\<close>

record track_result =
  tr_name :: string
  tr_passed :: bool
  tr_details :: string

definition track_line :: "track_result \<Rightarrow> string" where
  "track_line r = ''['' @ (if tr_passed r then ''PASS'' else ''FAIL'') @ ''] Track '' @ tr_name r @ '': '' @ tr_details r"

text \<open>The classes of exceptions below \<open>Exception\<close>.\<close>

definition is_exception :: "py_exc \<Rightarrow> bool" where
  "is_exception e = (exc_type e \<notin> set [''SystemExit'', ''KeyboardInterrupt'', ''GeneratorExit'', ''CancelledError''])"

text \<open>The frame of every track: \<open>try: \<dots>; return TrackResult(name, True, ok)\<close> with its two handlers.\<close>

definition try_track :: "(py_exc \<Rightarrow> string) \<Rightarrow> string \<Rightarrow> string \<Rightarrow> unit step \<Rightarrow> track_result step" where
  "try_track format_exc name ok body d =
     (case body d of
        (Inr _, d1) \<Rightarrow> (Inr \<lparr>tr_name = name, tr_passed = True, tr_details = ok\<rparr>, d1)
      | (Inl e, d1) \<Rightarrow>
          if exc_type e = ''AssertionError''
          then (Inr \<lparr>tr_name = name, tr_passed = False, tr_details = ''assertion: '' @ exc_msg e\<rparr>, d1)
          else if is_exception e
          then (Inr \<lparr>tr_name = name, tr_passed = False, tr_details = ''exception:'' @ [CHR 0x0A] @ format_exc e\<rparr>, d1)
          else (Inl e, d1))"

text \<open>The loop of \<open>main\<close>: the results so far and the exception that ended it, if one did.\<close>

primrec run_tracks :: "track_result step list \<Rightarrow> disk \<Rightarrow> track_result list \<times> py_exc option \<times> disk" where
  "run_tracks [] d = ([], None, d)"
| "run_tracks (t # ts) d =
     (case t d of
        (Inl e, d1) \<Rightarrow> ([], Some e, d1)
      | (Inr r, d1) \<Rightarrow> (case run_tracks ts d1 of (rs, x, d2) \<Rightarrow> (r # rs, x, d2)))"

record harness_run =
  hr_lines :: "string list"
  hr_exit :: "int res"
  hr_disk :: disk

definition rule_line :: string where
  "rule_line = replicate 60 CHR ''=''"

text \<open>\<open>main\<close>; the scripts differ in their title, in what they print before the counts and after a full pass.\<close>

definition harness_main ::
  "string \<Rightarrow> string list \<Rightarrow> (nat \<Rightarrow> string list) \<Rightarrow> track_result step list \<Rightarrow> string \<Rightarrow> disk \<Rightarrow> harness_run"
where
  "harness_main title before_counts after_pass tracks tmp d =
     (case run_tracks tracks d of (results, raised, d1) \<Rightarrow>
        let shown = [title, rule_line] @ map track_line results;
            cleaned = rmtree tmp d1;
            passed = length (filter tr_passed results);
            total = length tracks;
            counts = show_nat passed @ ''/'' @ show_nat total;
            failed = filter (\<lambda>r. \<not> tr_passed r) results
        in case raised of
             Some e \<Rightarrow> \<lparr>hr_lines = shown, hr_exit = Inl e, hr_disk = cleaned\<rparr>
           | None \<Rightarrow>
               if passed = total
               then \<lparr>hr_lines = shown @ [rule_line] @ before_counts @ [counts @ '' tracks PASSED''] @ after_pass passed,
                     hr_exit = Inr 0, hr_disk = cleaned\<rparr>
               else \<lparr>hr_lines = shown @ [rule_line] @ before_counts @
                       [counts @ '' tracks passed; '' @ show_nat (length failed) @ '' failed''] @
                       map (\<lambda>r. ''  - '' @ tr_name r @ '': '' @ tr_details r) failed,
                     hr_exit = Inr 1, hr_disk = cleaned\<rparr>)"


section \<open>Rules\<close>

named_theorems step_simps \<open>running the computations of a track\<close>

lemma step_bind_run [step_simps]:
  "m d = (Inl e, d1) \<Longrightarrow> step_bind m f d = (Inl e, d1)" "m d = (Inr x, d1) \<Longrightarrow> step_bind m f d = f x d1"
  by (simp_all add: step_bind_def)

lemma step_of_run [step_simps]: "step_of r d = (r, d)"
  by (simp add: step_of_def)

lemma step_bind_of [step_simps]: "step_bind (step_of (Inr x)) f d = f x d" "step_bind (step_of (Inl e)) f d = (Inl e, d)"
  by (simp_all add: step_bind_def step_of_def)

lemma assert_that_run [step_simps]:
  "step_bind (assert_that c m) f d = (if c then f () d else (Inl (Exc ''AssertionError'' m), d))"
  by (simp add: assert_that_def step_bind_def step_of_def)

lemma assert_exists_run [step_simps]:
  "step_bind (assert_exists p m) f d = (if file_at d p = None then (Inl (Exc ''AssertionError'' m), d) else f () d)"
  by (simp add: assert_exists_def assert_that_def step_bind_def step_of_def)

lemma read_path_run [step_simps]:
  "step_bind (read_path p) f d = (case file_at d p of None \<Rightarrow> (Inl (no_such_file p), d) | Some (_, t) \<Rightarrow> f t d)"
  by (simp add: read_path_def step_bind_def split: option.split prod.split)

lemma step_seq_run [step_simps]: "step_seq m k d = step_bind m (\<lambda>_. k) d"
  by (simp add: step_seq_def)

lemma step_bind_assoc [simp]: "step_bind (step_bind m f) g = step_bind m (\<lambda>x. step_bind (f x) g)"
  by (rule ext) (simp add: step_bind_def split: prod.split sum.split)

lemma last_steps_run [step_simps]:
  "assert_that c m d = (if c then Inr () else Inl (Exc ''AssertionError'' m), d)"
  "steps [] d = (Inr (), d)" "steps (m1 # ms) d = step_bind m1 (\<lambda>_. steps ms) d"
  by (simp_all add: assert_that_def step_of_def step_seq_def)

lemma file_at_put [simp]:
  "file_at (put_file p m t d) q = (if q = p then Some (m, t) else file_at d q)" "dk_writes (put_file p m t d) = dk_writes d"
  "file_at (d\<lparr>dk_writes := n\<rparr>) q = file_at d q" 
  by (simp_all add: put_file_def file_at_def)

lemma write_path_run [step_simps]:
  "step_bind (write_path clock p t) f d = f () ((put_file p (clock (dk_writes d)) t d)\<lparr>dk_writes := Suc (dk_writes d)\<rparr>)"
  by (simp add: step_bind_def write_path_def)

lemma bump_mtime_run [step_simps]:
  "file_at d p = Some (m, t) \<Longrightarrow> step_bind (bump_mtime ns p) f d = f () (put_file p (m + ns) t d)"
  by (simp add: step_bind_def bump_mtime_def)

text \<open>A track that raises does so before its \<open>try\<close> or with an exception that is none; otherwise its verdict says whether its body returned.\<close>

lemma try_track_verdict:
  assumes "body d = (r, d1)" "\<And>e. r = Inl e \<Longrightarrow> exc_type e = ''AssertionError'' \<or> is_exception e"
  shows "\<exists>t. try_track fe name ok body d = (Inr t, d1) \<and> tr_name t = name \<and> tr_passed t = is_ok r"
  using assms by (cases r) (auto simp: try_track_def)

lemma run_tracks_length: "run_tracks ts d = (rs, None, d1) \<Longrightarrow> length rs = length ts"
  by (induction ts arbitrary: d rs) (auto split: prod.splits sum.splits)

lemma passed_all: "length (filter tr_passed rs) = length rs \<longleftrightarrow> list_all tr_passed rs"
  by (induction rs) (auto simp: le_imp_less_Suc order.strict_implies_not_eq)

lemma harness_exit:
  "run_tracks ts d = (rs, x, d1) \<Longrightarrow>
   hr_exit (harness_main title bc ap ts tmp d) =
     (case x of Some e \<Rightarrow> Inl e | None \<Rightarrow> if list_all tr_passed rs then Inr 0 else Inr 1)"
  by (auto simp: harness_main_def Let_def passed_all dest: run_tracks_length split: option.splits simp flip: run_tracks_length)

end
