(* ===== verification/Cap_Scenario.thy ===== *)
theory Cap_Scenario
  imports Scenario_Harness Capability Envelope
begin

text \<open>
  \<^verbatim>\<open>scripts/scenarios/e2e_capabilities.py\<close>: its four tracks over the checker of \<^verbatim>\<open>Capability\<close>, and \<open>main\<close>.

  Arguments are what the script takes from elsewhere: imports, yaml, the command line \<open>esr cap\<close> (not part of the repository), the
  clock of the disk, uuid4, the time of day, traceback.format_exc and the root of the checkout.
\<close>

section \<open>Surroundings\<close>

record cap_env =
  ce_import :: "string \<Rightarrow> unit res"
  ce_dump :: "py_val \<Rightarrow> string"
  ce_load :: "string \<Rightarrow> py_val option"
  ce_cap_group :: "string list \<Rightarrow> (string \<times> string) list \<Rightarrow> disk \<Rightarrow> (int \<times> string) \<times> disk"
  ce_clock :: "nat \<Rightarrow> int"
  ce_uuid :: string
  ce_now :: string
  ce_format_exc :: "py_exc \<Rightarrow> string"
  ce_repo :: string

definition import_step :: "cap_env \<Rightarrow> string \<Rightarrow> unit step" where
  "import_step E m = step_of (ce_import E m)"

definition caps_doc :: "py_val list \<Rightarrow> py_val" where
  "caps_doc principals = PyDict (mkdict [(''principals'', PyList principals)])"

definition write_caps :: "cap_env \<Rightarrow> string \<Rightarrow> py_val list \<Rightarrow> unit step" where
  "write_caps E path principals = write_path (ce_clock E) path (ce_dump E (caps_doc principals))"

text \<open>\<open>CapabilitiesChecker(path)\<close> and an assertion on \<open>has\<close>, which leaves the checker reloaded.\<close>

definition open_checker :: "cap_env \<Rightarrow> string \<Rightarrow> checker step" where
  "open_checker E path d = (checker_init (ce_load E) (file_at d path), d)"

definition assert_has :: "cap_env \<Rightarrow> string \<Rightarrow> checker \<Rightarrow> string \<Rightarrow> string \<Rightarrow> bool \<Rightarrow> string \<Rightarrow> checker step" where
  "assert_has E path c who permission expected msg d =
     (case has_cap (ce_load E) (file_at d path) c who permission of
        (Inl e, _) \<Rightarrow> (Inl e, d)
      | (Inr b, c1) \<Rightarrow> step_seq (assert_that (b = expected) msg) (step_of (Inr c1)) d)"

definition caps_path :: "string \<Rightarrow> string \<Rightarrow> string" where
  "caps_path tmp track = tmp @ ''/'' @ track @ ''/default/capabilities.yaml''"

definition principal_row :: "string \<Rightarrow> string \<Rightarrow> py_val" where
  "principal_row ident capability =
     PyDict (mkdict [(''id'', PyStr ident), (''kind'', PyStr ''feishu_user''), (''capabilities'', PyList [PyStr capability])])"


section \<open>Tracks\<close>

definition seed_text :: string where
  "seed_text = concat (map (\<lambda>l. l @ [CHR 0x0A])
     [''# Auto-generated by ESR first-run bootstrap.'', ''# ESR_BOOTSTRAP_PRINCIPAL_ID=ou_admin was set and no'',
      ''# capabilities.yaml existed. Edit freely '' @ em_dash @ '' changes hot-reload.'', [],
      ''principals:'', ''  - id: ou_admin'', ''    kind: feishu_user'', ''    note: bootstrap admin'',
      ''    capabilities: ['' @ quoted ''*'' @ '']''])"

definition track_cap_a :: "cap_env \<Rightarrow> string \<Rightarrow> track_result step" where
  "track_cap_a E tmp =
     step_seq (import_step E ''esr.capabilities'')
     (try_track (ce_format_exc E) ''CAP-A'' ''admin bootstrap + both lanes allow''
       (let caps = caps_path tmp ''cap-a'' in
        step_seq (write_path (ce_clock E) caps seed_text)
        (step_bind (read_path caps) (\<lambda>content.
         step_seq (assert_that (contains content ''id: ou_admin'') ''seed file missing ou_admin'')
        (step_seq (assert_that (contains content (''['' @ quoted ''*'' @ '']'')) ''seed file missing admin wildcard'')
        (step_bind (open_checker E caps) (\<lambda>c.
         step_bind (assert_has E caps c ''ou_admin'' ''workspace:coord-prod/msg.send'' True ''admin denied msg.send'') (\<lambda>c1.
         step_bind (assert_has E caps c1 ''ou_admin'' ''workspace:coord-prod/session.create'' True ''admin denied session.create'') (\<lambda>_.
         step_seq (import_step E ''esr.ipc.envelope'')
        (step_bind (step_of (make_event (ce_uuid E) (ce_now E) ''esr://localhost/adapter/feishu/test'' (PyStr ''msg_received'')
             (mkdict [(''content'', PyStr ''hi admin'')]) (PyStr ''ou_admin'') (PyStr ''coord-prod''))) (\<lambda>env.
         step_bind (step_of (py_index (PyDict env) ''principal_id'')) (\<lambda>p.
         step_seq (assert_that (p = PyStr ''ou_admin'') ''envelope principal_id mismatch'')
        (step_bind (step_of (py_index (PyDict env) ''workspace_name'')) (\<lambda>w.
         assert_that (w = PyStr ''coord-prod'') ''envelope workspace_name mismatch''))))))))))))))"

definition track_cap_e :: "cap_env \<Rightarrow> string \<Rightarrow> track_result step" where
  "track_cap_e E tmp =
     step_seq (import_step E ''esr.capabilities'')
     (try_track (ce_format_exc E) ''CAP-E'' (''workspace prefix matches literally '' @ em_dash @ '' no cross-leak'')
       (let caps = caps_path tmp ''cap-e'' in
        step_seq (write_caps E caps [principal_row ''ou_dev'' ''workspace:proj-a/*''])
        (step_bind (open_checker E caps) (\<lambda>c.
         step_bind (assert_has E caps c ''ou_dev'' ''workspace:proj-a/msg.send'' True
           ''E-1 same-workspace msg.send should pass'') (\<lambda>c1.
         step_bind (assert_has E caps c1 ''ou_dev'' ''workspace:proj-a/session.create'' True
           ''E-2 same-workspace session.create should pass (perm wildcard)'') (\<lambda>c2.
         step_bind (assert_has E caps c2 ''ou_dev'' ''workspace:proj-b/msg.send'' False
           ''E-3 cross-workspace should deny'') (\<lambda>_. step_of (Inr ()))))))))"

abbreviation coord_send :: string where
  "coord_send \<equiv> ''workspace:coord-prod/msg.send''"

definition track_cap_f :: "cap_env \<Rightarrow> string \<Rightarrow> track_result step" where
  "track_cap_f E tmp =
     step_seq (import_step E ''click.testing'') (step_seq (import_step E ''esr.capabilities'') (step_seq (import_step E ''esr.cli.cap'')
     (try_track (ce_format_exc E) ''CAP-F'' ''grant hot-reloaded via mtime-gated reread''
       (let caps = caps_path tmp ''cap-f'' in
        step_seq (write_caps E caps [principal_row ''ou_prior'' coord_send])
        (step_bind (open_checker E caps) (\<lambda>c.
         step_bind (assert_has E caps c ''ou_bob'' coord_send False ''F-1 bob should start denied'') (\<lambda>c1.
         step_bind (\<lambda>d. case ce_cap_group E [''grant'', ''ou_bob'', coord_send] [(''ESRD_HOME'', tmp @ ''/cap-f'')] d of
             (result, d1) \<Rightarrow> (Inr result, d1)) (\<lambda>(exit_code, output).
         step_seq (assert_that (exit_code = 0)
           (''F-2 esr cap grant failed: exit='' @ show_int exit_code @ '', out='' @ repr_str output))
        (step_seq (assert_that (contains output ''ou_bob'') (''F-2 esr cap grant output missing ou_bob: '' @ repr_str output))
        (step_bind (read_path caps) (\<lambda>content.
         step_seq (assert_that (contains content ''ou_bob'' \<and> contains content coord_send) ''F-3 capabilities.yaml missing new grant'')
        (step_seq (bump_mtime 1500000000 caps)
        (step_bind (assert_has E caps c1 ''ou_bob'' coord_send True ''F-4 hot reload did not pick up new grant'')
         (\<lambda>_. step_of (Inr ())))))))))))))))"

definition corrupt_text :: string where
  "corrupt_text = ''principals:'' @ [CHR 0x0A] @ ''  - id: x,'' @ [CHR 0x0A] @ ''  capabilities: [workspace:a/msg.send,'' @ [CHR 0x0A]"

definition file_loader_path :: "cap_env \<Rightarrow> string" where
  "file_loader_path E = ce_repo E @ ''/runtime/lib/esr/capabilities/file_loader.ex''"

definition track_cap_g :: "cap_env \<Rightarrow> string \<Rightarrow> track_result step" where
  "track_cap_g E tmp =
     step_seq (import_step E ''esr.capabilities'')
     (try_track (ce_format_exc E) ''CAP-G'' ''corrupt file keeps prior snapshot; fix loads new; runtime log-line present''
       (let caps = caps_path tmp ''cap-g'' in
        step_seq (write_caps E caps [principal_row ''ou_prior'' coord_send])
        (step_bind (open_checker E caps) (\<lambda>c.
         step_bind (assert_has E caps c ''ou_prior'' coord_send True ''G-1 pre-corruption baseline failed'') (\<lambda>c1.
         step_seq (write_path (ce_clock E) caps corrupt_text)
        (step_seq (bump_mtime 1500000000 caps)
        (step_bind (assert_has E caps c1 ''ou_prior'' coord_send True ''G-2 corruption dropped the previous snapshot'') (\<lambda>c2.
         step_seq (write_caps E caps [principal_row ''ou_fix'' coord_send])
        (step_seq (bump_mtime 2500000000 caps)
        (step_bind (assert_has E caps c2 ''ou_fix'' coord_send True ''G-3 fix did not load new snapshot'') (\<lambda>_.
         step_seq (assert_exists (file_loader_path E) (''G-4 file_loader.ex not found: '' @ file_loader_path E))
        (step_bind (read_path (file_loader_path E)) (\<lambda>loader.
         assert_that (contains loader ''keeping previous snapshot'') ''G-4 runtime file_loader missing log-line contract'')))))))))))))"

definition cap_tracks :: "cap_env \<Rightarrow> string \<Rightarrow> track_result step list" where
  "cap_tracks E tmp = [track_cap_a E tmp, track_cap_e E tmp, track_cap_f E tmp, track_cap_g E tmp]"

definition cap_main :: "cap_env \<Rightarrow> string \<Rightarrow> disk \<Rightarrow> harness_run" where
  "cap_main E tmp d =
     harness_main (''ESR capabilities E2E '' @ em_dash @ '' '' @ show_nat (length (cap_tracks E tmp)) @ '' tracks'') []
       (\<lambda>passed. [show_nat passed @ '' steps PASSED'']) (cap_tracks E tmp) tmp d"


section \<open>Running the tracks\<close>

text \<open>A checker whose file has one principal with one capability.\<close>

definition single :: "string \<Rightarrow> string \<Rightarrow> int \<Rightarrow> checker" where
  "single i cap m = \<lparr>cc_snapshot = [(PyStr i, [PyStr cap])], cc_mtime = Some m\<rparr>"

definition single_doc :: "py_val \<Rightarrow> string \<Rightarrow> string \<Rightarrow> bool" where
  "single_doc doc i cap = (doc_snapshot doc = Inr [(PyStr i, [PyStr cap])])"

lemma row_doc: "single_doc (caps_doc [principal_row i cap]) i cap"
  by (simp add: single_doc_def caps_doc_def principal_row_def doc_snapshot_def py_or_def py_get_def py_iter_def dget_or_def)

lemma any_match_str: "any_match [PyStr cap] q = Inr (cap_matches cap q)"
  by (auto simp: matches_val_def cap_matches_def split_val_def split: option.splits prod.splits)

lemma checker_single: "load t = Some doc \<Longrightarrow> single_doc doc i cap \<Longrightarrow> checker_init load (Some (m, t)) = Inr (single i cap m)"
  by (simp add: checker_init_def reload_def new_checker_def single_def single_doc_def)

lemma has_single: "has_cap load (Some (m, t)) (single i cap m) p q = (Inr (p = i \<and> cap_matches cap q), single i cap m)"
  by (simp add: has_cap_def reload_def single_def any_match_str del: any_match.simps(2))

lemma has_reloaded:
  "m \<noteq> m' \<Longrightarrow> load t = Some doc \<Longrightarrow> single_doc doc j new \<Longrightarrow>
   has_cap load (Some (m', t)) (single i cap m) p q = (Inr (p = j \<and> cap_matches new q), single j new m')"
  by (simp add: has_cap_def reload_def single_def single_doc_def any_match_str del: any_match.simps(2))

lemma has_corrupt:
  "load t = None \<Longrightarrow> has_cap load (Some (m', t)) (single i cap m) p q = (Inr (p = i \<and> cap_matches cap q), single i cap m')"
  by (simp add: has_cap_def reload_def single_def any_match_str del: any_match.simps(2))

lemma open_checker_run [step_simps]:
  "step_bind (open_checker E p) f d =
     (case checker_init (ce_load E) (file_at d p) of Inl e \<Rightarrow> (Inl e, d) | Inr c \<Rightarrow> f c d)"
  by (simp add: step_bind_def open_checker_def split: sum.split)

lemma assert_has_run [step_simps]:
  "step_bind (assert_has E p c who q w m) f d =
     (case has_cap (ce_load E) (file_at d p) c who q of
        (Inl e, _) \<Rightarrow> (Inl e, d)
      | (Inr b, c1) \<Rightarrow> if b = w then f c1 d else (Inl (Exc ''AssertionError'' m), d))"
  by (simp add: step_bind_def assert_has_def step_seq_def assert_that_def step_of_def split: sum.split prod.split)

lemma scenario_matches:
  "cap_matches ''*'' q" "cap_matches coord_send coord_send"
  "cap_matches ''workspace:proj-a/*'' ''workspace:proj-a/msg.send''"
  "cap_matches ''workspace:proj-a/*'' ''workspace:proj-a/session.create''"
  "\<not> cap_matches ''workspace:proj-a/*'' ''workspace:proj-b/msg.send''"
  apply (simp add: cap_matches_def)
  by code_simp+

lemma seed_contents: "contains seed_text ''id: ou_admin''" "contains seed_text (CHR ''['' # quoted ''*'' @ '']'')"
  by code_simp+

text \<open>What the tracks rely on of yaml: their documents come back, the seeded text is the document it spells, the broken text is rejected.\<close>

definition seed_doc :: py_val where
  "seed_doc = caps_doc [PyDict (mkdict [(''id'', PyStr ''ou_admin''), (''kind'', PyStr ''feishu_user''),
     (''note'', PyStr ''bootstrap admin''), (''capabilities'', PyList [PyStr ''*''])])]"

definition yaml_reads :: "cap_env \<Rightarrow> bool" where
  "yaml_reads E =
     (ce_load E seed_text = Some seed_doc \<and> ce_load E corrupt_text = None \<and>
      list_all (\<lambda>p. ce_load E (ce_dump E (caps_doc [p])) = Some (caps_doc [p]))
        [principal_row ''ou_dev'' ''workspace:proj-a/*'', principal_row ''ou_prior'' coord_send, principal_row ''ou_fix'' coord_send])"

lemma seed_single: "single_doc seed_doc ''ou_admin'' ''*''"
  by (simp add: single_doc_def seed_doc_def caps_doc_def doc_snapshot_def py_or_def py_get_def py_iter_def dget_or_def)

lemma track_a_passes:
  assumes "yaml_reads E" "ce_import E ''esr.capabilities'' = Inr ()" "ce_import E ''esr.ipc.envelope'' = Inr ()"
  shows "\<exists>d'. track_cap_a E tmp d =
    (Inr \<lparr>tr_name = ''CAP-A'', tr_passed = True, tr_details = ''admin bootstrap + both lanes allow''\<rparr>, d')"
proof -
  note load = assms(1) [unfolded yaml_reads_def, THEN conjunct1]
  show ?thesis
    by (simp add: track_cap_a_def try_track_def import_step_def assms step_simps seed_contents checker_single [of "ce_load E", OF load seed_single]
      has_single scenario_matches make_event_def check_source_def py_index_def Let_def)
qed

lemma track_e_passes:
  assumes "yaml_reads E" "ce_import E ''esr.capabilities'' = Inr ()"
  shows "\<exists>d'. track_cap_e E tmp d =
    (Inr \<lparr>tr_name = ''CAP-E'', tr_passed = True, tr_details = ''workspace prefix matches literally '' @ em_dash @ '' no cross-leak''\<rparr>, d')"
proof -
  have load: "ce_load E (ce_dump E (caps_doc [principal_row ''ou_dev'' ''workspace:proj-a/*''])) =
      Some (caps_doc [principal_row ''ou_dev'' ''workspace:proj-a/*''])"
    using assms(1) by (simp add: yaml_reads_def)
  show ?thesis
    by (simp add: track_cap_e_def try_track_def import_step_def assms step_simps write_caps_def checker_single [of "ce_load E", OF load row_doc]
      has_single scenario_matches Let_def)
qed

definition sample_dev :: py_val where
  "sample_dev = caps_doc [principal_row ''ou_dev'' ''workspace:proj-a/*'']"

definition sample_prior :: py_val where
  "sample_prior = caps_doc [principal_row ''ou_prior'' coord_send]"

definition sample_fix :: py_val where
  "sample_fix = caps_doc [principal_row ''ou_fix'' coord_send]"

text \<open>A checkout for the witnesses: yaml on the documents of the tracks, and a command that adds its grant to the file.\<close>

definition sample_granted :: string where
  "sample_granted = ''ou_prior, ou_bob: '' @ coord_send"

definition sample_load :: "string \<Rightarrow> py_val option" where
  "sample_load t =
     (if t = seed_text then Some seed_doc else if t = ''d'' then Some sample_dev else if t = ''p'' then Some sample_prior
      else if t = ''f'' then Some sample_fix
      else if t = sample_granted then Some (caps_doc [principal_row ''ou_prior'' coord_send, principal_row ''ou_bob'' coord_send])
      else None)"

definition sample_env :: "bool \<Rightarrow> cap_env" where
  "sample_env has_cli =
     \<lparr>ce_import = (\<lambda>m. if has_cli \<or> m \<noteq> ''click.testing'' then Inr () else Inl (Exc ''ModuleNotFoundError'' ''No module named click'')),
      ce_dump = (\<lambda>doc. if doc = sample_dev then ''d'' else if doc = sample_prior then ''p'' else ''f''),
      ce_load = sample_load,
      ce_cap_group = (\<lambda>args env d. ((0, ''granted '' @ coord_send @ '' to ou_bob''), put_file (caps_path ''/t'' ''cap-f'') 5 sample_granted d)),
      ce_clock = int, ce_uuid = ''u'', ce_now = ''n'', ce_format_exc = exc_msg, ce_repo = ''/r''\<rparr>"

definition sample_disk :: disk where
  "sample_disk = \<lparr>dk_files = [(''/r/runtime/lib/esr/capabilities/file_loader.ex'', (0, ''keeping previous snapshot''))], dk_writes = 0\<rparr>"

lemma sample_yaml: "yaml_reads (sample_env b)"
  unfolding yaml_reads_def sample_env_def cap_env.simps by code_simp



text \<open>
  The corruption track tests what it claims. While the clock does not go back, the checker survives the broken file and takes the repaired
  one, whatever the write times are, so the verdict is exactly whether the runtime's loader stands at
  \<^verbatim>\<open>runtime/lib/esr/capabilities/file_loader.ex\<close> and announces that it keeps the previous snapshot.
\<close>

theorem cap_g_verdict:
  assumes "yaml_reads E" "ce_import E ''esr.capabilities'' = Inr ()" "mono (ce_clock E)" "file_loader_path E \<noteq> caps_path tmp ''cap-g''"
  shows "\<exists>r d'. track_cap_g E tmp d = (Inr r, d') \<and>
    tr_passed r = (case file_at d (file_loader_path E) of None \<Rightarrow> False | Some (_, t) \<Rightarrow> contains t ''keeping previous snapshot'')"
proof -
  have load: "ce_load E (ce_dump E (caps_doc [principal_row ''ou_prior'' coord_send])) = Some (caps_doc [principal_row ''ou_prior'' coord_send])"
    "ce_load E (ce_dump E (caps_doc [principal_row ''ou_fix'' coord_send])) = Some (caps_doc [principal_row ''ou_fix'' coord_send])"
    "ce_load E corrupt_text = None"
    using assms(1) by (simp_all add: yaml_reads_def)
  let ?n = "dk_writes d"
  have "ce_clock E (Suc ?n) \<le> ce_clock E (Suc (Suc ?n))" using assms(3) by (simp add: monoD)
  then have t: "ce_clock E (Suc ?n) + 1500000000 \<noteq> ce_clock E (Suc (Suc ?n)) + 2500000000" by simp
  show ?thesis
    using assms(4) by (simp add: track_cap_g_def try_track_def import_step_def assms(2) step_simps write_caps_def
      checker_single [of "ce_load E", OF load(1) row_doc] has_single has_corrupt [of "ce_load E", OF load(3)]
      has_reloaded [OF t, of "ce_load E", OF load(2) row_doc] scenario_matches Let_def
      is_exception_def split: option.split prod.split)
qed

theorem cap_g_verdict_witness:
  "\<exists>r d'. track_cap_g (sample_env True) ''/t'' sample_disk = (Inr r, d') \<and> tr_passed r"
proof -
  have "file_loader_path (sample_env True) \<noteq> caps_path ''/t'' ''cap-g''" "mono (ce_clock (sample_env True))"
    by (simp_all add: file_loader_path_def sample_env_def caps_path_def mono_def)
  from cap_g_verdict [OF sample_yaml _ this(2,1), of sample_disk] show ?thesis
    by (simp add: sample_disk_def file_at_def file_loader_path_def sample_env_def)
qed

text \<open>The disk when the command runs, and the grant in the file it leaves, read without a cache.\<close>

definition before_grant :: "cap_env \<Rightarrow> string \<Rightarrow> disk \<Rightarrow> disk" where
  "before_grant E tmp d = snd (write_caps E (caps_path tmp ''cap-f'') [principal_row ''ou_prior'' coord_send] d)"

definition grants_bob :: "cap_env \<Rightarrow> int \<Rightarrow> string \<Rightarrow> bool" where
  "grants_bob E m t =
     (case map_of (reread (ce_load E) (Some (m, t)) [(PyStr ''ou_prior'', [PyStr coord_send])]) (PyStr ''ou_bob'') of
        None \<Rightarrow> False | Some held \<Rightarrow> any_match held coord_send = Inr True)"

lemma py_get_raises: "py_get v k dflt = Inl e \<Longrightarrow> is_exception e"
  by (auto simp: py_get_def attr_error_def is_exception_def split: py_val.splits)

lemma py_iter_raises: "py_iter v = Inl e \<Longrightarrow> is_exception e"
  by (auto simp: py_iter_def type_error_def is_exception_def split: py_val.splits)

lemma snapshot_raises: "snapshot_of es acc = Inl e \<Longrightarrow> is_exception e"
  by (induction es acc rule: snapshot_of.induct)
    (auto simp: rbind_def type_error_def is_exception_def [of "Exc _ _"] dest: py_iter_raises split: py_val.splits option.splits sum.splits if_splits)

lemma doc_raises: "doc_snapshot doc = Inl e \<Longrightarrow> is_exception e"
  by (auto simp: doc_snapshot_def rbind_def dest: py_get_raises py_iter_raises snapshot_raises split: sum.splits)

lemma any_match_raises: "any_match held q = Inl e \<Longrightarrow> is_exception e"
  by (induction held) (auto simp: rbind_def matches_val_def split_val_def Let_def type_error_def attr_error_def is_exception_def
      split: py_val.splits option.splits sum.splits if_splits)

lemma has_after_grant:
  assumes "m0 \<noteq> m"
  shows "case fst (has_cap (ce_load E) (Some (m, t)) (single ''ou_prior'' coord_send m0) ''ou_bob'' coord_send) of
    Inl e \<Rightarrow> is_exception e \<and> \<not> grants_bob E m t | Inr b \<Rightarrow> b = grants_bob E m t"
  using assms by (auto simp: has_cap_def reload_def single_def grants_bob_def reread_def dest: doc_raises any_match_raises
      split: option.splits sum.splits)



end
