(* ===== verification/Isolation_Scenario.thy ===== *)
theory Isolation_Scenario
  imports Scenario_Harness Ipc_Url
begin

text \<open>
  \<^verbatim>\<open>scripts/scenarios/e2e_dev_prod_isolation.py\<close>: its seventeen tracks and \<open>main\<close>. Most tracks look for words in sources of the runtime; two
  run \<^verbatim>\<open>scripts/esrd.sh\<close>, four the command line \<open>esr\<close> (not part of the repository), and one the URL resolver of \<^verbatim>\<open>Ipc_Url\<close>.

  Arguments are what the script takes from elsewhere: imports, the shell script, the command line with the wizard's home for \<open>dev\<close> and its patched
  credential check, yaml, the environment, the clock, traceback.format_exc, the elapsed time as it is printed, \<open>repr\<close> of loaded
  values, and the root of the checkout. Changes of \<open>os.environ\<close> and of the wizard's table end with the call they are made
  for, as the \<open>finally\<close> blocks see to.
\<close>

section \<open>Surroundings\<close>

record iso_env =
  ie_import :: "string \<Rightarrow> unit res"
  ie_run :: "string list \<Rightarrow> (string \<times> string) list \<Rightarrow> (int \<times> string) step"
  ie_cli :: "string list \<Rightarrow> (string \<times> string) list \<Rightarrow> string \<Rightarrow> string option \<Rightarrow> disk \<Rightarrow> (int \<times> string) \<times> disk"
  ie_events :: "string list"
  ie_dump :: "py_val \<Rightarrow> string"
  ie_load :: "string \<Rightarrow> py_val res"
  ie_environ :: environ
  ie_user_home :: string
  ie_clock :: "nat \<Rightarrow> int"
  ie_format_exc :: "py_exc \<Rightarrow> string"
  ie_elapsed :: string
  ie_repr :: "py_val \<Rightarrow> string"
  ie_repo :: string

abbreviation ap :: string where
  "ap \<equiv> [CHR 0x27]"

definition import_mod :: "iso_env \<Rightarrow> string \<Rightarrow> unit step" where
  "import_mod E m = step_of (ie_import E m)"

definition assert_in :: "string \<Rightarrow> string \<Rightarrow> string \<Rightarrow> unit step" where
  "assert_in src word msg = assert_that (contains src word) msg"

definition assert_missing :: "string \<Rightarrow> string \<Rightarrow> unit step" where
  "assert_missing path msg d = assert_that (file_at d path = None) msg d"

definition right_arrow :: string where
  "right_arrow = [CHR 0xE2, CHR 0x86, CHR 0x92]"

definition esrd_sh_start :: "iso_env \<Rightarrow> string \<Rightarrow> string \<Rightarrow> int option \<Rightarrow> (int \<times> string) step" where
  "esrd_sh_start E home instance port =
     ie_run E ([ie_repo E @ ''/scripts/esrd.sh'', ''start'', ''--instance='' @ instance] @
         (case port of None \<Rightarrow> [] | Some p \<Rightarrow> [''--port='' @ show_int p]))
       [(''ESRD_HOME'', home), (''ESRD_CMD_OVERRIDE'', ''sleep 60'')]"

definition esrd_sh_stop :: "iso_env \<Rightarrow> string \<Rightarrow> string \<Rightarrow> unit step" where
  "esrd_sh_stop E home instance =
     step_bind (ie_run E [ie_repo E @ ''/scripts/esrd.sh'', ''stop'', ''--instance='' @ instance] [(''ESRD_HOME'', home)]) (\<lambda>_. step_of (Inr ()))"

definition invoke_cli :: "iso_env \<Rightarrow> string list \<Rightarrow> (string \<times> string) list \<Rightarrow> string \<Rightarrow> string option \<Rightarrow> (int \<times> string) step" where
  "invoke_cli E args env stdin dev_home d = (case ie_cli E args env stdin dev_home d of (result, d1) \<Rightarrow> (Inr result, d1))"

text \<open>\<open>int(s)\<close>.\<close>

definition int_of_text :: "string \<Rightarrow> int step" where
  "int_of_text s = step_of (case py_int s of
     Some n \<Rightarrow> Inr n | None \<Rightarrow> Inl (value_error (''invalid literal for int() with base 10: '' @ repr_str s)))"

definition read_stripped :: "string \<Rightarrow> string step" where
  "read_stripped path = step_bind (read_path path) (\<lambda>t. step_of (Inr (strip t)))"

definition runtime_file :: "iso_env \<Rightarrow> string \<Rightarrow> string" where
  "runtime_file E rest = ie_repo E @ ''/runtime/'' @ rest"


section \<open>Tracks on esrd.sh and the command line\<close>

definition track_di_a :: "iso_env \<Rightarrow> string \<Rightarrow> track_result step" where
  "track_di_a E tmp =
     (let home = tmp @ ''/di-a''; port_file = home @ ''/t/esrd.port''; port_file2 = home @ ''/u/esrd.port'' in
      try_track (ie_format_exc E) ''DI-A'' ''--port override + free-port fallback both honoured''
       (step_bind (esrd_sh_start E home ''t'' (Some 54321)) (\<lambda>(code, err).
        step_seq (assert_that (code = 0) (''A-pre esrd.sh start --port=54321 failed: '' @ err))
       (step_seq (step_finally
          (step_seq (assert_exists port_file (''A-1 esrd.port not written at '' @ port_file))
          (step_bind (read_stripped port_file) (\<lambda>contents.
           step_seq (assert_that (contents = ''54321'') (''A-1 esrd.port='' @ repr_str contents @ '', expected 54321''))
            (assert_exists (home @ ''/t/esrd.pid'') ''A-3 esrd.pid not written''))))
          (esrd_sh_stop E home ''t''))
       (step_bind (esrd_sh_start E home ''u'' None) (\<lambda>(code2, err2).
        step_seq (assert_that (code2 = 0) (''A-pre esrd.sh start (no port) failed: '' @ err2))
       (step_seq (step_finally
          (step_seq (assert_exists port_file2 ''A-2 esrd.port not written for free-port run'')
          (step_bind (read_stripped port_file2) (\<lambda>contents2.
           step_seq (assert_that (isdigit_str contents2) (''A-2 esrd.port='' @ repr_str contents2 @ '', expected numeric''))
          (step_bind (int_of_text contents2) (\<lambda>n.
            assert_that (1024 < n \<and> n < 65536) (''A-2 port '' @ show_int n @ '' out of range''))))))
          (esrd_sh_stop E home ''u''))
        (assert_missing (home @ ''/t/esrd.pid'') ''A-3 esrd.pid not cleaned up after stop''))))))))"

definition track_di_b :: "iso_env \<Rightarrow> string \<Rightarrow> track_result step" where
  "track_di_b E tmp =
     (let prod_plist = ie_repo E @ ''/scripts/launchd/com.ezagent.esrd.plist'';
          dev_plist = ie_repo E @ ''/scripts/launchd/com.ezagent.esrd-dev.plist'';
          home_prod = tmp @ ''/di-b-prod''; home_dev = tmp @ ''/di-b-dev'' in
      try_track (ie_format_exc E) ''DI-B'' ''prod + dev plists + two esrd homes coexist''
       (step_seq (assert_exists prod_plist ''B-pre prod plist missing'')
       (step_seq (assert_exists dev_plist ''B-pre dev plist missing'')
       (step_bind (read_path prod_plist) (\<lambda>prod_text. step_bind (read_path dev_plist) (\<lambda>dev_text.
        step_seq (steps
          [assert_in prod_text ''<string>com.ezagent.esrd</string>'' ''B-1 prod plist missing label com.ezagent.esrd'',
           assert_in dev_text ''<string>com.ezagent.esrd-dev</string>'' ''B-2 dev plist missing label com.ezagent.esrd-dev'',
           assert_in dev_text ''.esrd-dev'' (''B-3 dev plist doesn'' @ ap @ ''t reference .esrd-dev ESRD_HOME''),
           assert_that (\<not> contains prod_text ''.esrd-dev'') (''B-3 prod plist shouldn'' @ ap @ ''t reference .esrd-dev ESRD_HOME'')])
       (step_bind (esrd_sh_start E home_prod ''default'' None) (\<lambda>(code1, err1).
        step_seq (assert_that (code1 = 0) (''B-pre prod esrd.sh failed: '' @ err1))
        (step_finally
          (step_bind (esrd_sh_start E home_dev ''default'' None) (\<lambda>(code2, err2).
           step_seq (assert_that (code2 = 0) (''B-pre dev esrd.sh failed: '' @ err2))
           (step_finally
             (step_bind (read_stripped (home_prod @ ''/default/esrd.port'')) (\<lambda>p1.
              step_bind (read_stripped (home_dev @ ''/default/esrd.port'')) (\<lambda>p2.
              step_seq (assert_that (isdigit_str p1 \<and> isdigit_str p2) ''B-4 ports not numeric'')
             (step_seq (assert_that (p1 \<noteq> p2) (''B-4 ports collided (both '' @ p1 @ '')''))
             (step_bind (int_of_text p1) (\<lambda>n1. step_bind (if n1 > 1024 then int_of_text p2 else step_of (Inr 0)) (\<lambda>n2.
               assert_that (n1 > 1024 \<and> n2 > 1024) ''B-4 ports in privileged range'')))))))
             (esrd_sh_stop E home_dev ''default''))))
          (esrd_sh_stop E home_prod ''default''))))))))))"

definition scoped_doc :: "string \<Rightarrow> string \<Rightarrow> py_val" where
  "scoped_doc ident capability = PyDict (mkdict [(''principals'', PyList [PyDict (mkdict
     [(''id'', PyStr ident), (''kind'', PyStr ''feishu_user''), (''capabilities'', PyList [PyStr capability])])])])"

definition track_di_c :: "iso_env \<Rightarrow> string \<Rightarrow> track_result step" where
  "track_di_c E tmp =
     (let home_dev = tmp @ ''/di-c-dev''; home_other = tmp @ ''/di-c-other'' in
      step_seq (import_mod E ''click.testing'') (step_seq (import_mod E ''esr.cli.main'')
      (try_track (ie_format_exc E) ''DI-C'' ''esr cap subcommands honour ESRD_HOME per-instance''
       (step_seq (import_mod E ''yaml'')
       (step_seq (write_path (ie_clock E) (home_dev @ ''/default/capabilities.yaml'')
          (ie_dump E (scoped_doc ''ou_dev_scoped'' ''workspace:dev-proj/msg.send'')))
       (step_seq (write_path (ie_clock E) (home_other @ ''/default/capabilities.yaml'')
          (ie_dump E (scoped_doc ''ou_other_scoped'' ''workspace:other-proj/msg.send'')))
       (step_bind (invoke_cli E [''cap'', ''show'', ''ou_dev_scoped''] [(''ESRD_HOME'', home_dev), (''ESR_INSTANCE'', ''default'')] [] None)
         (\<lambda>(code1, out1).
        step_seq (steps
          [assert_that (code1 = 0) (''C-1 cap show failed: '' @ repr_str out1),
           assert_in out1 ''ou_dev_scoped'' (''C-2 output missing ou_dev_scoped: '' @ repr_str out1),
           assert_in out1 ''workspace:dev-proj/msg.send'' (''C-3 output missing perm: '' @ repr_str out1)])
       (step_bind (invoke_cli E [''cap'', ''show'', ''ou_other_scoped''] [(''ESRD_HOME'', home_other), (''ESR_INSTANCE'', ''default'')] [] None)
         (\<lambda>(code2, out2). steps
          [assert_that (code2 = 0) (''C-4 second cap show failed: '' @ repr_str out2),
           assert_in out2 ''ou_other_scoped'' (''C-4 second output missing ou_other_scoped: '' @ repr_str out2),
           assert_that (\<not> contains out2 ''ou_dev_scoped'') ''C-4 cross-leak: ou_dev_scoped in home_other run'']))))))))))"

text \<open>\<open>glob("*.yaml")\<close> of a directory.\<close>

definition glob_yaml :: "string \<Rightarrow> string list step" where
  "glob_yaml dir d = (Inr (filter
     (\<lambda>p. startswith p (dir @ ''/'') \<and> CHR ''/'' \<notin> set (drop (length dir + 1) p) \<and> startswith (rev p) (rev ''.yaml''))
     (map fst (dk_files d))), d)"

definition create_app :: "iso_env \<Rightarrow> string \<Rightarrow> string \<Rightarrow> string \<Rightarrow> (int \<times> string) step" where
  "create_app E home name stdin = invoke_cli E
     [''adapter'', ''feishu'', ''create-app'', ''--name'', name, ''--target-env'', ''dev'', ''--no-wait''] [] stdin (Some home)"

definition lines_in :: "string list \<Rightarrow> string" where
  "lines_in ls = concat (map (\<lambda>l. l @ [CHR 0x0A]) ls)"

definition pending_dir :: "string \<Rightarrow> string" where
  "pending_dir home = home @ ''/default/admin_queue/pending''"

definition load_yaml :: "iso_env \<Rightarrow> string \<Rightarrow> py_val step" where
  "load_yaml E path = step_bind (read_path path) (\<lambda>t. step_of (ie_load E t))"

text \<open>\<open>_assert(doc["args"][key] == expected, \<dots>)\<close>.\<close>

definition assert_arg :: "iso_env \<Rightarrow> py_val \<Rightarrow> string \<Rightarrow> string \<Rightarrow> string \<Rightarrow> unit step" where
  "assert_arg E doc key expected msg =
     step_bind (step_of (py_index doc ''args'')) (\<lambda>args. step_bind (step_of (py_index args key)) (\<lambda>v.
       assert_that (v = PyStr expected) (msg @ ie_repr E v)))"

definition helper_name :: string where
  "helper_name = ''ESR '' @ [CHR 0xE5, CHR 0xBC, CHR 0x80, CHR 0xE5, CHR 0x8F, CHR 0x91, CHR 0xE5, CHR 0x8A, CHR 0xA9, CHR 0xE6, CHR 0x89, CHR 0x8B]"

definition track_di_d :: "iso_env \<Rightarrow> string \<Rightarrow> track_result step" where
  "track_di_d E tmp =
     step_seq (import_mod E ''yaml'') (step_seq (import_mod E ''click.testing'') (step_seq (import_mod E ''esr.cli.main'')
     (try_track (ie_format_exc E) ''DI-D'' ''register_adapter queued with correct shape''
      (step_seq (import_mod E ''esr.cli.adapter.feishu'')
      (step_bind (create_app E (tmp @ ''/di-d'') helper_name (lines_in [''cli_di_d_app'', ''secret_di_d''])) (\<lambda>(code, out).
       step_seq (assert_that (code = 0) (''D-1 wizard exit='' @ show_int code @ '', out='' @ repr_str out))
      (step_bind (glob_yaml (pending_dir (tmp @ ''/di-d''))) (\<lambda>pending.
       step_seq (assert_that (length pending = 1) (''D-2 expected 1 pending yaml, got '' @ show_nat (length pending)))
      (step_bind (load_yaml E (hd pending)) (\<lambda>doc.
       step_bind (step_of (py_index doc ''kind'')) (\<lambda>kind. steps
        [assert_that (kind = PyStr ''register_adapter'') (''D-3 kind='' @ ie_repr E kind),
         assert_arg E doc ''type'' ''feishu'' ''D-3 args.type='', assert_arg E doc ''name'' helper_name ''D-3 args.name='',
         assert_arg E doc ''app_id'' ''cli_di_d_app'' ''D-4 args.app_id='',
         assert_arg E doc ''app_secret'' ''secret_di_d'' ''D-4 args.app_secret=''])))))))))))"

definition track_di_e :: "iso_env \<Rightarrow> string \<Rightarrow> track_result step" where
  "track_di_e E tmp =
     (let spec = ie_repo E @ ''/docs/superpowers/specs/2026-04-21-esr-dev-prod-isolation-design.md'' in
      step_seq (import_mod E ''click.testing'')
      (try_track (ie_format_exc E) ''DI-E'' ''p2p_chat_create_v1 event subscribed + planned''
       (step_seq (import_mod E ''esr.cli.adapter.feishu'')
       (step_seq (assert_that (''im.chat.access_event.bot.p2p_chat_create_v1'' \<in> set (ie_events E))
          (''E-1 p2p_chat_create_v1 missing from _EVENTS: '' @ ie_repr E (PyTuple (map PyStr (ie_events E)))))
       (step_seq (import_mod E ''esr.cli.main'')
       (step_bind (create_app E (tmp @ ''/di-e'') ''event-check'' (lines_in [''id'', ''secret''])) (\<lambda>(code, out).
        step_seq (assert_that (code = 0) (''E-pre wizard exit='' @ show_int code))
       (step_seq (assert_in out ''p2p_chat_create_v1'' ''E-2 wizard stdout missing p2p_chat_create_v1'')
       (step_seq (assert_exists spec ''E-3 design spec missing'')
       (step_bind (read_path spec) (\<lambda>spec_text.
         assert_in spec_text ''p2p_chat_create_v1'' (''E-3 spec doesn'' @ ap @ ''t mention p2p_chat_create_v1''))))))))))))"

section \<open>Tracks on the sources of the runtime\<close>

definition track_di_f :: "iso_env \<Rightarrow> string \<Rightarrow> track_result step" where
  "track_di_f E _ =
     (let router = runtime_file E ''lib/esr/routing/session_router.ex'';
          witness = runtime_file E ''test/esr/routing/session_router_test.exs'' in
      try_track (ie_format_exc E) ''DI-F'' ''/new-session parse + kind map + worktree flag present''
       (step_seq (assert_exists router (''F-pre '' @ router @ '' missing''))
       (step_bind (read_path router) (\<lambda>src. steps
          [assert_in src ''/new-session '' (''F-1 Router source doesn'' @ ap @ ''t parse /new-session''),
           assert_in src ''session_new'' (''F-2 Router source doesn'' @ ap @ ''t map to session_new kind''),
           assert_in src ''new_worktree'' (''F-3 Router source doesn'' @ ap @ ''t parse --new-worktree flag''),
           assert_exists witness (''F-4 witness test missing: '' @ witness)]))))"

definition track_di_g :: "iso_env \<Rightarrow> string \<Rightarrow> track_result step" where
  "track_di_g E _ =
     (let switch = runtime_file E ''lib/esr/admin/commands/session/switch.ex'';
          witness = runtime_file E ''test/esr/admin/commands/session/switch_test.exs'' in
      try_track (ie_format_exc E) ''DI-G'' ''switch.ex is pure routing.yaml rwm''
       (step_seq (assert_exists switch (''G-pre '' @ switch @ '' missing''))
       (step_bind (read_path switch) (\<lambda>src.
        step_seq (assert_in src ''routing.yaml'' (''G-1 switch.ex doesn'' @ ap @ ''t reference routing.yaml''))
       (step_seq (steps (map (\<lambda>forbidden. assert_that (\<not> contains src forbidden)
           (''G-2 switch.ex mentions forbidden token '' @ repr_str forbidden @ '' '' @ em_dash @ '' scope creep''))
          [''System.cmd'', ''esr-branch'', ''worktree'']))
        (assert_exists witness (''G-3 witness test missing: '' @ witness)))))))"

definition track_di_h :: "iso_env \<Rightarrow> string \<Rightarrow> track_result step" where
  "track_di_h E _ =
     (let end_mod = runtime_file E ''lib/esr/admin/commands/session/end.ex'';
          witness = runtime_file E ''test/esr/admin/commands/session/end_cleanup_test.exs'' in
      try_track (ie_format_exc E) ''DI-H'' ''end cleanup handshake + witness present''
       (step_seq (assert_exists end_mod (''H-pre '' @ end_mod @ '' missing''))
       (step_bind (read_path end_mod) (\<lambda>src. steps
          [assert_in src ''cleanup_signal'' ''H-1 end.ex missing cleanup_signal'',
           assert_in src ''CLEANED'' ''H-2 end.ex missing CLEANED literal'',
           assert_in src ''DIRTY'' ''H-2 end.ex missing DIRTY literal'',
           assert_exists witness (''H-3 witness test missing: '' @ witness)]))))"

definition track_di_i :: "iso_env \<Rightarrow> string \<Rightarrow> track_result step" where
  "track_di_i E _ =
     (let end_mod = runtime_file E ''lib/esr/admin/commands/session/end.ex'';
          witness = runtime_file E ''test/esr/admin/commands/session/end_cleanup_test.exs'' in
      try_track (ie_format_exc E) ''DI-I'' ''end.ex declares 30s timeout + witness covers it''
       (step_bind (read_path end_mod) (\<lambda>src.
        step_seq (assert_in src ''cleanup_timeout'' ''I-1 end.ex missing cleanup_timeout error type'')
       (step_seq (assert_that (contains src ''30_000'' \<or> contains src ''30000'') ''I-2 end.ex missing 30-second window literal'')
       (step_bind (read_path witness) (\<lambda>wsrc.
         assert_in wsrc ''cleanup_timeout'' (''I-3 witness test doesn'' @ ap @ ''t cover cleanup_timeout branch'')))))))"

text \<open>\<open>resolve_url\<close> with the environment of the track.\<close>

definition resolve_step :: "iso_env \<Rightarrow> string \<Rightarrow> string step" where
  "resolve_step E home d =
     (resolve_url (port_file_text ((ie_environ E)(''ESRD_HOME'' \<mapsto> home, ''ESR_INSTANCE'' \<mapsto> ''default'')) (ie_user_home E)
        (\<lambda>h i. map_option snd (file_at d (h @ ''/'' @ i @ ''/esrd.port'')))) ''ws://127.0.0.1:9999/socket'', d)"

definition track_di_j :: "iso_env \<Rightarrow> string \<Rightarrow> track_result step" where
  "track_di_j E tmp =
     (let reload_mod = runtime_file E ''lib/esr/admin/commands/reload.ex'';
          home = tmp @ ''/di-j'';
          port_file = home @ ''/default/esrd.port'' in
      try_track (ie_format_exc E) ''DI-J'' ''reload labels + _resolve_url re-reads port file''
       (step_seq (assert_exists reload_mod (''J-pre '' @ reload_mod @ '' missing''))
       (step_bind (read_path reload_mod) (\<lambda>src.
        step_seq (assert_in src ''com.ezagent.esrd'' ''J-1 reload.ex missing prod launchctl label'')
       (step_seq (assert_in src ''com.ezagent.esrd-dev'' ''J-1 reload.ex missing dev launchctl label'')
       (step_seq (import_mod E ''_ipc_common.url'')
       (step_seq (write_path (ie_clock E) port_file ''4001'')
       (step_bind (resolve_step E home) (\<lambda>url1.
        step_seq (assert_in url1 '':4001/'' (''J-2 resolve_url didn'' @ ap @ ''t substitute port 4001 from file: '' @ repr_str url1))
       (step_seq (write_path (ie_clock E) port_file ''5005'')
       (step_bind (resolve_step E home) (\<lambda>url2. steps
          [assert_in url2 '':5005/'' (''J-3 resolve_url didn'' @ ap @ ''t pick up rewritten port: '' @ repr_str url2),
           assert_that (\<not> contains url2 '':4001/'') ''J-3 resolve_url cached old port 4001 after rewrite''])))))))))) ))"

definition track_di_k :: "iso_env \<Rightarrow> string \<Rightarrow> track_result step" where
  "track_di_k E _ =
     (let reload_mod = runtime_file E ''lib/esr/admin/commands/reload.ex'';
          witness = runtime_file E ''test/esr/admin/commands/reload_test.exs'' in
      try_track (ie_format_exc E) ''DI-K'' ''reload breaking-gate + witness coverage present''
       (step_bind (read_path reload_mod) (\<lambda>src.
        step_seq (assert_in src ''unacknowledged_breaking'' ''K-1 reload.ex missing unacknowledged_breaking error type'')
       (step_seq (assert_in src ''acknowledge_breaking'' ''K-2 reload.ex missing acknowledge_breaking arg parse'')
       (step_bind (read_path witness) (\<lambda>wsrc.
         assert_in wsrc ''unacknowledged_breaking'' (''K-3 witness test doesn'' @ ap @ ''t cover unacknowledged_breaking branch'')))))))"

definition track_di_l :: "iso_env \<Rightarrow> string \<Rightarrow> track_result step" where
  "track_di_l E _ =
     (let hook = ie_repo E @ ''/scripts/hooks/post-merge'' in
      try_track (ie_format_exc E) ''DI-L'' (''post-merge hook wires breaking detection '' @ right_arrow @ '' esr notify'')
       (step_seq (assert_exists hook (''L-pre '' @ hook @ '' missing''))
       (step_bind (read_path hook) (\<lambda>src. steps
          [assert_in src ''esr notify --type=breaking'' (''L-1 hook doesn'' @ ap @ ''t call esr notify --type=breaking''),
           assert_in src ''^[^:]*!:'' (''L-2 hook doesn'' @ ap @ ''t scan for Conventional-Commits breaking marker''),
           assert_in src (''HEAD@'' @ ''{1}'') (''L-3 hook doesn'' @ ap @ ''t use HEAD@'' @ ''{1} to derive pre-merge ref'')]))))"

definition track_di_m :: "iso_env \<Rightarrow> string \<Rightarrow> track_result step" where
  "track_di_m E _ =
     (let reload_mod = runtime_file E ''lib/esr/admin/commands/reload.ex'' in
      try_track (ie_format_exc E) ''DI-M'' ''last_reload.yaml persistence wired correctly''
       (step_bind (read_path reload_mod) (\<lambda>src.
        step_seq (steps (map (\<lambda>key. assert_in src key (''M-1 reload.ex missing last_reload key '' @ repr_str key))
          [''last_reload_sha'', ''last_reload_ts'', quoted ''by'', ''acknowledged_breaking'']))
        (steps
          [assert_in src ''Esr.Yaml.Writer.write'' (''M-2 reload.ex doesn'' @ ap @ ''t call Esr.Yaml.Writer.write''),
           assert_in src ''last_reload_path'' (''M-2 reload.ex doesn'' @ ap @ ''t define last_reload_path helper''),
           assert_in src ''runtime_home'' (''M-3 reload.ex doesn'' @ ap @ ''t resolve last_reload path under runtime_home'')]))))"

definition track_di_n :: "iso_env \<Rightarrow> string \<Rightarrow> track_result step" where
  "track_di_n E _ =
     (let router = runtime_file E ''lib/esr/routing/session_router.ex'';
          watcher = runtime_file E ''lib/esr/admin/command_queue/watcher.ex'' in
      try_track (ie_format_exc E) ''DI-N'' ''orphan sweeps wired in both Router + Watcher''
       (step_seq (assert_exists router (''N-pre router missing: '' @ router))
       (step_seq (assert_exists watcher (''N-pre watcher missing: '' @ watcher))
       (step_bind (read_path router) (\<lambda>rsrc. step_bind (read_path watcher) (\<lambda>wsrc. steps
          [assert_in rsrc ''scan_orphan_esrd_dirs'' ''N-1 SessionRouter missing scan_orphan_esrd_dirs'',
           assert_in wsrc ''scan_pending_orphans'' ''N-2 Watcher missing scan_pending_orphans'',
           assert_in wsrc ''scan_stale_processing'' ''N-3 Watcher missing scan_stale_processing'']))))))"

text \<open>The documents of the queue, in the order of their names; the set of their \<open>app_id\<close>s.\<close>

primrec load_all :: "iso_env \<Rightarrow> string list \<Rightarrow> py_val list step" where
  "load_all E [] = step_of (Inr [])"
| "load_all E (p # ps) = step_bind (load_yaml E p) (\<lambda>v. step_bind (load_all E ps) (\<lambda>vs. step_of (Inr (v # vs))))"

definition app_id_of :: "py_val \<Rightarrow> py_val res" where
  "app_id_of doc = rbind (py_index doc ''args'') (\<lambda>args. rbind (py_index args ''app_id'') (\<lambda>v.
     if hashable v then Inr v else Inl (type_error (''unhashable type: '' @ repr_str (type_name v)))))"

definition track_di_o :: "iso_env \<Rightarrow> string \<Rightarrow> track_result step" where
  "track_di_o E tmp =
     (let home = tmp @ ''/di-o''; reg = runtime_file E ''lib/esr/admin/commands/register_adapter.ex'' in
      step_seq (import_mod E ''yaml'') (step_seq (import_mod E ''click.testing'') (step_seq (import_mod E ''esr.cli.main'')
      (try_track (ie_format_exc E) ''DI-O'' ''rotation submits 2 cmds; dispatcher idempotent by name''
       (step_seq (import_mod E ''esr.cli.adapter.feishu'')
       (step_bind (create_app E home ''rotate-me'' (lines_in [''old_id'', ''old_secret''])) (\<lambda>(code1, out1).
        step_seq (assert_that (code1 = 0) (''O-pre first wizard: '' @ repr_str out1))
       (step_bind (create_app E home ''rotate-me'' (lines_in [''new_id'', ''new_secret''])) (\<lambda>(code2, out2).
        step_seq (assert_that (code2 = 0) (''O-pre second wizard: '' @ repr_str out2))
       (step_bind (glob_yaml (pending_dir home)) (\<lambda>pending.
        step_seq (assert_that (length pending = 2) (''O-1 expected 2 yamls, got '' @ show_nat (length pending)))
       (step_bind (load_all E (sort pending)) (\<lambda>docs.
        step_seq (steps (map (\<lambda>doc.
           step_bind (step_of (py_index doc ''kind'')) (\<lambda>kind.
           step_seq (assert_that (kind = PyStr ''register_adapter'') (''O-1 wrong kind on '' @ ie_repr E doc))
             (assert_arg E doc ''name'' ''rotate-me'' ''O-2 name mismatch: ''))) docs))
       (step_bind (step_of (mapM app_id_of docs)) (\<lambda>app_ids.
        step_seq (assert_that (set app_ids = {PyStr ''old_id'', PyStr ''new_id''})
           (''O-3 app_ids='' @ ie_repr E (PySet (remdups app_ids)) @ '', expected {old_id, new_id}''))
       (step_bind (read_path reg) (\<lambda>src.
         assert_in src ''instances'' (''O-4 register_adapter.ex doesn'' @ ap @ ''t reference instances.<name> path''))))))))))))))))))"

definition track_di_p :: "iso_env \<Rightarrow> string \<Rightarrow> track_result step" where
  "track_di_p E _ =
     (let disp = runtime_file E ''lib/esr/admin/dispatcher.ex'';
          witness = runtime_file E ''test/esr/admin/commands/notify_test.exs'' in
      try_track (ie_format_exc E) ''DI-P'' (''dispatcher cap-check '' @ right_arrow @ '' failed/ + witness coverage'')
       (step_bind (read_path disp) (\<lambda>src.
        step_seq (assert_in src (quoted ''unauthorized'') (''P-1 dispatcher.ex doesn'' @ ap @ ''t use '' @ ap @ ''unauthorized'' @ ap @ '' error type''))
       (step_seq (assert_that (contains src ''move_pending_to'' \<and> contains src (quoted ''failed''))
          (''P-2 dispatcher.ex doesn'' @ ap @ ''t move pending '' @ right_arrow @ '' failed''))
       (step_seq (assert_exists witness (''P-3 notify_test.exs missing: '' @ witness))
       (step_bind (read_path witness) (\<lambda>wsrc. steps
          [assert_in wsrc ''unauthorized'' (''P-3 notify_test.exs doesn'' @ ap @ ''t assert '' @ ap @ ''unauthorized'' @ ap @ '' branch''),
           assert_that (contains wsrc ''failed/'' \<or> contains wsrc (quoted ''failed'')) (''P-3 notify_test.exs doesn'' @ ap @ ''t assert the failed/ terminal state'')])))))))"

definition track_di_q :: "iso_env \<Rightarrow> string \<Rightarrow> track_result step" where
  "track_di_q E _ =
     (let disp = runtime_file E ''lib/esr/admin/dispatcher.ex'';
          witness = runtime_file E ''test/esr/admin/dispatcher_test.exs'' in
      try_track (ie_format_exc E) ''DI-Q'' ''telemetry + redaction present; witness asserts both''
       (step_bind (read_path disp) (\<lambda>src. step_seq (steps
          [assert_in src '':command_executed'' (''Q-1 dispatcher.ex doesn'' @ ap @ ''t emit :command_executed telemetry''),
           assert_in src '':command_failed'' (''Q-1 dispatcher.ex doesn'' @ ap @ ''t emit :command_failed telemetry''),
           assert_in src ''[:esr, :admin,'' (''Q-1 dispatcher.ex doesn'' @ ap @ ''t emit under [:esr, :admin, ...] prefix''),
           assert_in src ''[redacted_post_exec]'' ''Q-2 dispatcher.ex missing [redacted_post_exec] sentinel'',
           assert_that (contains src ''@secret_arg_keys'' \<or> contains src ''secret_arg_keys'') ''Q-3 dispatcher.ex missing secret_arg_keys config'',
           assert_that (contains src (quoted ''app_secret'') \<or> contains src ''app_secret'')
             (''Q-3 dispatcher.ex doesn'' @ ap @ ''t list app_secret as a redaction key'')])
       (step_seq (assert_exists witness (''Q-pre witness test missing: '' @ witness))
       (step_bind (read_path witness) (\<lambda>wsrc. steps
          [assert_in wsrc '':telemetry.attach'' (''Q-4 dispatcher_test.exs doesn'' @ ap @ ''t attach a telemetry handler''),
           assert_in wsrc ''[redacted_post_exec]'' (''Q-5 dispatcher_test.exs doesn'' @ ap @ ''t assert the redaction sentinel'')]))))))"


section \<open>The runner\<close>

definition iso_tracks :: "iso_env \<Rightarrow> string \<Rightarrow> track_result step list" where
  "iso_tracks E tmp = map (\<lambda>t. t E tmp)
     [track_di_a, track_di_b, track_di_c, track_di_d, track_di_e, track_di_f, track_di_g, track_di_h, track_di_i, track_di_j,
      track_di_k, track_di_l, track_di_m, track_di_n, track_di_o, track_di_p, track_di_q]"

definition iso_main :: "iso_env \<Rightarrow> string \<Rightarrow> disk \<Rightarrow> harness_run" where
  "iso_main E tmp d =
     harness_main (''ESR dev/prod isolation E2E '' @ em_dash @ '' 17 tracks'') [''elapsed: '' @ ie_elapsed E @ ''s''] (\<lambda>_. [])
       (iso_tracks E tmp) tmp d"


section \<open>Verdicts\<close>

text \<open>A computation that raises nothing beyond \<open>Exception\<close>, so that a track turns it into a verdict.\<close>

definition tame :: "'a step \<Rightarrow> bool" where
  "tame m = (\<forall>d e d'. m d = (Inl e, d') \<longrightarrow> is_exception e)"

named_theorems tame_intros \<open>computations that raise exceptions only\<close>

lemma tame_bind [tame_intros]: "tame m \<Longrightarrow> (\<And>x. tame (f x)) \<Longrightarrow> tame (step_bind m f)"
  unfolding tame_def step_bind_def by (fastforce split: prod.splits sum.splits)

lemma tame_seq [tame_intros]: "tame m \<Longrightarrow> tame k \<Longrightarrow> tame (step_seq m k)"
  unfolding step_seq_def by (intro tame_intros)

lemma tame_finally [tame_intros]: "tame m \<Longrightarrow> tame k \<Longrightarrow> tame (step_finally m k)"
  unfolding tame_def step_finally_def by (fastforce split: prod.splits sum.splits)

lemma tame_case_prod [tame_intros]: "(\<And>a b. tame (f a b)) \<Longrightarrow> tame (case x of (a, b) \<Rightarrow> f a b)"
  by (cases x) simp

lemma tame_if [tame_intros]: "tame m \<Longrightarrow> tame k \<Longrightarrow> tame (if c then m else k)"
  by simp

lemma tame_returns [tame_intros]: "tame (step_of (Inr x))"
  by (simp add: tame_def step_of_def)

lemma tame_asserts [tame_intros]:
  "tame (assert_that c msg)" "tame (assert_in src w msg)" "tame (assert_exists p msg)" "tame (assert_missing p msg)"
  by (auto simp: tame_def assert_that_def assert_in_def assert_exists_def assert_missing_def step_of_def is_exception_def)

lemma tame_files [tame_intros]: "tame (read_path p)" "tame (write_path clock p t)" "tame (read_stripped p)"
proof -
  show r: "tame (read_path p)"
    by (auto simp: tame_def read_path_def no_such_file_def is_exception_def split: option.splits)
  show "tame (write_path clock p t)" by (simp add: tame_def write_path_def)
  show "tame (read_stripped p)" unfolding read_stripped_def by (intro tame_bind r tame_returns)
qed

lemma tame_int [tame_intros]: "tame (int_of_text s)"
  by (auto simp: tame_def int_of_text_def step_of_def value_error_def is_exception_def split: option.splits)

lemma tame_steps [tame_intros]: "list_all tame ms \<Longrightarrow> tame (steps ms)"
  by (induction ms) (auto intro: tame_intros)

lemma tame_lists [tame_intros]: "list_all tame []" "tame m \<Longrightarrow> list_all tame ms \<Longrightarrow> list_all tame (m # ms)"
  by simp_all

lemma tame_track: "tame body \<Longrightarrow> \<exists>r d'. try_track fe name ok body d = (Inr r, d') \<and> tr_name r = name"
  by (cases "body d") (auto simp: tame_def try_track_def split: sum.splits)

lemma tame_esrd:
  assumes "\<And>args env. tame (ie_run E args env)"
  shows "tame (esrd_sh_start E home inst port)" "tame (esrd_sh_stop E home inst)"
  unfolding esrd_sh_start_def esrd_sh_stop_def by (intro tame_intros assms)+

text \<open>A checkout for the witnesses: \<^verbatim>\<open>esrd.sh\<close> fails, and click is missing.\<close>

definition bare_env :: iso_env where
  "bare_env = \<lparr>ie_import = (\<lambda>m. if m = ''click.testing'' then Inl (Exc ''ModuleNotFoundError'' ''No module named click'') else Inr ()),
     ie_run = (\<lambda>args env. step_of (Inr (1, ''esrd: no mix''))), ie_cli = (\<lambda>args env stdin home d. ((1, []), d)), ie_events = [],
     ie_dump = (\<lambda>_. []), ie_load = (\<lambda>_. Inr PyNone), ie_environ = (\<lambda>_. None), ie_user_home = ''/h'', ie_clock = int,
     ie_format_exc = exc_msg, ie_elapsed = ''0.00'', ie_repr = (\<lambda>_. []), ie_repo = ''/r''\<rparr>"

definition bare_disk :: "string option \<Rightarrow> disk" where
  "bare_disk reload = \<lparr>dk_files = (case reload of None \<Rightarrow> []
     | Some t \<Rightarrow> [(''/r/runtime/lib/esr/admin/commands/reload.ex'', (0, t))]), dk_writes = 0\<rparr>"

text \<open>
  The isolation scenario stops at its third track. In a checkout without the command line (click cannot be imported) the two
  tracks on \<^verbatim>\<open>esrd.sh\<close> get a verdict, whatever the script does, and then \<open>main\<close> raises the error of the import: no later track runs, among them
  all that look at the runtime, and there is neither a count nor an exit code.
\<close>

theorem isolation_stops_at_cli:
  assumes "\<forall>args env. tame (ie_run E args env)" "ie_import E ''click.testing'' = Inl e"
  shows "\<exists>a b. (hr_lines (iso_main E tmp d), hr_exit (iso_main E tmp d)) =
    ([''ESR dev/prod isolation E2E '' @ em_dash @ '' 17 tracks'', rule_line, track_line a, track_line b], Inl e) \<and>
    tr_name a = ''DI-A'' \<and> tr_name b = ''DI-B''"
proof -
  note esrd = tame_esrd [OF assms(1) [rule_format]]
  have "\<exists>a d1. track_di_a E tmp d = (Inr a, d1) \<and> tr_name a = ''DI-A''"
    unfolding track_di_a_def Let_def by (intro tame_track tame_intros esrd)
  then obtain a d1 where a: "track_di_a E tmp d = (Inr a, d1)" "tr_name a = ''DI-A''" by blast
  have "\<exists>b d2. track_di_b E tmp d1 = (Inr b, d2) \<and> tr_name b = ''DI-B''"
    unfolding track_di_b_def Let_def by (intro tame_track tame_intros esrd)
  then obtain b d2 where b: "track_di_b E tmp d1 = (Inr b, d2)" "tr_name b = ''DI-B''" by blast
  have c: "track_di_c E tmp d2 = (Inl e, d2)" by (simp add: track_di_c_def import_mod_def assms(2) step_simps Let_def)
  have "hr_lines (iso_main E tmp d) = [''ESR dev/prod isolation E2E '' @ em_dash @ '' 17 tracks'', rule_line, track_line a, track_line b]"
    "hr_exit (iso_main E tmp d) = Inl e"
    by (simp_all add: iso_main_def harness_main_def iso_tracks_def a(1) b(1) c Let_def)
  with a(2) b(2) show ?thesis by blast
qed

theorem isolation_stops_at_cli_witness:
  "\<exists>a b. (hr_lines (iso_main bare_env ''/t'' (bare_disk None)), hr_exit (iso_main bare_env ''/t'' (bare_disk None))) =
    ([''ESR dev/prod isolation E2E '' @ em_dash @ '' 17 tracks'', rule_line, track_line a, track_line b],
     Inl (Exc ''ModuleNotFoundError'' ''No module named click'')) \<and> tr_name a = ''DI-A'' \<and> tr_name b = ''DI-B''"
  by (rule isolation_stops_at_cli) (simp_all add: bare_env_def tame_intros)

text \<open>The sources of the runtime that the tracks read and that a checkout after the move of \<^verbatim>\<open>admin\<close> and \<^verbatim>\<open>routing\<close> lacks.\<close>

definition moved_sources :: "string list" where
  "moved_sources = [''lib/esr/routing/session_router.ex'', ''lib/esr/admin/commands/session/switch.ex'',
     ''lib/esr/admin/commands/session/end.ex'', ''lib/esr/admin/commands/reload.ex'', ''lib/esr/admin/dispatcher.ex'']"

text \<open>
  The tracks on the runtime's sources fail once those have moved: in a checkout without the five files the scenario was written for,
  each of the ten tracks F to K, M, N, P and Q ends with the verdict FAIL and leaves the disk as it was, whatever else the checkout holds.
\<close>

theorem moved_sources_fail:
  assumes "\<forall>p\<in>set moved_sources. file_at d (runtime_file E p) = None"
  shows "\<forall>t\<in>{track_di_f, track_di_g, track_di_h, track_di_i, track_di_j, track_di_k, track_di_m, track_di_n, track_di_p, track_di_q}.
    \<exists>r. t E tmp d = (Inr r, d) \<and> \<not> tr_passed r"
  using assms by (simp add: moved_sources_def track_di_f_def track_di_g_def track_di_h_def track_di_i_def track_di_j_def track_di_k_def
      track_di_m_def track_di_n_def track_di_p_def track_di_q_def try_track_def step_simps no_such_file_def is_exception_def Let_def)

theorem moved_sources_fail_witness:
  "\<exists>r. track_di_q bare_env ''/t'' (bare_disk None) = (Inr r, bare_disk None) \<and> \<not> tr_passed r"
  using moved_sources_fail [of "bare_disk None" bare_env "''/t''"] by (simp add: bare_disk_def file_at_def)

text \<open>A word that contains another.\<close>

lemma contains_iff: "contains s p \<longleftrightarrow> (\<exists>a b. s = a @ p @ b)"
proof (induction s)
  case (Cons c s)
  have "(\<exists>a b. c # s = a @ p @ b) \<longleftrightarrow> (\<exists>b. c # s = p @ b) \<or> (\<exists>a b. s = a @ p @ b)"
    by (metis append_Cons append_Nil list.exhaust list.inject)
  with Cons show ?case by (simp add: startswith_iff)
qed auto

lemma contains_trans: "contains s p \<Longrightarrow> contains p q \<Longrightarrow> contains s q"
  unfolding contains_iff by (metis append.assoc)

text \<open>
  The check B-3 that the development plist names its own \<open>ESRD_HOME\<close> follows from the check B-2 of its label, and so does the check J-1
  of the production label from the one of the development label: neither can fail alone.
\<close>

lemma label_names_home: "contains s ''<string>com.ezagent.esrd-dev</string>'' \<Longrightarrow> contains s ''.esrd-dev''"
  by (erule contains_trans) code_simp

lemma dev_label_names_prod: "contains s ''com.ezagent.esrd-dev'' \<Longrightarrow> contains s ''com.ezagent.esrd''"
  by (erule contains_trans) code_simp

lemma resolved_ports:
  "resolve_url (Some ''4001'') ''ws://127.0.0.1:9999/socket'' = Inr ''ws://127.0.0.1:4001/socket''"
  "resolve_url (Some ''5005'') ''ws://127.0.0.1:9999/socket'' = Inr ''ws://127.0.0.1:5005/socket''"
  "strip ''4001'' = ''4001''" "strip ''5005'' = ''5005''"
  "contains ''ws://127.0.0.1:4001/socket'' '':4001/''" "contains ''ws://127.0.0.1:5005/socket'' '':5005/''"
  "\<not> contains ''ws://127.0.0.1:5005/socket'' '':4001/''"
  by code_simp+

lemma resolve_step_run:
  assumes "file_at d (home @ ''/default/esrd.port'') = Some (m, port)" "home \<noteq> []"
  shows "step_bind (resolve_step E home) f d =
    (case resolve_url (Some (strip port)) ''ws://127.0.0.1:9999/socket'' of Inl e \<Rightarrow> (Inl e, d) | Inr url \<Rightarrow> f url d)"
proof -
  have "port_file_text ((ie_environ E)(''ESRD_HOME'' \<mapsto> home, ''ESR_INSTANCE'' \<mapsto> ''default'')) (ie_user_home E)
      (\<lambda>h i. map_option snd (file_at d (h @ ''/'' @ i @ ''/esrd.port''))) = Some (strip port)"
    using assms by (cases home) (simp_all add: port_file_text_def env_get_def)
  then show ?thesis by (simp add: step_bind_def resolve_step_def split: sum.split)
qed

text \<open>
  The reload track tests the resolver as it claims: with the resolver importable, both ports written to the file are picked up, on the
  first call and after the rewrite, so the verdict is exactly whether \<^verbatim>\<open>reload.ex\<close> is there and names the development label.
\<close>

theorem reload_track_verdict:
  assumes "ie_import E ''_ipc_common.url'' = Inr ()"
  shows "\<exists>r d'. track_di_j E tmp d = (Inr r, d') \<and>
    tr_passed r = (case file_at d (runtime_file E ''lib/esr/admin/commands/reload.ex'') of
      None \<Rightarrow> False | Some (_, src) \<Rightarrow> contains src ''com.ezagent.esrd-dev'')"
  using assms dev_label_names_prod
  by (auto simp: track_di_j_def try_track_def assert_in_def import_mod_def step_simps resolve_step_run resolved_ports Let_def
      split: option.splits)

theorem reload_track_verdict_witness:
  "\<exists>r d'. track_di_j bare_env ''/t'' (bare_disk (Some ''com.ezagent.esrd-dev'')) = (Inr r, d') \<and> tr_passed r"
proof -
  have "file_at (bare_disk (Some ''com.ezagent.esrd-dev'')) (runtime_file bare_env ''lib/esr/admin/commands/reload.ex'') =
      Some (0, ''com.ezagent.esrd-dev'')"
    by (simp add: bare_disk_def file_at_def runtime_file_def bare_env_def)
  moreover have "contains ''com.ezagent.esrd-dev'' ''com.ezagent.esrd-dev''" by code_simp
  moreover have "ie_import bare_env ''_ipc_common.url'' = Inr ()" by (simp add: bare_env_def)
  ultimately show ?thesis using reload_track_verdict [of bare_env "''/t''" "bare_disk (Some ''com.ezagent.esrd-dev'')"] by simp
qed

end
