(* ===== verification/Spec2Isabelle.thy ===== *)
theory Spec2Isabelle
  imports Uri Capability Workspaces Envelope Registry Ipc_Url Channel_Client Handlers Handler_Worker Adapter_Runner
    Processes Phx_Client Cc_Bridge Verify Shipped_Imports Media Feishu_Parsers Feishu_Adapter Feishu_Events Mock_Feishu
    Feishu_Loop Ledger Source_Gates Prd_Gates Mock_Cc Bridge_Process
    Cap_Scenario Isolation_Scenario
begin

text \<open>
  ESR: the Python side of an agent runtime. Chat messages from Feishu reach adapters, adapters emit events to the
  runtime, the runtime calls handlers in worker processes, handlers answer with a new state and
  actions, and actions return to the adapters as directives or to Claude Code sessions as notifications. The runtime itself
  (Elixir) is the other end of the sockets; this development models the Python that talks to it.

  The parts, from the wire up. The names are those of the code, suffixed where HOL already has one.

  \<^item> \<^verbatim>\<open>ESR_Prelude\<close> holds the values: \<open>py_val\<close> for Python and JSON values, ordered dictionaries as association lists
    with Python's \<open>dset\<close>/\<open>dget\<close>, exceptions as \<open>py_exc\<close>, and results \<open>py_exc + 'a\<close>. Python strings are lists of
    bytes. It also has the interfaces as locales: \<open>write_once_table\<close> (registries), \<open>bounded_log\<close> (queues with a cap),
    \<open>reactive\<close> (a handler with an invariant under any run of events), \<open>reply_table\<close> (correlation of requests and
    replies) and \<open>codec\<close> (round trips). Each is interpreted on the definitions of the components that promise it.
  \<^item> \<^verbatim>\<open>Uri\<close> is \<^verbatim>\<open>py/src/esr/uri.py\<close>: \<open>parse\<close>, the builders and the resource URIs, with urlencode and parse_qsl at the
    level of bytes. Shown: normal form of what parses, round trips of every builder, agreement of equality and hash.
  \<^item> \<^verbatim>\<open>Envelope\<close> is \<^verbatim>\<open>actions.py\<close>, \<^verbatim>\<open>events.py\<close>, \<^verbatim>\<open>ipc/envelope.py\<close>: actions both ways, events, the four envelopes.
    Shown: the round trip of actions and the shape of every envelope the runtime may receive.
  \<^item> \<^verbatim>\<open>Registry\<close> is \<^verbatim>\<open>handler.py\<close>, \<^verbatim>\<open>adapter.py\<close>, \<^verbatim>\<open>adapters.py\<close>: the decorators as state transitions of write-once tables.
  \<^item> \<^verbatim>\<open>Capability\<close> is \<^verbatim>\<open>capabilities.py\<close>, with the matcher of the runtime (\<^verbatim>\<open>grants.ex\<close>) for comparison. Shown: a granted
    permission is backed by an entry of the file as it is now, the modification-time cache is transparent
    to a checker that reads the file each time, wildcards follow their specification and the two matchers agree.
  \<^item> \<^verbatim>\<open>Workspaces\<close> is \<^verbatim>\<open>workspaces.py\<close>: read, write and remove over a parsed file.
  \<^item> \<^verbatim>\<open>Ipc_Url\<close> is both \<^verbatim>\<open>url.py\<close>, \<^verbatim>\<open>_ipc_common/reconnect.py\<close> and \<^verbatim>\<open>disconnect.py\<close>: URL discovery from the port file, the
    backoff loop over a script of connection outcomes, and the watcher.
  \<^item> \<^verbatim>\<open>Channel_Client\<close> is \<^verbatim>\<open>ipc/channel_client.py\<close>, \<^verbatim>\<open>channel_pusher.py\<close>, \<^verbatim>\<open>_ipc_common/frame.py\<close>. A coroutine is the
    list of its segments between two suspension points; a step relation interleaves the segments freely. Shown: one
    invariant for all interleavings, a call gets the reply with its reference and no other, pushes while
    disconnected are kept up to the cap, and reconnecting joins every topic and flushes in order.
  \<^item> \<^verbatim>\<open>Handlers\<close> is the four packages under \<^verbatim>\<open>handlers\<close>: state records and \<open>on_msg\<close> as pure functions. Shown: the
    dedup window, routing to bound threads, and that a redelivered message is notified once.
  \<^item> \<^verbatim>\<open>Handler_Worker\<close> is \<^verbatim>\<open>ipc/handler_worker.py\<close> up to \<open>run_with_client\<close>: the call envelope, state validation, the reply.
    Shown: a session over the wire refines the fold of the handler over its own state type.
  \<^item> \<^verbatim>\<open>Adapter_Runner\<close> is \<^verbatim>\<open>_adapter_common\<close>: directives and events of one connection. \<^verbatim>\<open>Processes\<close> is the rest of the
    worker processes: reconnection around connections, exit codes, the spawn guard. Shown: each directive
    is acknowledged once and in order, within a connection and across any sequence of them, and so is each call
    to a handler worker answered.
  \<^item> \<^verbatim>\<open>Phx_Client\<close> and \<^verbatim>\<open>Cc_Bridge\<close> are \<^verbatim>\<open>cc_channel_runner\<close>: the bridge's own Phoenix client and the MCP stdio server with its
    tools, notifications and the forwarding queue. \<^verbatim>\<open>Bridge_Process\<close> is the whole process, from the join to its exit. Shown:
    frames are forwarded in order and once under every interleaving with heartbeats, tool calls and a lost socket.
  \<^item> \<^verbatim>\<open>Syntax_Tree\<close> holds Python syntax trees with the traversals of the ast module. \<^verbatim>\<open>Verify\<close> is \<^verbatim>\<open>esr/verify\<close>: import scans over a
    tree, each proved equal to a declarative reading of it. \<^verbatim>\<open>Shipped_Imports\<close> runs them on the adapter and the handlers of
    the repository. \<^verbatim>\<open>Source_Gates\<close> is \<^verbatim>\<open>scripts/verify_entry_bodies.py\<close> and \<^verbatim>\<open>verify_cli_tests_live.py\<close> over the same trees.
  \<^item> \<^verbatim>\<open>Media\<close> is \<^verbatim>\<open>esr/resource/media\<close>: store, resolver, phasers, and base64. Shown: content addressing is an
    invariant and what was stored resolves.
  \<^item> \<^verbatim>\<open>Feishu_Parsers\<close>, \<^verbatim>\<open>Feishu_Adapter\<close> and \<^verbatim>\<open>Feishu_Events\<close> are \<^verbatim>\<open>adapters/feishu\<close>: message parsers, every directive with its
    live and mock paths, the retry of rate limits, downloads and uploads, and the inbound streams (polling, the
    relay of the mock socket and the Lark subscription). The world the adapter acts on is a record of services.
  \<^item> \<^verbatim>\<open>Mock_Feishu\<close> is \<^verbatim>\<open>scripts/mock_feishu.py\<close>: the server's state, every endpoint and the routes. Its locale \<open>frame\<close>
    says that a relation on states holds across every request; it is interpreted for two relations.
  \<^item> \<^verbatim>\<open>Feishu_Loop\<close> puts that server under the adapter: directives are followed into the server's state, pushed media back
    to the bytes the adapter downloads. This theory puts the adapter under the runner.
  \<^item> \<^verbatim>\<open>Mock_Cc\<close> is \<^verbatim>\<open>scripts/mock_cc_worker.py\<close> as a state machine over received frames and turns of its announcing task, and
    \<^verbatim>\<open>mock_mcp_ctl.py\<close>. Shown: log and echoes follow the notifications in order, with fresh references.
  \<^item> \<^verbatim>\<open>Text_Lines\<close> has splitlines for the scripts that read texts by line. \<^verbatim>\<open>Ledger\<close> is \<^verbatim>\<open>scripts/ledger_append.py\<close> with
    \<^verbatim>\<open>verify_ledger_append_only.py\<close>: the check accepts exactly the histories that only add approved rows, and what the first script
    writes passes the second. \<^verbatim>\<open>Prd_Gates\<close> is \<^verbatim>\<open>verify_prd_matrix.py\<close> and \<^verbatim>\<open>verify_prd_acceptance.py\<close>, each regular expression
    as the function that decides it.
  \<^item> \<^verbatim>\<open>Scenario_Harness\<close>, \<^verbatim>\<open>Cap_Scenario\<close> and \<^verbatim>\<open>Isolation_Scenario\<close> are \<^verbatim>\<open>scripts/scenarios\<close>: tracks as computations that may raise and that
    change a disk of files, and the runner. Shown: what the tracks on the capability checker and on the URL resolver decide exactly, and
    that in a checkout without the removed command line and the moved sources the scripts stop early or fail.

  Bounds. The numbers are those of the code: 1000 remembered message ids and 1000 buffered pushes, files
  read in chunks of 65536 bytes, waits of 1, 2, 4 and 8 seconds between at most five rate-limited calls (15 seconds in all),
  and the reconnection schedule whose last entry repeats. Integers are Python's, so unbounded. All recursion is
  structural or has a measure, with one exception: the flush of buffered pushes after a reconnection takes fuel, since
  a connection lost during the flush makes the code's loop push to the buffer it pops from. As many units as there are
  buffered pushes are enough while the connection holds, which is proved; the loop that does not end is proved too.

  Parameters. What the sources only call is an argument: yaml, json, pydantic validation, module import, \<open>ast.parse\<close>,
  SHA-256, the clock, uuid4, random tokens, sockets, the Lark SDK and HTTP transport. Theorems that rely on one state what they need
  as a hypothesis (such as that json.loads inverts json.dumps) and have a witness with
  a concrete function in its place.

  Not modelled: the Elixir runtime but for the matcher above; the shell scripts; argument parsing beyond the arguments' types, logging
  and signal handling; fair scheduling of the event loop (theorems hold for every interleaving or for every script of inputs
  instead); percent-decoding of request paths; Unicode beyond bytes, so case folding, white space, line breaks and word boundaries are those of ASCII.

  Left for later: further compositions, such as a handler's action through the runner to the mock server.
\<close>

section \<open>The Feishu adapter under the runner\<close>

text \<open>The adapter as the runner sees it: its results are JSON objects.\<close>

definition feishu_on_directive :: "'w services \<Rightarrow> 'w fstate on_directive" where
  "feishu_on_directive sv s act args =
     (case Feishu_Adapter.on_directive sv act args s of (r, s') \<Rightarrow> (case r of Inr d \<Rightarrow> Inr (PyDict d) | Inl e \<Rightarrow> Inl e, s'))"

lemma feishu_answers_objects: "answers_objects (feishu_on_directive sv)"
  by (auto simp: answers_objects_def feishu_on_directive_def split: prod.splits sum.splits)

lemma feishu_state: "snd (feishu_on_directive sv s act args) = snd (Feishu_Adapter.on_directive sv act args s)"
  by (simp add: feishu_on_directive_def split: prod.splits)

lemma feishu_answers_sleep:
  "answers (feishu_on_directive sv) s envs = (rs, s') \<Longrightarrow>
   sum_list (st_sleeps s') \<le> sum_list (st_sleeps s) + 15 * length envs"
proof (induction envs arbitrary: s rs)
  case (Cons env envs)
  obtain r s1 where r: "feishu_on_directive sv s (fst (directive_args env)) (snd (directive_args env)) = (r, s1)" by fastforce
  obtain rs1 where rs: "answers (feishu_on_directive sv) s1 envs = (rs1, s')" using Cons.prems r by (auto split: prod.splits)
  have "sum_list (st_sleeps s1) \<le> sum_list (st_sleeps s) + 15"
    using directive_sleep_total [of sv "fst (directive_args env)" "snd (directive_args env)" s]
      feishu_state [of sv s "fst (directive_args env)" "snd (directive_args env)"] by (simp add: r)
  with Cons.IH [OF rs] show ?case by simp
qed simp

text \<open>
  C14. The runner and the Feishu adapter together: on a queue of well-formed directives the loop answers each, in order, with one
  acknowledgement that says \<open>ok\<close> exactly when the adapter returned, whatever it returned, and it waits for the next
  directive; over the whole queue the retries sleep at most 15 seconds per directive.
\<close>

theorem feishu_runner_acknowledges:
  assumes "\<forall>env\<in>set envs. wf_directive env" "startswith source_uri ''esr://''"
  shows "\<exists>acks rs s'. directive_loop clock source_uri (feishu_on_directive sv) s (map Some envs) = (acks, LWaiting, s') \<and>
    answers (feishu_on_directive sv) s envs = (rs, s') \<and> length acks = length envs \<and>
    (\<forall>i<length envs. ack_of (envs ! i) (rs ! i) (acks ! i)) \<and>
    sum_list (st_sleeps s') \<le> sum_list (st_sleeps s) + 15 * length envs"
proof -
  obtain rs s' where r: "answers (feishu_on_directive sv) s envs = (rs, s')" by fastforce
  from directive_loop_ok [OF assms(1) feishu_answers_objects assms(2) r, of clock] feishu_answers_sleep [OF r] r
  show ?thesis by blast
qed

theorem feishu_runner_acknowledges_witness:
  "\<exists>acks rs s'. directive_loop (\<lambda>_. ''t'') ''esr://h/adapters/feishu/x'' (feishu_on_directive demo_services) demo_feishu
       (map Some [demo_directive ''d-1'' ''nope'']) = (acks, LWaiting, s') \<and>
     answers (feishu_on_directive demo_services) demo_feishu [demo_directive ''d-1'' ''nope''] = (rs, s') \<and>
     ack_of (demo_directive ''d-1'' ''nope'') (rs ! 0) (acks ! 0) \<and> rs ! 0 = Inr (PyDict (err_result ''unknown action: nope''))"
proof -
  have "\<forall>env\<in>set [demo_directive ''d-1'' ''nope'']. wf_directive env" by (simp add: wf_directive_def demo_directive_def)
  from feishu_runner_acknowledges [OF this, of "''esr://h/adapters/feishu/x''" "\<lambda>_. ''t''" demo_services demo_feishu]
  obtain acks rs s' where x: "directive_loop (\<lambda>_. ''t'') ''esr://h/adapters/feishu/x'' (feishu_on_directive demo_services) demo_feishu
       (map Some [demo_directive ''d-1'' ''nope'']) = (acks, LWaiting, s')"
     "answers (feishu_on_directive demo_services) demo_feishu [demo_directive ''d-1'' ''nope''] = (rs, s')"
     "ack_of (demo_directive ''d-1'' ''nope'') (rs ! 0) (acks ! 0)" by auto
  moreover have "rs ! 0 = Inr (PyDict (err_result ''unknown action: nope''))"
    using x(2) by (auto simp: demo_directive_def directive_args_def dget_or_def feishu_on_directive_def Feishu_Adapter.on_directive_def)
  ultimately show ?thesis by blast
qed

end
